(* ===== verification/Prelude.thy ===== *)
theory Prelude
  imports Main "HOL-Library.AList"
begin

text \<open>
  Shared vocabulary of the development: the names of the identifiers the services
  exchange, the collections of facts the component theories feed, and generic lemmas on
  lists and association lists that several components use.  Nothing here models a line
  of the repository by itself.
\<close>

section \<open>Identifiers and collections of facts\<close>

text \<open>
  Identifiers travel between the services as strings (the \<open>postId\<close>, \<open>userId\<close> and
  \<open>mediaIds\<close> fields of the event payloads, the cache keys).  Time stamps are the
  milliseconds of a JavaScript \<open>Date\<close>, a natural number here.
\<close>

type_synonym user_id = string
type_synonym media_id = string
type_synonym timestamp = nat

named_theorems js_simps
  \<open>evaluation rules of the JavaScript runtime model (digits, parseInt, JSON lookup)\<close>
named_theorems store_simps
  \<open>abstraction lemmas of the stores (Redis, MongoDB collections, broker queues)\<close>

section \<open>The user id forwarded by the gateway\<close>

text \<open>
  The \<open>authenticateRequest\<close> middleware of the post and media routes
  (\<open>post-routes.js\<close>, line 13, \<open>media-routes.js\<close>, lines 22 and 57; the middleware
  file is not in the repository) takes the user id the gateway forwards and
  answers 401 when it is missing or empty.
\<close>

definition authenticate_request :: "string option \<Rightarrow> user_id option" where
  "authenticate_request h = (case h of None \<Rightarrow> None | Some u \<Rightarrow> if u = [] then None else Some u)"

section \<open>Wildcard patterns\<close>

text \<open>
  Two pattern languages of the system's collaborators share one shape: Redis \<open>KEYS\<close>
  globs over characters (\<open>*\<close> any string, \<open>?\<close> one character) and AMQP topic
  bindings over dot-separated words (\<open>#\<close> any sequence of words, \<open>*\<close> one word).
  \<open>wild_match star one\<close> matches a pattern whose \<open>star\<close> elements match any
  sequence and whose other elements match one element \<open>x\<close> when \<open>one p x\<close>.
\<close>

fun wild_match :: "('a \<Rightarrow> bool) \<Rightarrow> ('a \<Rightarrow> 'a \<Rightarrow> bool) \<Rightarrow> 'a list \<Rightarrow> 'a list \<Rightarrow> bool" where
  "wild_match star one [] s = (s = [])"
| "wild_match star one (p # ps) s =
     (if star p then wild_match star one ps s \<or> (case s of [] \<Rightarrow> False | _ # s' \<Rightarrow> wild_match star one (p # ps) s')
      else (case s of [] \<Rightarrow> False | x # s' \<Rightarrow> one p x \<and> wild_match star one ps s'))"

section \<open>Generic lemmas on lists\<close>

lemma authenticate_request_Some: "authenticate_request h = Some u \<Longrightarrow> u \<noteq> []"
  by (auto simp: authenticate_request_def split: option.splits if_splits)


lemma filter_commute_conj: "filter P (filter Q xs) = filter Q (filter P xs)"
  by (induction xs) auto

lemma append_sep_inj:
  assumes "c \<notin> set a" and "c \<notin> set b"
  shows "a @ c # x = b @ c # y \<longleftrightarrow> a = b \<and> x = y"
  using assms
  by (auto simp: append_eq_Cons_conv Cons_eq_append_conv append_eq_append_conv2)

lemma distinct_map_filter_le1: "distinct (map f xs) \<Longrightarrow> length (filter (\<lambda>x. f x = k) xs) \<le> 1"
proof (induction xs)
  case Nil
  then show ?case by simp
next
  case (Cons x xs)
  show ?case
  proof (cases "f x = k")
    case True
    with Cons.prems have "filter (\<lambda>x. f x = k) xs = []"
      by (auto simp: filter_empty_conv) (metis imageI)
    with True show ?thesis by simp
  next
    case False
    with Cons show ?thesis by simp
  qed
qed

lemma those_map_Some [simp]: "those (map Some xs) = Some xs"
  by (induction xs) auto

lemma find_Some_mem: "find P xs = Some x \<Longrightarrow> P x \<and> x \<in> set xs"
  by (induction xs) (auto split: if_splits)

lemma distinct_map_remove1: "distinct (map f xs) \<Longrightarrow> distinct (map f (remove1 x xs))"
  by (induction xs) (auto dest: set_remove1_subset [THEN subsetD])

lemma distinct_map_remove1_notin:
  "distinct (map f xs) \<Longrightarrow> x \<in> set xs \<Longrightarrow> f x \<notin> f ` set (remove1 x xs)"
  by (induction xs) (auto simp: image_iff dest: set_remove1_subset [THEN subsetD])

lemma filter_upt_less: "filter (\<lambda>i. i < m) [0..<n] = [0..<min n m]"
proof (induction n)
  case 0
  then show ?case by simp
next
  case (Suc n)
  then show ?case by (cases "n < m") (simp_all add: min_def)
qed

lemma length_filter_id_map: "length (filter id (map f xs)) = length (filter f xs)"
  by (induction xs) auto

section \<open>Association lists\<close>

text \<open>
  Stores keyed by strings (Redis, the search collection) are association lists with
  distinct keys; \<open>map_of\<close> is their abstraction to a partial map.  These lemmas
  relate filtering a store to the abstract map.
\<close>

lemma map_of_filter_keys [store_simps]:
  "map_of (filter (\<lambda>p. P (fst p)) al) k = (if P k then map_of al k else None)"
  by (induction al) auto

lemma distinct_map_fst_filter [store_simps]:
  "distinct (map fst al) \<Longrightarrow> distinct (map fst (filter P al))"
  by (induction al) (auto simp: image_iff)

lemma map_of_update_same [store_simps]: "map_of (AList.update k v al) k = Some v"
  by (simp add: update_conv')

lemma in_set_update [store_simps]:
  "x \<in> set (AList.update k v al) \<Longrightarrow> x = (k, v) \<or> x \<in> set al"
  by (induction al) (auto split: if_splits)

lemma in_set_delete [store_simps]:
  "x \<in> set (AList.delete k al) \<longleftrightarrow> x \<in> set al \<and> fst x \<noteq> k"
  by (induction al) auto

lemma in_set_fold_delete [store_simps]:
  "x \<in> set (fold AList.delete ks al) \<longleftrightarrow> x \<in> set al \<and> fst x \<notin> set ks"
  by (induction ks arbitrary: al) (auto simp: in_set_delete)

lemma map_of_snoc_fresh: "k \<noteq> k' \<Longrightarrow> map_of (al @ [(k', v)]) k = map_of al k"
  by (induction al) auto

lemma map_of_snoc_new: "k \<notin> fst ` set al \<Longrightarrow> map_of (al @ [(k, v)]) k = Some v"
  by (induction al) auto

lemma fold_delete_filter: "fold AList.delete ks r = filter (\<lambda>p. fst p \<notin> set ks) r"
  by (induction ks arbitrary: r) (auto simp: AList.delete_eq split_def intro: filter_cong)

lemma map_of_fold_delete [store_simps]:
  "map_of (fold AList.delete ks al) k = (if k \<in> set ks then None else map_of al k)"
  by (induction ks arbitrary: al) (auto simp: delete_conv')

lemma distinct_fold_delete [store_simps]:
  "distinct (map fst al) \<Longrightarrow> distinct (map fst (fold AList.delete ks al))"
  by (induction ks arbitrary: al) (auto simp: distinct_delete)

lemma wild_match_star_any: "star p \<Longrightarrow> wild_match star one [p] s"
  by (induction s) auto

lemma wild_match_literal_star:
  assumes "\<forall>c\<in>set lit. \<not> star c \<and> (\<forall>x. one c x \<longleftrightarrow> x = c)" and "star p"
  shows "wild_match star one (lit @ [p]) s \<longleftrightarrow> take (length lit) s = lit"
  using assms
proof (induction lit arbitrary: s)
  case Nil
  then show ?case by (simp add: wild_match_star_any del: wild_match.simps)
next
  case (Cons c lit)
  then show ?case by (cases s) auto
qed

lemma wild_match_literal:
  assumes "\<forall>c\<in>set lit. \<not> star c \<and> (\<forall>x. one c x \<longleftrightarrow> x = c)"
  shows "wild_match star one lit s \<longleftrightarrow> s = lit"
  using assms
proof (induction lit arbitrary: s)
  case Nil
  then show ?case by auto
next
  case (Cons c lit)
  then show ?case by (cases s) auto
qed

end
