(* ===== verification/JsRuntime.thy ===== *)
theory JsRuntime
  imports Prelude
begin

text \<open>
  The parts of the JavaScript runtime that the services' code relies on for its
  results: \<open>parseInt\<close> and the \<open>||\<close> default of the query parameters
  (\<open>post-controller.js\<close>, lines 65--66), the decimal printing of numbers in template
  literals (the cache keys, line 69), JSON values of request bodies, and the
  hexadecimal form of a MongoDB ObjectId (\<open>_id.toString()\<close>, lines 39 and 151).
  JavaScript numbers are modelled by their integer values: the code only reads
  integer query parameters and counts; the loss of precision above \<open>2^53\<close> is not
  modelled.  Strings are byte strings; \<open>length\<close> counts bytes where JavaScript counts
  UTF-16 code units (the two agree on ASCII text).
\<close>

section \<open>Digits\<close>

definition dec_val :: "char \<Rightarrow> nat option" where
  "dec_val c = (let n = of_char c :: nat in if 48 \<le> n \<and> n \<le> 57 then Some (n - 48) else None)"

definition hex_val :: "char \<Rightarrow> nat option" where
  "hex_val c = (let n = of_char c :: nat in
     if 48 \<le> n \<and> n \<le> 57 then Some (n - 48)
     else if 97 \<le> n \<and> n \<le> 102 then Some (n - 87)
     else if 65 \<le> n \<and> n \<le> 70 then Some (n - 55)
     else None)"

definition digit_char :: "nat \<Rightarrow> char" where
  "digit_char d = (if d < 10 then char_of (48 + d) else char_of (87 + d))"

text \<open>The longest prefix of digits of a string, as digit values.\<close>

fun digits_prefix :: "(char \<Rightarrow> nat option) \<Rightarrow> string \<Rightarrow> nat list" where
  "digits_prefix f [] = []"
| "digits_prefix f (c # cs) = (case f c of None \<Rightarrow> [] | Some d \<Rightarrow> d # digits_prefix f cs)"

definition digits_value :: "nat \<Rightarrow> nat list \<Rightarrow> nat" where
  "digits_value r ds = foldl (\<lambda>acc d. acc * r + d) 0 ds"

text \<open>The digits of a number in base \<open>r\<close>, most significant first (\<open>Number.prototype.toString\<close>).\<close>

fun nat_digits :: "nat \<Rightarrow> nat \<Rightarrow> nat list" where
  "nat_digits r n = (if n < r \<or> r < 2 then [n] else nat_digits r (n div r) @ [n mod r])"

declare nat_digits.simps [simp del]

definition nat_str :: "nat \<Rightarrow> string" where
  "nat_str n = map digit_char (nat_digits 10 n)"

text \<open>\<open>`${i}`\<close> for an integer-valued number.\<close>

definition int_str :: "int \<Rightarrow> string" where
  "int_str i = (if i < 0 then CHR ''-'' # nat_str (nat (- i)) else nat_str (nat i))"

section \<open>parseInt and the || default\<close>

text \<open>
  \<open>parseInt(s)\<close> with no radix (ECMA-262, \<open>parseInt\<close>): leading white space is
  skipped, one sign is read, a \<open>0x\<close>/\<open>0X\<close> prefix selects base 16, and the longest
  prefix of digits is converted; no digit at all gives \<open>NaN\<close>, here \<open>None\<close>.  The
  white space recognised is the ASCII part of the standard's set.
\<close>

definition js_space :: "char \<Rightarrow> bool" where
  "js_space c \<longleftrightarrow> of_char c \<in> {9, 10, 11, 12, 13, 32 :: nat}"

definition parse_int :: "string \<Rightarrow> int option" where
  "parse_int s =
     (let s1 = dropWhile js_space s;
          neg = (take 1 s1 = ''-'');
          s2 = (if take 1 s1 = ''-'' \<or> take 1 s1 = ''+'' then drop 1 s1 else s1);
          hex = (take 2 s2 = ''0x'' \<or> take 2 s2 = ''0X'');
          ds = (if hex then digits_prefix hex_val (drop 2 s2) else digits_prefix dec_val s2);
          v = int (digits_value (if hex then 16 else 10) ds)
      in if ds = [] then None else Some (if neg then - v else v))"

text \<open>
  \<open>parseInt(q) || d\<close>: \<open>NaN\<close> and \<open>0\<close> (also \<open>-0\<close>) are falsy and give the
  default.  An absent query parameter is \<open>undefined\<close>, and \<open>parseInt(undefined)\<close>
  parses the string \<open>"undefined"\<close>, which is \<open>NaN\<close>.
\<close>

definition query_int :: "string option \<Rightarrow> int \<Rightarrow> int" where
  "query_int q d =
     (case q of None \<Rightarrow> d
      | Some s \<Rightarrow> (case parse_int s of None \<Rightarrow> d | Some i \<Rightarrow> if i = 0 then d else i))"

section \<open>ObjectId strings\<close>

text \<open>
  An ObjectId is a 12-byte value; \<open>toString()\<close> prints it as 24 lower-case hexadecimal
  digits.  The model numbers ObjectIds by \<open>nat\<close>; the string of a number below
  \<open>16^24\<close> is its 24-digit form.  Mongoose casts a request parameter to an ObjectId
  when it is 24 hexadecimal digits of either case (the 12-character binary form is not
  modelled) and raises a \<open>CastError\<close> otherwise.
\<close>

definition oid_str :: "nat \<Rightarrow> string" where
  "oid_str n = (let ds = nat_digits 16 n in map digit_char (replicate (24 - length ds) 0 @ ds))"

definition cast_oid :: "string \<Rightarrow> nat option" where
  "cast_oid s = (if length s = 24 then map_option (digits_value 16) (those (map hex_val s)) else None)"

section \<open>Splitting strings\<close>

text \<open>
  \<open>s.split(d)\<close> with a one-character separator: the pieces between the separators,
  empty pieces included, so that there is always one more piece than separators.
\<close>

fun js_split :: "char \<Rightarrow> string \<Rightarrow> string list" where
  "js_split d [] = [[]]"
| "js_split d (c # cs) = (let ws = js_split d cs in if c = d then [] # ws else (c # hd ws) # tl ws)"

text \<open>\<open>join_with\<close> undoes \<open>js_split\<close> (\<open>Array.prototype.join\<close>); a proof device.\<close>

fun join_with :: "char \<Rightarrow> string list \<Rightarrow> string" where
  "join_with d [] = []"
| "join_with d [w] = w"
| "join_with d (w # ws) = w @ d # join_with d ws"

section \<open>JSON values\<close>

text \<open>
  A parsed JSON request body (\<open>express.json()\<close>).  Numbers are integer-valued, as
  above.  \<open>JSON.parse\<close> keeps the last of duplicate keys, hence the lookup from the end.
\<close>

datatype jval = JNull | JBool bool | JNum int | JStr string | JArr "jval list"
  | JObj "(string \<times> jval) list"

definition jlookup :: "(string \<times> jval) list \<Rightarrow> string \<Rightarrow> jval option" where
  "jlookup obj k = map_of (rev obj) k"

section \<open>Printing and parsing numbers\<close>

lemma digits_value_snoc [js_simps]: "digits_value r (ds @ [d]) = digits_value r ds * r + d"
  by (simp add: digits_value_def)

lemma nat_digits_ne [js_simps]: "nat_digits r n \<noteq> []"
  by (subst nat_digits.simps) simp

lemma nat_digits_lt: "2 \<le> r \<Longrightarrow> d \<in> set (nat_digits r n) \<Longrightarrow> d < r"
proof (induction r n rule: nat_digits.induct)
  case (1 r n)
  then show ?case
    by (cases "n < r \<or> r < 2") (auto simp: nat_digits.simps [of r n])
qed

lemma digits_value_nat_digits [js_simps]: "2 \<le> r \<Longrightarrow> digits_value r (nat_digits r n) = n"
proof (induction r n rule: nat_digits.induct)
  case (1 r n)
  then show ?case
    by (cases "n < r \<or> r < 2") (auto simp: nat_digits.simps [of r n] digits_value_def)
qed

lemma dec_val_digit_char [js_simps]: "d < 10 \<Longrightarrow> dec_val (digit_char d) = Some d"
  by (simp add: dec_val_def digit_char_def)

lemma hex_val_digit_char [js_simps]: "d < 16 \<Longrightarrow> hex_val (digit_char d) = Some d"
  by (simp add: hex_val_def digit_char_def)

lemma digits_prefix_map_digit_char:
  "(\<And>d. d \<in> set ds \<Longrightarrow> f (digit_char d) = Some d) \<Longrightarrow> digits_prefix f (map digit_char ds) = ds"
  by (induction ds) auto

lemma digits_prefix_append_stop:
  "(\<And>d. d \<in> set ds \<Longrightarrow> f (digit_char d) = Some d) \<Longrightarrow> f c = None \<Longrightarrow>
   digits_prefix f (map digit_char ds @ c # rest) = ds"
  by (induction ds) auto

lemma nat_str_dec: "c \<in> set (nat_str n) \<Longrightarrow> dec_val c \<noteq> None"
  using nat_digits_lt [of 10 _ n] by (auto simp: nat_str_def dec_val_digit_char)

lemma dec_val_special: "dec_val CHR ''x'' = None" "dec_val CHR ''X'' = None"
  "dec_val CHR ''-'' = None" "dec_val CHR ''+'' = None" "dec_val CHR '':'' = None"
  by (simp_all add: dec_val_def)

lemma nat_str_no_sep: "CHR '':'' \<notin> set (nat_str n)" "CHR ''-'' \<notin> set (nat_str n)"
  using nat_str_dec dec_val_special by blast+

lemma js_space_dec: "dec_val c \<noteq> None \<Longrightarrow> \<not> js_space c"
  by (auto simp: dec_val_def js_space_def split: if_splits)

lemma take_in_set: "take n s = t \<Longrightarrow> c \<in> set t \<Longrightarrow> c \<in> set s"
  using in_set_takeD by fast

lemma take2_x: "take 2 s = ''0x'' \<or> take 2 s = ''0X'' \<Longrightarrow> \<exists>c\<in>set s. dec_val c = None"
proof -
  assume h: "take 2 s = ''0x'' \<or> take 2 s = ''0X''"
  then have "CHR ''x'' \<in> set s \<or> CHR ''X'' \<in> set s"
    by (metis in_set_takeD list.set_intros)
  then show ?thesis using dec_val_special(1,2) by blast
qed

lemma parse_int_digits:
  assumes ds: "\<And>c. c \<in> set s \<Longrightarrow> dec_val c \<noteq> None" and ne: "s \<noteq> []"
  shows "parse_int s = Some (int (digits_value 10 (digits_prefix dec_val s)))"
proof -
  obtain c cs where s: "s = c # cs" using ne by (cases s) auto
  have c: "dec_val c \<noteq> None" using ds s by simp
  have sp: "\<not> js_space c" using c by (rule js_space_dec)
  have sign: "c \<noteq> CHR ''-''" "c \<noteq> CHR ''+''" using c dec_val_special by auto
  have nohex: "\<not> (take 2 s = ''0x'' \<or> take 2 s = ''0X'')" using take2_x ds by blast
  have dw: "dropWhile js_space s = s" using sp s by simp
  have t1: "take 1 s \<noteq> ''-''" "take 1 s \<noteq> ''+''" using sign s by simp_all
  have dne: "digits_prefix dec_val s \<noteq> []" using c s by (cases "dec_val c") auto
  show ?thesis
    using dw t1 nohex dne unfolding parse_int_def Let_def by (simp only: if_False if_True) simp
qed

lemma parse_int_nat_str: "parse_int (nat_str n) = Some (int n)"
proof -
  have "digits_prefix dec_val (nat_str n) = nat_digits 10 n"
    unfolding nat_str_def
    by (rule digits_prefix_map_digit_char) (simp add: dec_val_digit_char nat_digits_lt)
  moreover have "nat_str n \<noteq> []" by (simp add: nat_str_def nat_digits_ne)
  ultimately show ?thesis
    using parse_int_digits [of "nat_str n", OF nat_str_dec] by (simp add: digits_value_nat_digits)
qed

lemma nat_str_facts:
  "nat_str n \<noteq> []" "digits_prefix dec_val (nat_str n) = nat_digits 10 n"
  "take 2 (nat_str n) \<noteq> ''0x''" "take 2 (nat_str n) \<noteq> ''0X''"
proof -
  show "nat_str n \<noteq> []" by (simp add: nat_str_def nat_digits_ne)
  show "digits_prefix dec_val (nat_str n) = nat_digits 10 n"
    unfolding nat_str_def
    by (rule digits_prefix_map_digit_char) (simp add: dec_val_digit_char nat_digits_lt)
  show "take 2 (nat_str n) \<noteq> ''0x''" "take 2 (nat_str n) \<noteq> ''0X''"
    using take2_x nat_str_dec by blast+
qed

lemma parse_int_int_str [js_simps]: "parse_int (int_str i) = Some i"
proof (cases "i < 0")
  case True
  let ?m = "nat (- i)"
  let ?s = "CHR ''-'' # nat_str ?m"
  have dw: "dropWhile js_space ?s = ?s" by (simp add: js_space_def)
  have t1: "take 1 ?s = ''-''" by simp
  have dr: "drop 1 ?s = nat_str ?m" by simp
  have f: "nat_str ?m \<noteq> []" "digits_prefix dec_val (nat_str ?m) = nat_digits 10 ?m"
    "\<not> (take 2 (nat_str ?m) = ''0x'' \<or> take 2 (nat_str ?m) = ''0X'')"
    using nat_str_facts [of ?m] by simp_all
  have "parse_int ?s = Some (- int ?m)"
    using dw t1 dr f nat_digits_ne [of 10 ?m]
    unfolding parse_int_def Let_def by (simp only: if_False if_True) (simp add: digits_value_nat_digits)
  then show ?thesis using True by (simp add: int_str_def)
next
  case False
  then show ?thesis
    by (simp add: int_str_def parse_int_nat_str)
qed

lemma nat_str_inj [js_simps]: "nat_str m = nat_str n \<longleftrightarrow> m = n"
  by (metis of_nat_eq_iff option.inject parse_int_nat_str)

lemma nat_str_0 [js_simps]: "nat_str 0 = ''0''"
  by code_simp

lemma int_str_inj [js_simps]: "int_str i = int_str j \<longleftrightarrow> i = j"
  by (metis option.inject parse_int_int_str)

lemma int_str_no_colon: "CHR '':'' \<notin> set (int_str i)"
  using nat_str_no_sep by (simp add: int_str_def)

text \<open>
  A page number survives the trip through the URL: the query string
  \<open>?page=${i}\<close> is read back by \<open>parseInt(req.query.page) || 1\<close> as \<open>i\<close> for every
  non-zero integer \<open>i\<close>.
\<close>

theorem query_int_int_str: "i \<noteq> 0 \<Longrightarrow> query_int (Some (int_str i)) d = i"
  by (simp add: query_int_def parse_int_int_str)

theorem query_int_int_str_witness: "(-3 :: int) \<noteq> 0 \<and> query_int (Some (int_str (-3))) 1 = -3"
  using query_int_int_str [of "-3" 1] by simp

section \<open>Splitting: lemmas\<close>

lemma js_split_ne: "js_split d s \<noteq> []"
  by (induction s) (auto simp: Let_def)

lemma join_js_split: "join_with d (js_split d s) = s"
proof (induction s)
  case Nil
  then show ?case by simp
next
  case (Cons c cs)
  obtain w ws where e: "js_split d cs = w # ws" using js_split_ne by (cases "js_split d cs") auto
  show ?case using Cons e by (cases ws) (auto simp: Let_def)
qed

lemma js_split_inj: "js_split d a = js_split d b \<longleftrightarrow> a = b"
  by (metis join_js_split)

section \<open>ObjectId strings\<close>

lemma digits_value_zeros [js_simps]: "digits_value r (replicate k 0 @ ds) = digits_value r ds"
proof -
  have "foldl (\<lambda>acc d. acc * r + d) 0 (replicate k 0) = 0" by (induction k) auto
  then show ?thesis by (simp add: digits_value_def)
qed

lemma oid_str_hex:
  "those (map hex_val (oid_str n)) = Some (replicate (24 - length (nat_digits 16 n)) 0 @ nat_digits 16 n)"
proof -
  have "map hex_val (oid_str n) = map Some (replicate (24 - length (nat_digits 16 n)) 0 @ nat_digits 16 n)"
    using nat_digits_lt [of 16 _ n] by (auto simp: oid_str_def Let_def hex_val_digit_char)
  then show ?thesis by (simp only: those_map_Some)
qed

lemma oid_str_value: "map_option (digits_value 16) (those (map hex_val (oid_str n))) = Some n"
  by (simp add: oid_str_hex digits_value_zeros digits_value_nat_digits)

lemma oid_str_inj [js_simps]: "oid_str a = oid_str b \<longleftrightarrow> a = b"
  by (metis oid_str_value option.inject)

lemma nat_digits_length: "2 \<le> r \<Longrightarrow> n < r ^ k \<Longrightarrow> 0 < k \<Longrightarrow> length (nat_digits r n) \<le> k"
proof (induction r n arbitrary: k rule: nat_digits.induct)
  case (1 r n)
  show ?case
  proof (cases "n < r")
    case True
    with "1.prems"(3) True show ?thesis by (simp add: nat_digits.simps [of r n])
  next
    case False
    then obtain k' where k: "k = Suc k'" using "1.prems" by (cases k) auto
    from "1.prems" k have lt: "n div r < r ^ k'" by (simp add: div_less_iff_less_mult mult.commute)
    from False "1.prems"(2) k have "0 < k'" by (cases k') auto
    with lt "1.IH" [of k'] False "1.prems"(1) show ?thesis by (simp add: nat_digits.simps [of r n] k)
  qed
qed

lemma oid_str_length: "n < 16 ^ 24 \<Longrightarrow> length (oid_str n) = 24"
  using nat_digits_length [of 16 n 24] by (simp add: oid_str_def Let_def)

text \<open>
  ObjectId round trip.  The 24-digit hexadecimal string of an ObjectId
  (\<open>_id.toString()\<close>, the \<open>postId\<close> of the events and the path parameter of the
  post routes) is cast back by \<open>findById\<close> to the same ObjectId.
\<close>

lemma cast_oid_oid_str: "n < 16 ^ 24 \<Longrightarrow> cast_oid (oid_str n) = Some n"
  by (simp add: cast_oid_def oid_str_length oid_str_value)

lemma cast_oid_oid_str_witness: "(255::nat) < 16 ^ 24 \<and> cast_oid (oid_str 255) = Some 255"
  using cast_oid_oid_str [of 255] by simp

end
