(* ===== verification/Redis.thy ===== *)
theory Redis
  imports JsRuntime
begin

text \<open>
  The Redis server as the post service's cache sees it through \<open>ioredis\<close>
  (\<open>req.redisClient\<close>, set up in \<open>post-service/src/index.js\<close>, lines 18 and 33--40):
  a store of string keys with values and time-to-live, and the commands the code issues,
  \<open>GET\<close>, \<open>SETEX\<close>, \<open>DEL\<close> and \<open>KEYS\<close>.  The store is an association list with
  distinct keys; its abstraction is the partial map \<open>map_of\<close>, and every command is
  shown to act on that map as Redis documents it.  Values are the parsed JSON the code
  stores (the \<open>JSON.stringify\<close>/\<open>JSON.parse\<close> round trip is the identity on them).
  Expiry is not a clock here: an entry may disappear at any moment (\<open>redis_evict\<close>),
  which covers both the TTL and memory eviction.  When the server is unreachable,
  every command fails; the commands of a request all see the same availability.
\<close>

datatype redis_error = RedisUnavailable | RedisWrongArgs

type_synonym 'v redis_store = "(string \<times> ('v \<times> nat)) list"

definition redis_wf :: "'v redis_store \<Rightarrow> bool" where
  "redis_wf r \<longleftrightarrow> distinct (map fst r)"

definition redis_lookup :: "'v redis_store \<Rightarrow> string \<Rightarrow> 'v option" where
  "redis_lookup r k = map_option fst (map_of r k)"

text \<open>\<open>GET key\<close>: the value, or \<open>null\<close> (\<open>None\<close>).\<close>

definition redis_get :: "bool \<Rightarrow> 'v redis_store \<Rightarrow> string \<Rightarrow> redis_error + 'v option" where
  "redis_get up r k = (if up then Inr (redis_lookup r k) else Inl RedisUnavailable)"

text \<open>\<open>SETEX key seconds value\<close>.\<close>

definition redis_setex ::
  "bool \<Rightarrow> string \<Rightarrow> nat \<Rightarrow> 'v \<Rightarrow> 'v redis_store \<Rightarrow> redis_error + 'v redis_store" where
  "redis_setex up k ttl v r = (if up then Inr (AList.update k (v, ttl) r) else Inl RedisUnavailable)"

text \<open>
  \<open>DEL key ...\<close>: \<open>del(k)\<close> with one key, \<open>del(keys)\<close> with an array, which
  \<open>ioredis\<close> flattens into the arguments.  Redis refuses \<open>DEL\<close> with no key
  (\<open>ERR wrong number of arguments\<close>).
\<close>

definition redis_del :: "bool \<Rightarrow> string list \<Rightarrow> 'v redis_store \<Rightarrow> redis_error + 'v redis_store" where
  "redis_del up ks r =
     (if \<not> up then Inl RedisUnavailable
      else if ks = [] then Inl RedisWrongArgs
      else Inr (fold AList.delete ks r))"

text \<open>
  \<open>KEYS pattern\<close> with the glob characters \<open>*\<close> and \<open>?\<close> (character classes and
  escapes are not modelled: the code's only pattern is \<open>posts:*\<close>).
\<close>

definition glob :: "string \<Rightarrow> string \<Rightarrow> bool" where
  "glob p s = wild_match (\<lambda>c. c = CHR ''*'') (\<lambda>c x. c = CHR ''?'' \<or> c = x) p s"

definition redis_keys :: "bool \<Rightarrow> string \<Rightarrow> 'v redis_store \<Rightarrow> redis_error + string list" where
  "redis_keys up p r = (if up then Inr (filter (glob p) (map fst r)) else Inl RedisUnavailable)"

text \<open>Expiry or eviction of one key.\<close>

definition redis_evict :: "string \<Rightarrow> 'v redis_store \<Rightarrow> 'v redis_store" where
  "redis_evict k r = AList.delete k r"

section \<open>The commands on the abstract map\<close>

lemma redis_lookup_update [store_simps]:
  "redis_lookup (AList.update k (v, ttl) r) = (redis_lookup r)(k \<mapsto> v)"
  by (simp add: redis_lookup_def update_conv' fun_eq_iff)

lemma redis_lookup_fold_delete [store_simps]:
  "redis_lookup (fold AList.delete ks r) k = (if k \<in> set ks then None else redis_lookup r k)"
  by (simp add: redis_lookup_def map_of_fold_delete)

lemma redis_lookup_evict [store_simps]:
  "redis_lookup (redis_evict k r) k' = (if k' = k then None else redis_lookup r k')"
  by (simp add: redis_lookup_def redis_evict_def delete_conv')

lemma redis_wf_update [store_simps]: "redis_wf r \<Longrightarrow> redis_wf (AList.update k x r)"
  by (simp add: redis_wf_def distinct_update)

lemma redis_wf_fold_delete [store_simps]: "redis_wf r \<Longrightarrow> redis_wf (fold AList.delete ks r)"
  by (simp add: redis_wf_def distinct_fold_delete)

lemma redis_wf_evict [store_simps]: "redis_wf r \<Longrightarrow> redis_wf (redis_evict k r)"
  by (simp add: redis_wf_def redis_evict_def distinct_delete)

lemma glob_prefix_star:
  assumes "CHR ''*'' \<notin> set p" and "CHR ''?'' \<notin> set p"
  shows "glob (p @ ''*'') s \<longleftrightarrow> take (length p) s = p"
  unfolding glob_def
  by (rule wild_match_literal_star) (use assms in auto)

lemma glob_posts_star [store_simps]: "glob ''posts:*'' s \<longleftrightarrow> take 6 s = ''posts:''"
proof -
  have l: "length ''posts:'' = 6" by simp
  have "CHR ''*'' \<notin> set ''posts:''" "CHR ''?'' \<notin> set ''posts:''" by simp_all
  from glob_prefix_star [OF this, of s] l show ?thesis
    by (metis append_Cons append_Nil)
qed

lemma redis_keys_set [store_simps]:
  "redis_keys True p r = Inr ks \<Longrightarrow> set ks = {k \<in> fst ` set r. glob p k}"
  by (force simp: redis_keys_def)

lemma redis_lookup_in_keys: "redis_lookup r k \<noteq> None \<Longrightarrow> k \<in> fst ` set r"
  by (force simp: redis_lookup_def dest: map_of_SomeD)

lemma redis_lookup_notin: "k \<notin> fst ` set r \<Longrightarrow> redis_lookup r k = None"
  using redis_lookup_in_keys by blast

lemma redis_lookup_delete [store_simps]: "redis_lookup (AList.delete k r) k' = (if k' = k then None else redis_lookup r k')"
  by (simp add: redis_lookup_def delete_conv')

lemma redis_lookup_delete_matching:
  "redis_lookup (fold AList.delete (filter P (map fst r)) r) k = (if P k then None else redis_lookup r k)"
  by (auto simp: redis_lookup_fold_delete intro: redis_lookup_notin)

end
