(* ===== verification/Amqp.thy ===== *)
theory Amqp
  imports JsRuntime
begin

text \<open>
  The message broker and the post service's client of it.
  \<^item> The client is \<open>post-service/src/utils/rabbitmq.js\<close>: two module variables,
    \<open>connection\<close> and \<open>channel\<close> (\<open>amqp_client\<close>), \<open>connectToRabbitMQ\<close>
    (\<open>connect_to_rabbitmq\<close>) and \<open>publishEvent\<close> (\<open>publish_event\<close>).
  \<^item> The broker (RabbitMQ, not part of the repository) is modelled from the spec:
    one topic exchange \<open>facebook_events\<close>, queues with their binding patterns and
    their messages in FIFO order (\<open>broker\<close>), and topic routing (\<open>topic_match\<close>).
  What the broker does when the client opens a connection is not in the code's
  control; it is an argument of the connection step (\<open>conn_outcome\<close>).  A channel
  the broker closed stays a non-null object in the client (\<open>ChanClosed\<close>).
  Payloads are the parsed JSON objects (\<open>event\<close>), one constructor per routing key;
  the \<open>JSON.stringify\<close>/\<open>JSON.parse\<close> round trip is the identity on them.
\<close>

section \<open>Events and messages\<close>

datatype event =
    PostCreated string user_id string timestamp
      \<comment> \<open>\<open>{postId, userId, content, createdAt}\<close>\<close>
  | PostDeleted string user_id "media_id list"
      \<comment> \<open>\<open>{postId, userId, mediaIds}\<close>\<close>

record message =
  msg_key :: string
  msg_event :: event

definition exchange_name :: string where
  "exchange_name = ''facebook_events''"

section \<open>Topic routing\<close>

text \<open>
  A routing key and a binding pattern are split into words at \<open>.\<close>; in a pattern
  \<open>#\<close> matches any number of words and \<open>*\<close> exactly one.
\<close>

definition split_dots :: "string \<Rightarrow> string list" where
  "split_dots s = js_split CHR ''.'' s"

definition topic_match :: "string \<Rightarrow> string \<Rightarrow> bool" where
  "topic_match pat key =
     wild_match (\<lambda>w. w = ''#'') (\<lambda>w x. w = ''*'' \<or> w = x) (split_dots pat) (split_dots key)"

section \<open>The broker\<close>

record queue =
  q_name :: string
  q_bindings :: "string list"
  q_msgs :: "message list"

record broker =
  exchange_declared :: bool
  queues :: "queue list"

text \<open>
  Publishing to the exchange appends the message to every queue with a binding that
  matches its routing key, and to no other.
\<close>

definition route :: "message \<Rightarrow> queue list \<Rightarrow> queue list" where
  "route m qs =
     map (\<lambda>q. if list_ex (\<lambda>p. topic_match p (msg_key m)) (q_bindings q)
               then q\<lparr>q_msgs := q_msgs q @ [m]\<rparr> else q) qs"

section \<open>The client: connectToRabbitMQ and publishEvent\<close>

datatype chan_state = ChanOpen | ChanClosed

record amqp_client =
  connection :: bool
  channel :: "chan_state option"

definition client_init :: amqp_client where
  "client_init = \<lparr>connection = False, channel = None\<rparr>"

text \<open>
  The broker's answer to one connection attempt: \<open>amqp.connect\<close> refused,
  \<open>createChannel\<close> refused, \<open>assertExchange\<close> refused (the broker then closes the
  channel), or all three accepted.
\<close>

datatype conn_outcome = ConnRefused | ChannelRefused | ExchangeRefused | ConnAccepted

text \<open>
  \<open>connectToRabbitMQ\<close> (lines 9--20): each \<open>await\<close> assigns its variable only when
  it succeeds; the \<open>catch\<close> logs and returns \<open>undefined\<close> (\<open>False\<close>), so a failure
  is never seen by the caller as an exception.
\<close>

definition connect_to_rabbitmq ::
  "conn_outcome \<Rightarrow> amqp_client \<Rightarrow> broker \<Rightarrow> amqp_client \<times> broker \<times> bool" where
  "connect_to_rabbitmq out c b =
     (case out of
        ConnRefused \<Rightarrow> (c, b, False)
      | ChannelRefused \<Rightarrow> (c\<lparr>connection := True\<rparr>, b, False)
      | ExchangeRefused \<Rightarrow> (c\<lparr>connection := True, channel := Some ChanClosed\<rparr>, b, False)
      | ConnAccepted \<Rightarrow>
          (c\<lparr>connection := True, channel := Some ChanOpen\<rparr>, b\<lparr>exchange_declared := True\<rparr>, True))"

datatype publish_error =
    NullChannel     \<comment> \<open>\<open>TypeError\<close>: \<open>channel\<close> is still \<open>null\<close> at line 27\<close>
  | ChannelIsClosed \<comment> \<open>\<open>IllegalOperationError\<close> from a closed channel\<close>

text \<open>
  \<open>publishEvent\<close> (lines 22--34): connect only when \<open>channel\<close> is \<open>null\<close>, then
  \<open>channel.publish\<close>.  A publish to an exchange the broker does not know is accepted
  by the client and answered by the broker with a channel error (404) that closes the
  channel; the message is lost.  The Boolean that \<open>channel.publish\<close> returns is
  ignored by the code, as here.
\<close>

definition publish_event ::
  "conn_outcome \<Rightarrow> string \<Rightarrow> event \<Rightarrow> amqp_client \<Rightarrow> broker \<Rightarrow>
   amqp_client \<times> broker \<times> (publish_error + unit)" where
  "publish_event out rk ev c b =
     (let (c1, b1, _) = (if channel c = None then connect_to_rabbitmq out c b else (c, b, True))
      in case channel c1 of
           None \<Rightarrow> (c1, b1, Inl NullChannel)
         | Some ChanClosed \<Rightarrow> (c1, b1, Inl ChannelIsClosed)
         | Some ChanOpen \<Rightarrow>
             (if exchange_declared b1
              then (c1, b1\<lparr>queues := route \<lparr>msg_key = rk, msg_event = ev\<rparr> (queues b1)\<rparr>, Inr ())
              else (c1\<lparr>channel := Some ChanClosed\<rparr>, b1, Inr ())))"

text \<open>The broker closes the channel (connection loss, broker restart).\<close>

definition channel_lost :: "amqp_client \<Rightarrow> amqp_client" where
  "channel_lost c = (if channel c = None then c else c\<lparr>channel := Some ChanClosed\<rparr>)"

section \<open>Routing lemmas\<close>

lemma split_dots_inj: "split_dots a = split_dots b \<longleftrightarrow> a = b"
  by (simp add: split_dots_def js_split_inj)

lemma topic_match_literal:
  assumes "\<forall>w\<in>set (split_dots pat). w \<noteq> ''#'' \<and> w \<noteq> ''*''"
  shows "topic_match pat key \<longleftrightarrow> key = pat"
proof -
  have "topic_match pat key \<longleftrightarrow> split_dots key = split_dots pat"
    unfolding topic_match_def by (rule wild_match_literal) (use assms in auto)
  then show ?thesis by (simp add: split_dots_inj)
qed

lemma route_names [store_simps]: "map q_name (route m qs) = map q_name qs"
  by (simp add: route_def comp_def)

lemma route_bindings [store_simps]: "map q_bindings (route m qs) = map q_bindings qs"
  by (simp add: route_def comp_def)

lemma route_length [store_simps]: "length (route m qs) = length qs"
  by (simp add: route_def)

lemma route_nth [store_simps]:
  "i < length qs \<Longrightarrow> route m qs ! i =
     (if list_ex (\<lambda>p. topic_match p (msg_key m)) (q_bindings (qs ! i))
      then (qs ! i)\<lparr>q_msgs := q_msgs (qs ! i) @ [m]\<rparr> else qs ! i)"
  by (simp add: route_def)

section \<open>Publishing: every outcome\<close>

lemma publish_event_open [store_simps]:
  "channel c = Some ChanOpen \<Longrightarrow> exchange_declared b \<Longrightarrow>
   publish_event out rk ev c b =
     (c, b\<lparr>queues := route \<lparr>msg_key = rk, msg_event = ev\<rparr> (queues b)\<rparr>, Inr ())"
  by (simp add: publish_event_def)

lemma publish_event_undeclared [store_simps]:
  "channel c = Some ChanOpen \<Longrightarrow> \<not> exchange_declared b \<Longrightarrow>
   publish_event out rk ev c b = (c\<lparr>channel := Some ChanClosed\<rparr>, b, Inr ())"
  by (simp add: publish_event_def)

lemma publish_event_fresh [store_simps]:
  "channel c = None \<Longrightarrow>
   publish_event out rk ev c b =
     (case out of
        ConnRefused \<Rightarrow> (c, b, Inl NullChannel)
      | ChannelRefused \<Rightarrow> (c\<lparr>connection := True\<rparr>, b, Inl NullChannel)
      | ExchangeRefused \<Rightarrow> (c\<lparr>connection := True, channel := Some ChanClosed\<rparr>, b, Inl ChannelIsClosed)
      | ConnAccepted \<Rightarrow>
          (c\<lparr>connection := True, channel := Some ChanOpen\<rparr>,
           b\<lparr>exchange_declared := True, queues := route \<lparr>msg_key = rk, msg_event = ev\<rparr> (queues b)\<rparr>, Inr ()))"
  by (simp add: publish_event_def connect_to_rabbitmq_def split: conn_outcome.splits)

lemma publish_event_exchange_mono:
  "publish_event out rk ev c b = (c', b', r) \<Longrightarrow> exchange_declared b \<Longrightarrow> exchange_declared b'"
  by (cases "channel c") (auto simp: publish_event_def connect_to_rabbitmq_def
      split: conn_outcome.splits chan_state.splits if_splits)

text \<open>
  C25: a closed channel is never replaced.  Once the broker has closed the channel,
  \<open>publishEvent\<close> sees a non-null \<open>channel\<close>, never reconnects, and fails with the
  client and the broker unchanged, whatever the broker would answer to a new connection:
  every later publish fails the same way (the spec's section 4.1 requires a
  reconnection).
\<close>

theorem closed_channel_never_recovers:
  "channel c = Some ChanClosed \<Longrightarrow> publish_event out rk ev c b = (c, b, Inl ChannelIsClosed)"
  by (simp add: publish_event_def)

theorem closed_channel_never_recovers_witness:
  "channel (channel_lost \<lparr>connection = True, channel = Some ChanOpen\<rparr>) = Some ChanClosed \<and>
   publish_event ConnAccepted ''post.created'' (PostCreated ''p1'' ''u1'' ''hello'' 0)
     (channel_lost \<lparr>connection = True, channel = Some ChanOpen\<rparr>) \<lparr>exchange_declared = True, queues = []\<rparr> =
   (channel_lost \<lparr>connection = True, channel = Some ChanOpen\<rparr>, \<lparr>exchange_declared = True, queues = []\<rparr>,
    Inl ChannelIsClosed)"
proof -
  have h: "channel (channel_lost \<lparr>connection = True, channel = Some ChanOpen\<rparr>) = Some ChanClosed"
    by (simp add: channel_lost_def)
  show ?thesis using h closed_channel_never_recovers [OF h] by simp
qed

end
