(* ===== verification/PostService.thy ===== *)
theory PostService
  imports Redis Amqp
begin

text \<open>
  The post service: the authoring side of the system
  (\<open>post-service/src/controllers/post-controller.js\<close>,
  \<open>post-service/src/utils/validation.js\<close>).  Its state (\<open>post_service\<close>) is the
  MongoDB \<open>posts\<close> collection, the Redis cache, the module state of its AMQP client and
  the ObjectId generator; the broker is shared with the consumers and passed alongside.
  What the outside world does during a request (MongoDB, Redis reachable or not, the
  broker's answer to a connection attempt, the clock) is the record \<open>env\<close>.
  Each controller is one function from the request and the state to the new state and
  the HTTP response, with every \<open>return res.status(...)\<close> and every \<open>catch\<close> as a
  branch.  The post model (\<open>models/post-model.js\<close>) is not in the repository; its
  fields are those the controllers read and write.
\<close>

section \<open>Data\<close>

record post =
  post_oid :: nat
  post_user :: user_id
  post_content :: string
  post_media :: "media_id list"
  post_created :: timestamp

record listing =
  lst_posts :: "post list"
  lst_page :: int
  lst_total_pages :: int
  lst_total :: nat

text \<open>The JSON values the cache holds: a listing page or a single post.\<close>

datatype cval = CListing listing | CPost post

text \<open>Joi's first validation error (\<open>error.details[0]\<close>), by kind and key.\<close>

datatype joi_error =
    Required string | NotString string | EmptyString string
  | TooShort string nat | TooLong string nat | NotArray string | NotAllowed string

datatype body = Msg bool string | Invalid joi_error | ListingBody listing | PostBody post

type_synonym response = "nat \<times> body"

record post_service =
  posts :: "post list"
  cache :: "cval redis_store"
  amqp :: amqp_client
  next_oid :: nat

record env =
  mongo_up :: bool
  redis_up :: bool
  broker_answer :: conn_outcome
  now :: timestamp

section \<open>Validation (validation.js)\<close>

text \<open>
  \<open>joi.object({content: joi.string().min(3).max(5000).required(), mediaIds: joi.array()})\<close>
  with Joi's defaults: the first error is reported, keys are checked in the schema's
  order and unknown keys after them, the empty string is refused by \<open>string()\<close>.
\<close>

definition content_check :: "(string \<times> jval) list \<Rightarrow> joi_error option" where
  "content_check obj =
     (case jlookup obj ''content'' of
        None \<Rightarrow> Some (Required ''content'')
      | Some (JStr c) \<Rightarrow>
          (if c = [] then Some (EmptyString ''content'')
           else if length c < 3 then Some (TooShort ''content'' 3)
           else if 5000 < length c then Some (TooLong ''content'' 5000)
           else None)
      | Some _ \<Rightarrow> Some (NotString ''content''))"

definition media_check :: "(string \<times> jval) list \<Rightarrow> joi_error option" where
  "media_check obj =
     (case jlookup obj ''mediaIds'' of
        None \<Rightarrow> None
      | Some (JArr _) \<Rightarrow> None
      | Some _ \<Rightarrow> Some (NotArray ''mediaIds''))"

definition unknown_check :: "(string \<times> jval) list \<Rightarrow> joi_error option" where
  "unknown_check obj =
     (case filter (\<lambda>k. k \<noteq> ''content'' \<and> k \<noteq> ''mediaIds'') (map fst obj) of
        [] \<Rightarrow> None
      | k # _ \<Rightarrow> Some (NotAllowed k))"

definition validate_create_post :: "(string \<times> jval) list \<Rightarrow> joi_error option" where
  "validate_create_post obj =
     (case content_check obj of
        Some err \<Rightarrow> Some err
      | None \<Rightarrow> (case media_check obj of Some err \<Rightarrow> Some err | None \<Rightarrow> unknown_check obj))"

section \<open>Cache keys and invalidation\<close>

text \<open>\<open>`posts:${page}:${limit}`\<close> (line 69) and \<open>`post:${id}`\<close> (lines 7 and 107).\<close>

definition posts_key :: "int \<Rightarrow> int \<Rightarrow> string" where
  "posts_key page limit = ''posts:'' @ int_str page @ CHR '':'' # int_str limit"

definition post_key :: "string \<Rightarrow> string" where
  "post_key pid = ''post:'' @ pid"

text \<open>
  \<open>getPostController\<close> stores the post under \<open>cachedPost\<close> (line 121), which is
  \<open>null\<close> on that path; \<open>ioredis\<close> sends \<open>null\<close> as the empty string.
\<close>

definition null_key :: string where
  "null_key = []"

text \<open>
  The inverse of \<open>posts_key\<close>, used to state what a cached listing must be.  It only
  accepts numbers in the canonical form \<open>int_str\<close> prints.
\<close>

definition canon_int :: "string \<Rightarrow> int option" where
  "canon_int s = (case parse_int s of Some i \<Rightarrow> if int_str i = s then Some i else None | None \<Rightarrow> None)"

definition parse_posts_key :: "string \<Rightarrow> (int \<times> int) option" where
  "parse_posts_key k =
     (if take 6 k = ''posts:''
      then (let rest = drop 6 k; a = takeWhile (\<lambda>c. c \<noteq> CHR '':'') rest;
                b = drop (Suc (length a)) rest
            in if length a < length rest
               then (case (canon_int a, canon_int b) of
                       (Some p, Some l) \<Rightarrow> Some (p, l) | _ \<Rightarrow> None)
               else None)
      else None)"

text \<open>
  \<open>invalidatePostCache\<close> (lines 6--14): delete the single-post key, then every key
  matching \<open>posts:*\<close>; the \<open>keys.length > 0\<close> guard avoids a \<open>DEL\<close> with no key.
\<close>

definition invalidate_post_cache ::
  "bool \<Rightarrow> string \<Rightarrow> cval redis_store \<Rightarrow> redis_error + cval redis_store" where
  "invalidate_post_cache up input r =
     (case redis_del up [post_key input] r of
        Inl err \<Rightarrow> Inl err
      | Inr r1 \<Rightarrow>
          (case redis_keys up ''posts:*'' r1 of
             Inl err \<Rightarrow> Inl err
           | Inr ks \<Rightarrow> if 0 < length ks then redis_del up ks r1 else Inr r1))"

section \<open>The primary store queries\<close>

text \<open>
  \<open>Post.find({}).sort({createdAt: -1}).skip(startIndex).limit(limit)\<close> and
  \<open>countDocuments()\<close> (lines 75--87).  MongoDB refuses a negative skip; a negative
  limit returns at most its absolute value of documents.  Posts with equal
  \<open>createdAt\<close> come in an order MongoDB does not specify; the model takes the later
  insertion first.  \<open>Math.ceil(total / limit)\<close> is \<open>ceil_div\<close>; \<open>limit\<close> is never
  \<open>0\<close> (\<open>|| 10\<close>).
\<close>

definition newest_first :: "post list \<Rightarrow> post list" where
  "newest_first ps = rev (sort_key post_created ps)"

definition ceil_div :: "int \<Rightarrow> int \<Rightarrow> int" where
  "ceil_div a b = - ((- a) div b)"

definition query_posts_page :: "post list \<Rightarrow> int \<Rightarrow> int \<Rightarrow> listing option" where
  "query_posts_page ps page limit =
     (let start = (page - 1) * limit
      in if start < 0 then None
         else Some \<lparr>lst_posts = take (nat \<bar>limit\<bar>) (drop (nat start) (newest_first ps)),
                    lst_page = page,
                    lst_total_pages = ceil_div (int (length ps)) limit,
                    lst_total = length ps\<rparr>)"

definition find_post :: "post list \<Rightarrow> nat \<Rightarrow> post option" where
  "find_post ps oid = find (\<lambda>p. post_oid p = oid) ps"

text \<open>
  \<open>mediaIds\<close> elements are cast to the schema's strings by Mongoose: strings stay,
  numbers and Booleans are printed, anything else makes \<open>save()\<close> fail.
\<close>

definition cast_media_item :: "jval \<Rightarrow> media_id option" where
  "cast_media_item v =
     (case v of JStr s \<Rightarrow> Some s | JNum n \<Rightarrow> Some (int_str n)
      | JBool b \<Rightarrow> Some (if b then ''true'' else ''false'') | _ \<Rightarrow> None)"

definition cast_media :: "jval list \<Rightarrow> media_id list option" where
  "cast_media vs = those (map cast_media_item vs)"

section \<open>The controllers\<close>

definition server_error :: "string \<Rightarrow> response" where
  "server_error m = (500, Msg False m)"

definition cval_body :: "cval \<Rightarrow> body" where
  "cval_body v = (case v of CListing l \<Rightarrow> ListingBody l | CPost p \<Rightarrow> PostBody p)"

text \<open>
  \<open>createPostController\<close> (lines 16--59): validate, save, publish \<open>post.created\<close>,
  invalidate, answer 201.  The save commits before the publish; an exception of the
  publish or of the invalidation is caught by the same \<open>catch\<close> and answered 500.
\<close>

definition create_post ::
  "env \<Rightarrow> user_id \<Rightarrow> (string \<times> jval) list \<Rightarrow> post_service \<Rightarrow> broker \<Rightarrow>
   post_service \<times> broker \<times> response" where
  "create_post e u obj s b =
     (case validate_create_post obj of
        Some err \<Rightarrow> (s, b, (400, Invalid err))
      | None \<Rightarrow>
          (let c = (case jlookup obj ''content'' of Some (JStr c) \<Rightarrow> c | _ \<Rightarrow> []);
               ms = (case jlookup obj ''mediaIds'' of Some (JArr vs) \<Rightarrow> vs | _ \<Rightarrow> [])
           in case cast_media ms of
                None \<Rightarrow> (s, b, server_error ''Error creating post'')
              | Some media \<Rightarrow>
                  if \<not> mongo_up e then (s, b, server_error ''Error creating post'')
                  else
                    (let p = \<lparr>post_oid = next_oid s, post_user = u, post_content = c,
                              post_media = media, post_created = now e\<rparr>;
                         s1 = s\<lparr>posts := posts s @ [p], next_oid := Suc (next_oid s)\<rparr>;
                         (c2, b2, r) = publish_event (broker_answer e) ''post.created''
                                         (PostCreated (oid_str (post_oid p)) u c (now e)) (amqp s1) b;
                         s2 = s1\<lparr>amqp := c2\<rparr>
                     in case r of
                          Inl _ \<Rightarrow> (s2, b2, server_error ''Error creating post'')
                        | Inr _ \<Rightarrow>
                            (case invalidate_post_cache (redis_up e) (oid_str (post_oid p)) (cache s2) of
                               Inl _ \<Rightarrow> (s2, b2, server_error ''Error creating post'')
                             | Inr r2 \<Rightarrow> (s2\<lparr>cache := r2\<rparr>, b2, (201, Msg True ''Post created successfully''))))))"

text \<open>
  \<open>getAllPostController\<close> (lines 61--100): a cache hit is answered as stored; a miss
  queries MongoDB, stores the result for 300 seconds and answers it.
\<close>

definition get_all_posts ::
  "env \<Rightarrow> string option \<Rightarrow> string option \<Rightarrow> post_service \<Rightarrow> post_service \<times> response" where
  "get_all_posts e qpage qlimit s =
     (let page = query_int qpage 1; limit = query_int qlimit 10; key = posts_key page limit
      in case redis_get (redis_up e) (cache s) key of
           Inl _ \<Rightarrow> (s, server_error ''Error fetching all post'')
         | Inr (Some v) \<Rightarrow> (s, (200, cval_body v))
         | Inr None \<Rightarrow>
             (if \<not> mongo_up e then (s, server_error ''Error fetching all post'')
              else case query_posts_page (posts s) page limit of
                     None \<Rightarrow> (s, server_error ''Error fetching all post'')
                   | Some l \<Rightarrow>
                       (case redis_setex (redis_up e) key 300 (CListing l) (cache s) of
                          Inl _ \<Rightarrow> (s, server_error ''Error fetching all post'')
                        | Inr r \<Rightarrow> (s\<lparr>cache := r\<rparr>, (200, ListingBody l)))))"

text \<open>
  \<open>getPostController\<close> (lines 102--131).  \<open>Post.findById\<close> raises a \<open>CastError\<close>
  on a malformed id (answered 500); the result is stored under \<open>null_key\<close>.
\<close>

definition get_post :: "env \<Rightarrow> string \<Rightarrow> post_service \<Rightarrow> post_service \<times> response" where
  "get_post e pid s =
     (case redis_get (redis_up e) (cache s) (post_key pid) of
        Inl _ \<Rightarrow> (s, server_error ''Error fetching post by ID'')
      | Inr (Some v) \<Rightarrow> (s, (200, cval_body v))
      | Inr None \<Rightarrow>
          (if \<not> mongo_up e then (s, server_error ''Error fetching post by ID'')
           else case cast_oid pid of
                  None \<Rightarrow> (s, server_error ''Error fetching post by ID'')
                | Some oid \<Rightarrow>
                    (case find_post (posts s) oid of
                       None \<Rightarrow> (s, (404, Msg False ''Post not found''))
                     | Some p \<Rightarrow>
                         (case redis_setex (redis_up e) null_key 3600 (CPost p) (cache s) of
                            Inl _ \<Rightarrow> (s, server_error ''Error fetching post by ID'')
                          | Inr r \<Rightarrow> (s\<lparr>cache := r\<rparr>, (200, PostBody p))))))"

text \<open>
  \<open>deletePostController\<close> (lines 133--169).  \<open>findByIdAndDelete\<close> is given the
  object \<open>{_id, user}\<close> as the id; Mongoose casts an object with an \<open>_id\<close> field to
  that \<open>_id\<close>, so the filter is on the id alone and \<open>user\<close> plays no part.  The
  \<open>post.deleted\<close> event carries the requester's id as \<open>userId\<close>.
\<close>

definition delete_post ::
  "env \<Rightarrow> user_id \<Rightarrow> string \<Rightarrow> post_service \<Rightarrow> broker \<Rightarrow> post_service \<times> broker \<times> response" where
  "delete_post e u pid s b =
     (if \<not> mongo_up e then (s, b, server_error ''Error deleting post by ID'')
      else case cast_oid pid of
             None \<Rightarrow> (s, b, server_error ''Error deleting post by ID'')
           | Some oid \<Rightarrow>
               (case find_post (posts s) oid of
                  None \<Rightarrow> (s, b, (404, Msg False ''Post not found''))
                | Some p \<Rightarrow>
                    (let s1 = s\<lparr>posts := filter (\<lambda>q. post_oid q \<noteq> oid) (posts s)\<rparr>;
                         (c2, b2, r) = publish_event (broker_answer e) ''post.deleted''
                                         (PostDeleted (oid_str (post_oid p)) u (post_media p)) (amqp s1) b;
                         s2 = s1\<lparr>amqp := c2\<rparr>
                     in case r of
                          Inl _ \<Rightarrow> (s2, b2, server_error ''Error deleting post by ID'')
                        | Inr _ \<Rightarrow>
                            (case invalidate_post_cache (redis_up e) pid (cache s2) of
                               Inl _ \<Rightarrow> (s2, b2, server_error ''Error deleting post by ID'')
                             | Inr r2 \<Rightarrow> (s2\<lparr>cache := r2\<rparr>, b2, (200, Msg True ''Post deleted successfully''))))))"

text \<open>
  The listing read as the specification asks for it with the cache switched off
  (spec, section 8, cache transparency): MongoDB answers every request.
\<close>

definition get_all_posts_direct :: "env \<Rightarrow> string option \<Rightarrow> string option \<Rightarrow> post list \<Rightarrow> response" where
  "get_all_posts_direct e qpage qlimit ps =
     (if \<not> mongo_up e then server_error ''Error fetching all post''
      else case query_posts_page ps (query_int qpage 1) (query_int qlimit 10) of
             None \<Rightarrow> server_error ''Error fetching all post''
           | Some l \<Rightarrow> (200, ListingBody l))"

text \<open>
  The write path of the spec (section 4.4), \<open>invalidate(entityId)\<close>: delete the
  singular key and every collection key.
\<close>

definition invalidate_spec :: "string \<Rightarrow> 'v redis_store \<Rightarrow> 'v redis_store" where
  "invalidate_spec x r = filter (\<lambda>(k, _). k \<noteq> post_key x \<and> take 6 k \<noteq> ''posts:'') r"

section \<open>Invariants of the post service\<close>

text \<open>
  Well-formedness: ObjectIds are unique and below the generator, and the cache has
  distinct keys.
\<close>

definition post_wf :: "post_service \<Rightarrow> bool" where
  "post_wf s \<longleftrightarrow> distinct (map post_oid (posts s)) \<and> (\<forall>p\<in>set (posts s). post_oid p < next_oid s)
     \<and> redis_wf (cache s)"

text \<open>
  Coherence of the cache with the primary store: an entry under a listing key holds
  exactly the page the query would return now, and no entry sits under a single-post
  key.
\<close>

definition entry_coherent :: "post list \<Rightarrow> string \<Rightarrow> cval \<Rightarrow> bool" where
  "entry_coherent ps k v =
     (case parse_posts_key k of
        Some (page, limit) \<Rightarrow>
          (case v of CListing l \<Rightarrow> query_posts_page ps page limit = Some l | CPost _ \<Rightarrow> False)
      | None \<Rightarrow> take 5 k \<noteq> ''post:'')"

definition cache_coherent :: "post_service \<Rightarrow> bool" where
  "cache_coherent s \<longleftrightarrow> (\<forall>(k, v, _) \<in> set (cache s). entry_coherent (posts s) k v)"

section \<open>Concrete states used by the witnesses\<close>

definition demo_env :: "conn_outcome \<Rightarrow> env" where
  "demo_env out = \<lparr>mongo_up = True, redis_up = True, broker_answer = out, now = 7\<rparr>"

definition demo_listing :: listing where
  "demo_listing = \<lparr>lst_posts = [], lst_page = 1, lst_total_pages = 0, lst_total = 0\<rparr>"

text \<open>An empty collection whose first listing page is cached (\<open>posts:1:10\<close>).\<close>

definition demo_service :: post_service where
  "demo_service = \<lparr>posts = [], cache = [(''posts:1:10'', CListing demo_listing, 300)],
     amqp = client_init, next_oid = 0\<rparr>"

definition demo_broker :: broker where
  "demo_broker = \<lparr>exchange_declared = True,
     queues = [\<lparr>q_name = ''search'', q_bindings = [''post.created'', ''post.deleted''], q_msgs = []\<rparr>]\<rparr>"

definition demo_body :: "(string \<times> jval) list" where
  "demo_body = [(''content'', JStr ''hello world'')]"

text \<open>A post of the demo collections.\<close>

definition demo_post0 :: post where
  "demo_post0 = \<lparr>post_oid = 0, post_user = ''u1'', post_content = ''abc'', post_media = [], post_created = 1\<rparr>"

section \<open>Cache keys and invalidation: lemmas\<close>

lemma canon_int_int_str [js_simps]: "canon_int (int_str i) = Some i"
  by (simp add: canon_int_def parse_int_int_str)

lemma parse_posts_key_posts_key [js_simps]: "parse_posts_key (posts_key p l) = Some (p, l)"
proof -
  let ?rest = "int_str p @ CHR '':'' # int_str l"
  have tw: "takeWhile (\<lambda>c. c \<noteq> CHR '':'') ?rest = int_str p"
  proof -
    have "\<forall>c\<in>set (int_str p). c \<noteq> CHR '':''" using int_str_no_colon [of p] by blast
    then show ?thesis by (simp add: takeWhile_append2)
  qed
  have k: "posts_key p l = ''posts:'' @ ?rest" by (simp add: posts_key_def)
  have "take 6 (posts_key p l) = ''posts:''" "drop 6 (posts_key p l) = ?rest"
    unfolding k by simp_all
  then show ?thesis using tw by (simp add: parse_posts_key_def Let_def canon_int_int_str)
qed

lemma posts_key_prefix: "take 6 (posts_key p l) = ''posts:''"
  by (simp add: posts_key_def)

lemma post_key_prefix: "take 5 (post_key x) = ''post:''"
  by (simp add: post_key_def)

lemma parse_posts_key_prefix: "parse_posts_key k = Some pl \<Longrightarrow> take 6 k = ''posts:''"
  by (simp add: parse_posts_key_def split: if_splits)

lemma post_key_not_posts: "take 6 (post_key x) \<noteq> ''posts:''"
  by (simp add: post_key_def)

lemma invalidate_post_cache_eq:
  "invalidate_post_cache True x r =
     Inr (fold AList.delete (filter (glob ''posts:*'') (map fst (AList.delete (post_key x) r)))
            (AList.delete (post_key x) r))"
proof -
  define r1 where "r1 = AList.delete (post_key x) r"
  define ks where "ks = filter (glob ''posts:*'') (map fst r1)"
  have d: "redis_del True [post_key x] r = Inr r1" by (simp add: redis_del_def r1_def)
  have k: "redis_keys True ''posts:*'' r1 = Inr ks" by (simp add: redis_keys_def ks_def)
  have "invalidate_post_cache True x r = Inr (fold AList.delete ks r1)"
    using d k by (cases ks) (simp_all add: invalidate_post_cache_def redis_del_def)
  then show ?thesis by (simp only: r1_def ks_def)
qed

lemma invalidate_post_cache_total:
  "\<exists>r'. invalidate_post_cache True x r = Inr r'"
  by (simp add: invalidate_post_cache_eq)

lemma invalidate_post_cache_down: "invalidate_post_cache False x r = Inl RedisUnavailable"
  by (simp add: invalidate_post_cache_def redis_del_def)
section \<open>Coherence of the cache\<close>

lemma redis_lookup_SomeD: "redis_lookup r k = Some v \<Longrightarrow> \<exists>t. (k, v, t) \<in> set r"
  by (auto simp: redis_lookup_def dest: map_of_SomeD)

lemma cache_coherent_lookup:
  "cache_coherent s \<Longrightarrow> redis_lookup (cache s) k = Some v \<Longrightarrow> entry_coherent (posts s) k v"
  by (auto simp: cache_coherent_def dest!: redis_lookup_SomeD)

lemma entry_coherent_posts_key:
  "entry_coherent ps (posts_key p l) v \<longleftrightarrow> (\<exists>li. v = CListing li \<and> query_posts_page ps p l = Some li)"
  by (auto simp: entry_coherent_def parse_posts_key_posts_key split: cval.splits)

lemma cache_coherent_update:
  "cache_coherent s \<Longrightarrow> entry_coherent (posts s) k v \<Longrightarrow>
   cache_coherent (s\<lparr>cache := AList.update k (v, t) (cache s)\<rparr>)"
  unfolding cache_coherent_def by (fastforce dest: in_set_update)

lemma entry_coherent_null_key: "entry_coherent ps null_key v"
  by (simp add: entry_coherent_def parse_posts_key_def null_key_def)

lemma entry_coherent_unparsed:
  "parse_posts_key k = None \<Longrightarrow> entry_coherent ps k v = entry_coherent ps' k v"
  by (simp add: entry_coherent_def)

lemma cache_coherent_invalidate:
  assumes "cache_coherent s" and "invalidate_post_cache True x (cache s) = Inr (cache s')"
  shows "cache_coherent s'"
  unfolding cache_coherent_def
proof (clarsimp)
  fix k v t
  assume kv: "(k, v, t) \<in> set (cache s')"
  let ?r1 = "AList.delete (post_key x) (cache s)"
  from assms(2) have eq: "cache s' = fold AList.delete (filter (glob ''posts:*'') (map fst ?r1)) ?r1"
    by (simp add: invalidate_post_cache_eq)
  from kv have "(k, v, t) \<in> set (fold AList.delete (filter (glob ''posts:*'') (map fst ?r1)) ?r1)"
    by (simp only: eq)
  then have r1: "(k, v, t) \<in> set ?r1" and nk: "k \<notin> set (filter (glob ''posts:*'') (map fst ?r1))"
    unfolding in_set_fold_delete fst_conv by blast+
  from r1 have old: "(k, v, t) \<in> set (cache s)" by (simp add: in_set_delete)
  from r1 have "k \<in> set (map fst ?r1)" by force
  with nk have np: "\<not> glob ''posts:*'' k" by simp
  then have "parse_posts_key k = None"
    by (cases "parse_posts_key k") (auto dest: parse_posts_key_prefix simp: glob_posts_star)
  moreover from old assms(1) have "entry_coherent (posts s) k v"
    by (auto simp: cache_coherent_def)
  ultimately show "entry_coherent (posts s') k v" by (simp add: entry_coherent_def)
qed

lemma get_all_posts_coherent:
  "cache_coherent s \<Longrightarrow> cache_coherent (fst (get_all_posts e qp ql s))"
  by (auto simp: get_all_posts_def Let_def redis_setex_def entry_coherent_posts_key
      intro!: cache_coherent_update split: sum.splits option.splits)

lemma get_post_coherent:
  "cache_coherent s \<Longrightarrow> cache_coherent (fst (get_post e pid s))"
  by (auto simp: get_post_def redis_setex_def entry_coherent_null_key
      intro!: cache_coherent_update split: sum.splits option.splits)

lemma create_post_coherent:
  "create_post e u obj s b = (s', b', st, bd) \<Longrightarrow> st \<noteq> 500 \<Longrightarrow> cache_coherent s \<Longrightarrow> cache_coherent s'"
  by (cases "redis_up e")
    (auto simp: create_post_def Let_def server_error_def invalidate_post_cache_down
      split: option.splits sum.splits prod.splits if_splits
      intro: cache_coherent_invalidate)

lemma delete_post_coherent:
  "delete_post e u pid s b = (s', b', st, bd) \<Longrightarrow> st \<noteq> 500 \<Longrightarrow> cache_coherent s \<Longrightarrow> cache_coherent s'"
  by (cases "redis_up e")
    (auto simp: delete_post_def Let_def server_error_def invalidate_post_cache_down
      split: option.splits sum.splits prod.splits if_splits
      intro: cache_coherent_invalidate)

text \<open>
  With an open channel to a declared exchange and Redis reachable, a write either
  changes nothing or commits, publishes its event and invalidates the cache.
\<close>

lemma create_post_reliable:
  assumes "channel (amqp s) = Some ChanOpen" and "exchange_declared b" and "redis_up e"
    and "create_post e u obj s b = (s', b', r)"
  shows "s' = s \<and> b' = b \<or>
    (\<exists>c media. jlookup obj ''content'' = Some (JStr c) \<and> 3 \<le> length c \<and> length c \<le> 5000 \<and>
       posts s' = posts s @ [\<lparr>post_oid = next_oid s, post_user = u, post_content = c,
                                post_media = media, post_created = now e\<rparr>] \<and>
       next_oid s' = Suc (next_oid s) \<and> amqp s' = amqp s \<and>
       b' = b\<lparr>queues := route \<lparr>msg_key = ''post.created'',
                 msg_event = PostCreated (oid_str (next_oid s)) u c (now e)\<rparr> (queues b)\<rparr> \<and>
       invalidate_post_cache True (oid_str (next_oid s)) (cache s) = Inr (cache s'))"
  using assms invalidate_post_cache_total [of "oid_str (next_oid s)" "cache s"]
  by (auto simp: create_post_def Let_def publish_event_open validate_create_post_def content_check_def
      split: option.splits sum.splits prod.splits if_splits jval.splits)

lemma delete_post_reliable:
  assumes "channel (amqp s) = Some ChanOpen" and "exchange_declared b" and "redis_up e"
    and "delete_post e u pid s b = (s', b', r)"
  shows "s' = s \<and> b' = b \<or>
    (\<exists>oid p. cast_oid pid = Some oid \<and> find_post (posts s) oid = Some p \<and>
       posts s' = filter (\<lambda>q. post_oid q \<noteq> oid) (posts s) \<and> next_oid s' = next_oid s \<and>
       amqp s' = amqp s \<and>
       b' = b\<lparr>queues := route \<lparr>msg_key = ''post.deleted'',
                 msg_event = PostDeleted (oid_str (post_oid p)) u (post_media p)\<rparr> (queues b)\<rparr> \<and>
       invalidate_post_cache True pid (cache s) = Inr (cache s'))"
  using assms invalidate_post_cache_total [of pid "cache s"]
  by (auto simp: delete_post_def Let_def publish_event_open split: option.splits sum.splits prod.splits if_splits)

text \<open>Reads and evictions change the cache only.\<close>

lemma find_post_SomeD: "find_post ps oid = Some p \<Longrightarrow> post_oid p = oid \<and> p \<in> set ps"
  by (auto simp: find_post_def find_Some_iff)

lemma redis_wf_invalidate: "redis_wf r \<Longrightarrow> invalidate_post_cache True x r = Inr r' \<Longrightarrow> redis_wf r'"
  by (auto simp: invalidate_post_cache_eq redis_wf_def distinct_delete intro!: distinct_fold_delete)

lemma get_all_posts_keeps:
  "posts (fst (get_all_posts e qp ql s)) = posts s \<and> amqp (fst (get_all_posts e qp ql s)) = amqp s \<and>
   (post_wf s \<longrightarrow> post_wf (fst (get_all_posts e qp ql s)))"
  by (auto simp: get_all_posts_def Let_def redis_setex_def post_wf_def redis_wf_update
      split: sum.splits option.splits)

lemma get_post_keeps:
  "posts (fst (get_post e pid s)) = posts s \<and> amqp (fst (get_post e pid s)) = amqp s \<and>
   (post_wf s \<longrightarrow> post_wf (fst (get_post e pid s)))"
  by (auto simp: get_post_def redis_setex_def post_wf_def redis_wf_update
      split: sum.splits option.splits)

lemma cache_coherent_evict:
  "cache_coherent s \<Longrightarrow> cache_coherent (s\<lparr>cache := redis_evict k (cache s)\<rparr>)"
  by (auto simp: cache_coherent_def redis_evict_def in_set_delete)

lemma create_post_rejected:
  "validate_create_post obj = Some err \<Longrightarrow> create_post e u obj s b = (s, b, 400, Invalid err)"
  by (simp add: create_post_def)

lemma publish_event_fails:
  "channel c = Some ChanClosed \<or> channel c = None \<and> out \<noteq> ConnAccepted \<Longrightarrow>
   \<exists>c' err. publish_event out rk ev c b = (c', b, Inl err)"
  by (cases out) (auto simp: publish_event_def connect_to_rabbitmq_def)

lemma query_posts_page_total:
  "query_posts_page ps p l = Some li \<Longrightarrow>
   lst_total li = length ps \<and> (\<exists>li'. query_posts_page ps' p l = Some li' \<and> lst_total li' = length ps')"
  by (auto simp: query_posts_page_def Let_def split: if_splits)

lemma stale_listing:
  assumes coh: "cache_coherent s" and hit: "redis_lookup (cache s) (posts_key (query_int qp 1) (query_int ql 10)) \<noteq> None"
    and c: "cache s' = cache s" and p: "posts s' = posts s @ [q]" and up: "redis_up e" "mongo_up e"
  shows "snd (get_all_posts e qp ql s') = get_all_posts_direct e qp ql (posts s) \<and>
         snd (get_all_posts e qp ql s') \<noteq> get_all_posts_direct e qp ql (posts s')"
proof -
  let ?k = "posts_key (query_int qp 1) (query_int ql 10)"
  obtain v where v: "redis_lookup (cache s) ?k = Some v" using hit by blast
  obtain li where li: "v = CListing li" "query_posts_page (posts s) (query_int qp 1) (query_int ql 10) = Some li"
    using cache_coherent_lookup [OF coh v] by (auto simp: entry_coherent_posts_key)
  obtain li' where li': "query_posts_page (posts s') (query_int qp 1) (query_int ql 10) = Some li'"
    "lst_total li' = length (posts s')" "lst_total li = length (posts s)"
    using query_posts_page_total [OF li(2), of "posts s'"] by blast
  have "li \<noteq> li'" using li'(2,3) p by auto
  then show ?thesis
    using v li li' up c by (simp add: get_all_posts_def get_all_posts_direct_def redis_get_def cval_body_def)
qed

section \<open>Properties of the post service\<close>

lemmas demo_defs = demo_env_def demo_listing_def demo_service_def demo_broker_def demo_body_def

lemma demo_service_coherent: "cache_coherent demo_service"
  by (simp add: demo_defs cache_coherent_def entry_coherent_def parse_posts_key_def canon_int_def
      parse_int_def Let_def js_space_def dec_val_def digits_value_def int_str_def nat_str_def
      nat_digits.simps digit_char_def query_posts_page_def ceil_div_def newest_first_def)

lemma posts_key_first_page: "posts_key 1 10 = ''posts:1:10''"
  by code_simp

lemma demo_body_ok:
  "validate_create_post demo_body = None" "jlookup demo_body ''content'' = Some (JStr ''hello world'')"
  "cast_media (case jlookup demo_body ''mediaIds'' of Some (JArr vs) \<Rightarrow> vs | _ \<Rightarrow> []) = Some []"
  by (simp_all add: demo_body_def validate_create_post_def content_check_def media_check_def
      unknown_check_def jlookup_def cast_media_def)

lemma demo_service_hit: "redis_lookup (cache demo_service) (posts_key (query_int None 1) (query_int None 10)) \<noteq> None"
  by (simp add: query_int_def posts_key_first_page demo_service_def redis_lookup_def)

text \<open>
  Cache transparency for one request (spec, section 8): with a coherent cache and both
  stores reachable, \<open>getAllPostController\<close> answers what it would answer with the
  cache switched off.  The system theory shows the premise holds in every reachable
  state.
\<close>

lemma get_all_posts_transparent:
  assumes "cache_coherent s" and "redis_up e" and "mongo_up e"
  shows "snd (get_all_posts e qp ql s) = get_all_posts_direct e qp ql (posts s)"
proof (cases "redis_lookup (cache s) (posts_key (query_int qp 1) (query_int ql 10))")
  case None
  with assms(2,3) show ?thesis
    by (auto simp: get_all_posts_def get_all_posts_direct_def redis_get_def redis_setex_def
        split: option.splits)
next
  case (Some v)
  from cache_coherent_lookup [OF assms(1) Some] obtain li where
    "v = CListing li" "query_posts_page (posts s) (query_int qp 1) (query_int ql 10) = Some li"
    by (auto simp: entry_coherent_posts_key)
  with Some assms(2,3) show ?thesis
    by (simp add: get_all_posts_def get_all_posts_direct_def redis_get_def cval_body_def)
qed

text \<open>
  C5: a failed publish leaves the cache stale.  Whatever the state, when the
  channel is closed, or is \<open>null\<close> and the broker refuses the new connection,
  \<open>createPostController\<close> has already saved the post, answers 500, changes
  nothing on the broker and skips \<open>invalidatePostCache\<close>.  Every listing page cached
  before the write is then served as it was: the answer is the page of the collection
  before the write, which differs from the page MongoDB now returns (read-your-writes
  and the spec's "publish failures do not fail writes" both fail).
\<close>

theorem failed_publish_stale_read:
  assumes fail: "channel (amqp s) = Some ChanClosed \<or> channel (amqp s) = None \<and> broker_answer e \<noteq> ConnAccepted"
    and up: "mongo_up e" "redis_up e" and ok: "validate_create_post obj = None"
    and c: "jlookup obj ''content'' = Some (JStr c)"
    and m: "cast_media (case jlookup obj ''mediaIds'' of Some (JArr vs) \<Rightarrow> vs | _ \<Rightarrow> []) = Some media"
    and coh: "cache_coherent s"
    and hit: "redis_lookup (cache s) (posts_key (query_int qp 1) (query_int ql 10)) \<noteq> None"
    and w: "create_post e u obj s b = (s', b', r)"
  shows "r = server_error ''Error creating post'' \<and> b' = b \<and>
         posts s' = posts s @ [\<lparr>post_oid = next_oid s, post_user = u, post_content = c,
                                 post_media = media, post_created = now e\<rparr>] \<and>
         snd (get_all_posts e qp ql s') = get_all_posts_direct e qp ql (posts s) \<and>
         snd (get_all_posts e qp ql s') \<noteq> get_all_posts_direct e qp ql (posts s')"
proof -
  obtain c' err where pub: "publish_event (broker_answer e) ''post.created''
      (PostCreated (oid_str (next_oid s)) u c (now e)) (amqp s) b = (c', b, Inl err)"
    using publish_event_fails [OF fail] by blast
  have s': "s' = s\<lparr>posts := posts s @ [\<lparr>post_oid = next_oid s, post_user = u, post_content = c,
                                 post_media = media, post_created = now e\<rparr>], next_oid := Suc (next_oid s), amqp := c'\<rparr>"
    and rb: "r = server_error ''Error creating post''" "b' = b"
    using w ok c m up pub by (simp_all add: create_post_def Let_def)
  have cp: "cache s' = cache s" "posts s' = posts s @ [\<lparr>post_oid = next_oid s, post_user = u, post_content = c,
                                 post_media = media, post_created = now e\<rparr>]"
    by (simp_all add: s')
  show ?thesis
    using stale_listing [OF coh hit cp up(2,1)] rb cp(2) by blast
qed

theorem failed_publish_stale_read_witness:
  "fst (snd (create_post (demo_env ConnRefused) ''u1'' demo_body demo_service demo_broker)) = demo_broker \<and>
   snd (get_all_posts (demo_env ConnRefused) None None
          (fst (create_post (demo_env ConnRefused) ''u1'' demo_body demo_service demo_broker))) =
     get_all_posts_direct (demo_env ConnRefused) None None (posts demo_service) \<and>
   snd (get_all_posts (demo_env ConnRefused) None None
          (fst (create_post (demo_env ConnRefused) ''u1'' demo_body demo_service demo_broker))) \<noteq>
     get_all_posts_direct (demo_env ConnRefused) None None
       (posts (fst (create_post (demo_env ConnRefused) ''u1'' demo_body demo_service demo_broker)))"
proof -
  obtain s' b' r where w: "create_post (demo_env ConnRefused) ''u1'' demo_body demo_service demo_broker = (s', b', r)"
    by (metis prod_cases3)
  have f: "channel (amqp demo_service) = Some ChanClosed \<or>
           channel (amqp demo_service) = None \<and> broker_answer (demo_env ConnRefused) \<noteq> ConnAccepted"
    and up: "mongo_up (demo_env ConnRefused)" "redis_up (demo_env ConnRefused)"
    by (simp_all add: demo_service_def client_init_def demo_env_def)
  note t = failed_publish_stale_read [OF f up demo_body_ok demo_service_coherent demo_service_hit w]
  show ?thesis unfolding w fst_conv snd_conv using t by blast
qed

text \<open>
  C7: a Redis outage during a write leaves a stale page.  With the channel open but
  Redis unreachable, \<open>createPostController\<close> saves the post and publishes its
  event, then fails in \<open>invalidatePostCache\<close> and answers 500.  Every listing page
  cached before the write survives it, and once Redis is back it is served as it was,
  although MongoDB's page now differs.
\<close>

theorem redis_outage_stale_listing:
  assumes ch: "channel (amqp s) = Some ChanOpen" "exchange_declared b" and dn: "mongo_up e" "\<not> redis_up e"
    and ok: "validate_create_post obj = None"
    and c: "jlookup obj ''content'' = Some (JStr c)"
    and m: "cast_media (case jlookup obj ''mediaIds'' of Some (JArr vs) \<Rightarrow> vs | _ \<Rightarrow> []) = Some media"
    and coh: "cache_coherent s"
    and hit: "redis_lookup (cache s) (posts_key (query_int qp 1) (query_int ql 10)) \<noteq> None"
    and up: "redis_up e'" "mongo_up e'"
    and w: "create_post e u obj s b = (s', b', r)"
  shows "r = server_error ''Error creating post'' \<and>
         b' = b\<lparr>queues := route \<lparr>msg_key = ''post.created'',
                   msg_event = PostCreated (oid_str (next_oid s)) u c (now e)\<rparr> (queues b)\<rparr> \<and>
         posts s' = posts s @ [\<lparr>post_oid = next_oid s, post_user = u, post_content = c,
                                 post_media = media, post_created = now e\<rparr>] \<and>
         snd (get_all_posts e' qp ql s') = get_all_posts_direct e' qp ql (posts s) \<and>
         snd (get_all_posts e' qp ql s') \<noteq> get_all_posts_direct e' qp ql (posts s')"
proof -
  have s': "s' = s\<lparr>posts := posts s @ [\<lparr>post_oid = next_oid s, post_user = u, post_content = c,
                                 post_media = media, post_created = now e\<rparr>], next_oid := Suc (next_oid s)\<rparr>"
    and rb: "r = server_error ''Error creating post''"
      "b' = b\<lparr>queues := route \<lparr>msg_key = ''post.created'',
                   msg_event = PostCreated (oid_str (next_oid s)) u c (now e)\<rparr> (queues b)\<rparr>"
    using w ok c m dn ch by (simp_all add: create_post_def Let_def publish_event_open invalidate_post_cache_down)
  have cp: "cache s' = cache s" "posts s' = posts s @ [\<lparr>post_oid = next_oid s, post_user = u, post_content = c,
                                 post_media = media, post_created = now e\<rparr>]"
    by (simp_all add: s')
  show ?thesis
    using stale_listing [OF coh hit cp up] rb cp(2) by blast
qed

theorem redis_outage_stale_listing_witness:
  "snd (get_all_posts (demo_env ConnAccepted) None None
      (fst (create_post ((demo_env ConnAccepted)\<lparr>redis_up := False\<rparr>) ''u1'' demo_body
         (demo_service\<lparr>amqp := \<lparr>connection = True, channel = Some ChanOpen\<rparr>\<rparr>) demo_broker))) =
     get_all_posts_direct (demo_env ConnAccepted) None None
       (posts (demo_service\<lparr>amqp := \<lparr>connection = True, channel = Some ChanOpen\<rparr>\<rparr>)) \<and>
   snd (get_all_posts (demo_env ConnAccepted) None None
      (fst (create_post ((demo_env ConnAccepted)\<lparr>redis_up := False\<rparr>) ''u1'' demo_body
         (demo_service\<lparr>amqp := \<lparr>connection = True, channel = Some ChanOpen\<rparr>\<rparr>) demo_broker))) \<noteq>
     get_all_posts_direct (demo_env ConnAccepted) None None
       (posts (fst (create_post ((demo_env ConnAccepted)\<lparr>redis_up := False\<rparr>) ''u1'' demo_body
         (demo_service\<lparr>amqp := \<lparr>connection = True, channel = Some ChanOpen\<rparr>\<rparr>) demo_broker)))"
proof -
  let ?s = "demo_service\<lparr>amqp := \<lparr>connection = True, channel = Some ChanOpen\<rparr>\<rparr>"
  let ?e = "(demo_env ConnAccepted)\<lparr>redis_up := False\<rparr>"
  obtain s' b' r where w: "create_post ?e ''u1'' demo_body ?s demo_broker = (s', b', r)"
    by (metis prod_cases3)
  have h: "channel (amqp ?s) = Some ChanOpen" "exchange_declared demo_broker"
    "mongo_up ?e" "\<not> redis_up ?e"
    by (simp_all add: demo_broker_def demo_env_def)
  have coh: "cache_coherent ?s" using demo_service_coherent by (simp add: cache_coherent_def)
  have hit: "redis_lookup (cache ?s) (posts_key (query_int None 1) (query_int None 10)) \<noteq> None"
    using demo_service_hit by simp
  have up: "redis_up (demo_env ConnAccepted)" "mongo_up (demo_env ConnAccepted)"
    by (simp_all add: demo_env_def)
  note t = redis_outage_stale_listing [OF h demo_body_ok coh hit up w]
  show ?thesis unfolding w fst_conv snd_conv using t by blast
qed

text \<open>
  C22: a successful \<open>createPostController\<close> (status 201) appended exactly one post,
  built from the validated body (content of 3 to 5000 characters), the requester, the
  clock and the next ObjectId.
\<close>

theorem create_post_created:
  assumes "create_post e u obj s b = (s', b', 201, bd)"
  shows "\<exists>c media. jlookup obj ''content'' = Some (JStr c) \<and> 3 \<le> length c \<and> length c \<le> 5000 \<and>
           posts s' = posts s @ [\<lparr>post_oid = next_oid s, post_user = u, post_content = c,
                                   post_media = media, post_created = now e\<rparr>] \<and>
           next_oid s' = Suc (next_oid s)"
  using assms
  by (auto simp: create_post_def Let_def server_error_def validate_create_post_def content_check_def
      split: option.splits sum.splits prod.splits if_splits jval.splits)

theorem create_post_created_witness:
  "create_post (demo_env ConnAccepted) ''u1'' demo_body demo_service demo_broker =
     (fst (create_post (demo_env ConnAccepted) ''u1'' demo_body demo_service demo_broker),
      fst (snd (create_post (demo_env ConnAccepted) ''u1'' demo_body demo_service demo_broker)), 201,
      Msg True ''Post created successfully'') \<and>
   (\<exists>c media. jlookup demo_body ''content'' = Some (JStr c) \<and> 3 \<le> length c \<and> length c \<le> 5000 \<and>
      posts (fst (create_post (demo_env ConnAccepted) ''u1'' demo_body demo_service demo_broker)) =
        [\<lparr>post_oid = 0, post_user = ''u1'', post_content = c, post_media = media, post_created = 7\<rparr>] \<and>
      next_oid (fst (create_post (demo_env ConnAccepted) ''u1'' demo_body demo_service demo_broker)) = 1)"
proof -
  have run: "create_post (demo_env ConnAccepted) ''u1'' demo_body demo_service demo_broker =
     (fst (create_post (demo_env ConnAccepted) ''u1'' demo_body demo_service demo_broker),
      fst (snd (create_post (demo_env ConnAccepted) ''u1'' demo_body demo_service demo_broker)), 201,
      Msg True ''Post created successfully'')"
    by (simp add: create_post_def demo_defs validate_create_post_def content_check_def
        media_check_def unknown_check_def jlookup_def cast_media_def publish_event_def
        connect_to_rabbitmq_def client_init_def invalidate_post_cache_eq Let_def)
  show ?thesis
    using run create_post_created [OF run] by (simp add: demo_defs)
qed

text \<open>
  \<open>invalidatePostCache\<close> never fails while Redis is reachable (the
  \<open>keys.length > 0\<close> guard keeps \<open>DEL\<close> from being called with no key), and
  afterwards exactly the single-post key and every \<open>posts:*\<close> key are gone, every
  other key unchanged.
\<close>

theorem invalidate_post_cache_ok:
  "invalidate_post_cache True x r = Inr r' \<Longrightarrow>
   redis_lookup r' k = (if k = post_key x \<or> take 6 k = ''posts:'' then None else redis_lookup r k)"
  by (auto simp: invalidate_post_cache_eq redis_lookup_delete_matching redis_lookup_delete glob_posts_star)

theorem invalidate_post_cache_ok_witness:
  "invalidate_post_cache True ''abc'' (cache demo_service) = Inr [] \<and>
   redis_lookup [] ''posts:1:10'' =
     (if ''posts:1:10'' = post_key ''abc'' \<or> take 6 ''posts:1:10'' = ''posts:'' then None
      else redis_lookup (cache demo_service) ''posts:1:10'')"
proof -
  have h: "invalidate_post_cache True ''abc'' (cache demo_service) = Inr []"
    by (simp add: invalidate_post_cache_eq demo_service_def post_key_def glob_posts_star)
  show ?thesis using h invalidate_post_cache_ok [OF h, of "''posts:1:10''"] by simp
qed

text \<open>
  C17: \<open>invalidatePostCache\<close> implements the spec's write-path invalidation.  With
  Redis reachable, its \<open>DEL\<close>, \<open>KEYS posts:*\<close> and second \<open>DEL\<close> leave exactly
  the store the spec's filter leaves, entry for entry and in order.
\<close>

theorem invalidate_post_cache_spec: "invalidate_post_cache True x r = Inr (invalidate_spec x r)"
proof -
  let ?r1 = "AList.delete (post_key x) r"
  have "fold AList.delete (filter (glob ''posts:*'') (map fst ?r1)) ?r1 = invalidate_spec x r"
    by (auto simp: fold_delete_filter AList.delete_eq invalidate_spec_def glob_posts_star split_def
        intro!: filter_cong)
  then show ?thesis by (simp add: invalidate_post_cache_eq)
qed

text \<open>
  The listing cache keys of distinct pages are distinct: \<open>posts:${page}:${limit}\<close>
  determines its page and limit, so no request is ever served another page's entry.
\<close>

theorem posts_key_inj: "posts_key p l = posts_key p' l' \<longleftrightarrow> p = p' \<and> l = l'"
  by (metis Pair_inject option.inject parse_posts_key_posts_key)

text \<open>
  C23: \<open>deletePostController\<close> does not check ownership.  Whatever the requester
  \<open>u\<close>, an existing post is removed from the collection: the \<open>user\<close> field of the
  filter object passed to \<open>findByIdAndDelete\<close> is dropped by the id cast.
\<close>

theorem delete_post_ignores_owner:
  assumes "mongo_up e" and "cast_oid pid = Some oid" and "find_post (posts s) oid = Some p"
  shows "posts (fst (delete_post e u pid s b)) = filter (\<lambda>q. post_oid q \<noteq> oid) (posts s)"
  using assms
  by (auto simp: delete_post_def Let_def split: prod.splits sum.splits)

theorem delete_post_ignores_owner_witness:
  "mongo_up (demo_env ConnAccepted) \<and> cast_oid (oid_str 0) = Some 0 \<and>
   find_post (posts (demo_service\<lparr>posts := [\<lparr>post_oid = 0, post_user = ''alice'', post_content = ''abc'',
     post_media = [], post_created = 1\<rparr>]\<rparr>)) 0 =
     Some \<lparr>post_oid = 0, post_user = ''alice'', post_content = ''abc'', post_media = [], post_created = 1\<rparr> \<and>
   posts (fst (delete_post (demo_env ConnAccepted) ''mallory'' (oid_str 0)
     (demo_service\<lparr>posts := [\<lparr>post_oid = 0, post_user = ''alice'', post_content = ''abc'',
       post_media = [], post_created = 1\<rparr>]\<rparr>) demo_broker)) = []"
proof -
  have m: "mongo_up (demo_env ConnAccepted)" by (simp add: demo_env_def)
  have c: "cast_oid (oid_str 0) = Some 0" by code_simp
  have f: "find_post (posts (demo_service\<lparr>posts := [\<lparr>post_oid = 0, post_user = ''alice'', post_content = ''abc'',
     post_media = [], post_created = 1\<rparr>]\<rparr>)) 0 =
     Some \<lparr>post_oid = 0, post_user = ''alice'', post_content = ''abc'', post_media = [], post_created = 1\<rparr>"
    by (simp add: find_post_def)
  show ?thesis using m c f delete_post_ignores_owner [OF m c f, of "''mallory''" demo_broker] by simp
qed

text \<open>
  C24: the single-post cache is never populated.  On a cache miss for an existing
  post, \<open>getPostController\<close> answers the post from MongoDB and stores it under
  \<open>cachedPost\<close>, which is \<open>null\<close> on that path (line 121), instead of under
  \<open>post:<id>\<close>: the key it reads stays empty, so every \<open>GET /:postId\<close> misses
  the cache and reads MongoDB again.
\<close>

theorem post_key_uncached:
  assumes "redis_up e" and "mongo_up e" and "redis_lookup (cache s) (post_key pid) = None"
    and "cast_oid pid = Some oid" and "find_post (posts s) oid = Some p"
  shows "get_post e pid s = (s\<lparr>cache := AList.update null_key (CPost p, 3600) (cache s)\<rparr>, (200, PostBody p)) \<and>
         redis_lookup (cache (fst (get_post e pid s))) (post_key pid) = None"
  using assms by (simp add: get_post_def redis_get_def redis_setex_def redis_lookup_update null_key_def post_key_def)

theorem post_key_uncached_witness:
  "get_post (demo_env ConnAccepted) (oid_str 0) (demo_service\<lparr>posts := [demo_post0]\<rparr>) =
     (demo_service\<lparr>posts := [demo_post0],
        cache := AList.update null_key (CPost demo_post0, 3600) (cache (demo_service\<lparr>posts := [demo_post0]\<rparr>))\<rparr>,
      (200, PostBody demo_post0)) \<and>
   redis_lookup (cache (fst (get_post (demo_env ConnAccepted) (oid_str 0) (demo_service\<lparr>posts := [demo_post0]\<rparr>))))
     (post_key (oid_str 0)) = None"
proof -
  have h: "redis_up (demo_env ConnAccepted)" "mongo_up (demo_env ConnAccepted)"
    "redis_lookup (cache (demo_service\<lparr>posts := [demo_post0]\<rparr>)) (post_key (oid_str 0)) = None"
    "cast_oid (oid_str 0) = Some 0" "find_post (posts (demo_service\<lparr>posts := [demo_post0]\<rparr>)) 0 = Some demo_post0"
    by (simp add: demo_env_def, simp add: demo_env_def, code_simp, code_simp,
        simp add: find_post_def demo_post0_def)
  show ?thesis by (rule post_key_uncached [OF h])
qed

text \<open>
  C15: \<open>getAllPostController\<close> does not validate \<open>limit\<close>.  A negative
  \<open>limit=-k\<close> passes \<open>parseInt(...) || 10\<close>; MongoDB's \<open>.limit(-k)\<close> returns the
  first \<open>k\<close> posts, and \<open>Math.ceil(total / -k)\<close> makes \<open>totalPages\<close> negative;
  the answer is cached under \<open>posts:1:-k\<close>.  On page 2 the same limit makes the skip
  negative, which MongoDB refuses: 500.
\<close>

theorem listing_negative_limit:
  assumes "mongo_up e" and "redis_up e" and "redis_lookup (cache s) (posts_key 1 (- int k)) = None"
    and "redis_lookup (cache s) (posts_key 2 (- int k)) = None" and "0 < k"
  shows "get_all_posts e None (Some (int_str (- int k))) s =
           (s\<lparr>cache := AList.update (posts_key 1 (- int k))
                 (CListing \<lparr>lst_posts = take k (newest_first (posts s)), lst_page = 1,
                            lst_total_pages = - (int (length (posts s)) div int k),
                            lst_total = length (posts s)\<rparr>, 300) (cache s)\<rparr>,
            (200, ListingBody \<lparr>lst_posts = take k (newest_first (posts s)), lst_page = 1,
                              lst_total_pages = - (int (length (posts s)) div int k),
                              lst_total = length (posts s)\<rparr>)) \<and>
         snd (get_all_posts e (Some ''2'') (Some (int_str (- int k))) s) = server_error ''Error fetching all post''"
proof -
  have q: "query_int (Some (int_str (- int k))) 10 = - int k"
    using assms(5) by (simp add: query_int_int_str)
  have q2: "query_int (Some ''2'') 1 = 2"
    by code_simp
  show ?thesis
    using assms q q2 by (simp add: get_all_posts_def redis_get_def query_posts_page_def ceil_div_def
        redis_setex_def query_int_def Let_def)
qed

theorem listing_negative_limit_witness:
  "mongo_up (demo_env ConnAccepted) \<and> redis_up (demo_env ConnAccepted) \<and>
   redis_lookup (cache (demo_service\<lparr>posts := replicate 6 demo_post0, cache := []\<rparr>)) (posts_key 1 (- int 5)) = None \<and>
   redis_lookup (cache (demo_service\<lparr>posts := replicate 6 demo_post0, cache := []\<rparr>)) (posts_key 2 (- int 5)) = None \<and>
   (0::nat) < 5 \<and>
   snd (get_all_posts (demo_env ConnAccepted) None (Some (int_str (- int 5)))
     (demo_service\<lparr>posts := replicate 6 demo_post0, cache := []\<rparr>)) =
     (200, ListingBody \<lparr>lst_posts = replicate 5 demo_post0, lst_page = 1, lst_total_pages = -1, lst_total = 6\<rparr>) \<and>
   redis_lookup (cache (fst (get_all_posts (demo_env ConnAccepted) None (Some (int_str (- int 5)))
     (demo_service\<lparr>posts := replicate 6 demo_post0, cache := []\<rparr>)))) (posts_key 1 (- 5)) =
     Some (CListing \<lparr>lst_posts = replicate 5 demo_post0, lst_page = 1, lst_total_pages = -1, lst_total = 6\<rparr>)"
proof -
  have h: "mongo_up (demo_env ConnAccepted)" "redis_up (demo_env ConnAccepted)"
    "redis_lookup (cache (demo_service\<lparr>posts := replicate 6 demo_post0, cache := []\<rparr>)) (posts_key 1 (- int 5)) = None"
    "redis_lookup (cache (demo_service\<lparr>posts := replicate 6 demo_post0, cache := []\<rparr>)) (posts_key 2 (- int 5)) = None"
    "(0::nat) < 5"
    by (simp_all add: demo_env_def redis_lookup_def)
  have n: "newest_first (replicate 6 demo_post0) = replicate 6 demo_post0"
    by (simp add: newest_first_def numeral_eq_Suc)
  show ?thesis
    using h listing_negative_limit [OF h] by (simp add: n redis_lookup_def)
qed

end
