(* ===== verification/SearchService.thy ===== *)
theory SearchService
  imports Amqp
begin

text \<open>
  The search service: the search-index projector
  (\<open>search-service/src/event-handlers/search-event-handler.js\<close>), its collection
  (\<open>models/search-post-model.js\<close>) and the text search
  (\<open>controllers/search-post-controller.js\<close>) behind its route
  (\<open>routes/search-post-routes.js\<close>).  The collection \<open>searchposts\<close> is a
  list of documents in insertion order; its schema makes every field required and
  \<open>postId\<close> unique.  Both handlers catch every error and only log it, so a failed write
  leaves the collection unchanged and the message is acknowledged all the same.
  MongoDB's text search is modelled by words: a document matches when one of its words
  is a word of the query, ignoring ASCII case, and its score is the number of its
  matching words (stemming, stop words and MongoDB's weighting are not modelled).
\<close>

section \<open>The collection\<close>

record search_post =
  sp_post_id :: string
  sp_user_id :: user_id
  sp_content :: string
  sp_created :: timestamp

text \<open>
  \<open>new SearchPost(...).save()\<close> (lines 4--21): the required validators refuse an
  empty string, the unique index on \<open>postId\<close> refuses a second document with the same
  id (\<open>E11000\<close>), and an unreachable MongoDB fails the save; all three errors are
  caught and logged.
\<close>

definition search_post_valid :: "search_post \<Rightarrow> bool" where
  "search_post_valid d \<longleftrightarrow> sp_post_id d \<noteq> [] \<and> sp_user_id d \<noteq> [] \<and> sp_content d \<noteq> []"

definition handle_post_created :: "bool \<Rightarrow> event \<Rightarrow> search_post list \<Rightarrow> search_post list" where
  "handle_post_created up ev idx =
     (case ev of
        PostCreated pid uid c t \<Rightarrow>
          (let d = \<lparr>sp_post_id = pid, sp_user_id = uid, sp_content = c, sp_created = t\<rparr>
           in if up \<and> search_post_valid d \<and> pid \<notin> set (map sp_post_id idx) then idx @ [d] else idx)
      | PostDeleted _ _ _ \<Rightarrow> idx)"

text \<open>
  \<open>SearchPost.findOneAndDelete({postId})\<close> (lines 23--31): removes the document with
  that \<open>postId\<close>, if there is one.  A payload without \<open>postId\<close> cannot occur in the
  event type.
\<close>

definition handle_post_deleted :: "bool \<Rightarrow> event \<Rightarrow> search_post list \<Rightarrow> search_post list" where
  "handle_post_deleted up ev idx =
     (case ev of
        PostDeleted pid _ _ \<Rightarrow> (if up then filter (\<lambda>d. sp_post_id d \<noteq> pid) idx else idx)
      | PostCreated _ _ _ _ \<Rightarrow> idx)"

text \<open>
  The service's subscriptions (\<open>search-service/src/index.js\<close>, lines 53--54):
  \<open>post.created\<close> goes to \<open>handlePostCreated\<close>, \<open>post.deleted\<close> to
  \<open>handlePostDeleted\<close>.  The registry that dispatches on the routing key
  (\<open>consumeEvent\<close>, in \<open>utils/rabbitmq.js\<close>, not in the repository) is modelled from
  the spec: one queue bound to both keys, each message handed to the handler whose
  pattern matches.
\<close>

definition search_bindings :: "string list" where
  "search_bindings = [''post.created'', ''post.deleted'']"

definition search_dispatch :: "bool \<Rightarrow> message \<Rightarrow> search_post list \<Rightarrow> search_post list" where
  "search_dispatch up m idx =
     (if topic_match ''post.created'' (msg_key m) then handle_post_created up (msg_event m) idx
      else if topic_match ''post.deleted'' (msg_key m) then handle_post_deleted up (msg_event m) idx
      else idx)"

text \<open>The index after the consumer has processed the messages, in order.\<close>

definition search_replay :: "message list \<Rightarrow> search_post list \<Rightarrow> search_post list" where
  "search_replay ms idx = fold (search_dispatch True) ms idx"

section \<open>Text search\<close>

definition lower_char :: "char \<Rightarrow> char" where
  "lower_char c = (let n = of_char c :: nat in if 65 \<le> n \<and> n \<le> 90 then char_of (n + 32) else c)"

definition word_char :: "char \<Rightarrow> bool" where
  "word_char c = (let n = of_char c :: nat in (48 \<le> n \<and> n \<le> 57) \<or> (65 \<le> n \<and> n \<le> 90) \<or> (97 \<le> n \<and> n \<le> 122))"

text \<open>Words of a text: maximal runs of ASCII letters and digits, in lower case.\<close>

fun split_words :: "string \<Rightarrow> string \<Rightarrow> string list" where
  "split_words [] acc = (if acc = [] then [] else [rev acc])"
| "split_words (c # cs) acc =
     (if word_char c then split_words cs (lower_char c # acc)
      else if acc = [] then split_words cs [] else rev acc # split_words cs [])"

definition text_words :: "string \<Rightarrow> string list" where
  "text_words s = split_words s []"

definition text_score :: "string \<Rightarrow> search_post \<Rightarrow> nat" where
  "text_score q d = length (filter (\<lambda>w. w \<in> set (text_words q)) (text_words (sp_content d)))"

text \<open>
  \<open>searchPostController\<close> (lines 4--36): the matching documents by descending score,
  at most ten.  An absent \<open>query\<close> makes \<open>$search\<close> undefined, which MongoDB refuses
  (answered 500, \<open>None\<close>).
\<close>

definition search_posts :: "bool \<Rightarrow> string option \<Rightarrow> search_post list \<Rightarrow> search_post list option" where
  "search_posts up q idx =
     (case q of
        None \<Rightarrow> None
      | Some qs \<Rightarrow>
          if \<not> up then None
          else Some (take 10 (sort_key (\<lambda>d. - int (text_score qs d))
                                 (filter (\<lambda>d. 0 < text_score qs d) idx))))"

text \<open>
  \<open>GET /api/search/posts\<close> (\<open>search-post-routes.js\<close>, lines 8--12): the
  \<open>authenticateRequest\<close> middleware, then the controller; the status and the
  documents answered.
\<close>

definition search_route ::
  "bool \<Rightarrow> string option \<Rightarrow> string option \<Rightarrow> search_post list \<Rightarrow> nat \<times> search_post list" where
  "search_route up h q idx =
     (case authenticate_request h of
        None \<Rightarrow> (401, [])
      | Some _ \<Rightarrow> (case search_posts up q idx of None \<Rightarrow> (500, []) | Some r \<Rightarrow> (200, r)))"

section \<open>Lemmas on the handlers\<close>

lemma handle_post_created_idem:
  "handle_post_created up ev (handle_post_created up ev idx) = handle_post_created up ev idx"
  by (auto simp: handle_post_created_def Let_def search_post_valid_def split: event.splits)

lemma handle_post_deleted_idem:
  "handle_post_deleted up ev (handle_post_deleted up ev idx) = handle_post_deleted up ev idx"
  by (auto simp: handle_post_deleted_def split: event.splits)

lemma handle_post_deleted_absent:
  "pid \<notin> set (map sp_post_id idx) \<Longrightarrow> handle_post_deleted up (PostDeleted pid u ms) idx = idx"
  by (auto simp: handle_post_deleted_def filter_id_conv)

lemma search_dispatch_idem:
  "search_dispatch up m (search_dispatch up m idx) = search_dispatch up m idx"
  by (simp add: search_dispatch_def handle_post_created_idem handle_post_deleted_idem)

lemma handle_post_created_distinct:
  "distinct (map sp_post_id idx) \<Longrightarrow> distinct (map sp_post_id (handle_post_created up ev idx))"
  by (auto simp: handle_post_created_def Let_def split: event.splits)

lemma handle_post_deleted_distinct:
  "distinct (map sp_post_id idx) \<Longrightarrow> distinct (map sp_post_id (handle_post_deleted up ev idx))"
  by (auto simp: handle_post_deleted_def distinct_map_filter split: event.splits)

lemma search_dispatch_distinct:
  "distinct (map sp_post_id idx) \<Longrightarrow> distinct (map sp_post_id (search_dispatch up m idx))"
  by (simp add: search_dispatch_def handle_post_created_distinct handle_post_deleted_distinct)

lemma topic_match_post_created: "topic_match ''post.created'' k \<longleftrightarrow> k = ''post.created''"
  by (rule topic_match_literal) (simp add: split_dots_def)

lemma topic_match_post_deleted: "topic_match ''post.deleted'' k \<longleftrightarrow> k = ''post.deleted''"
  by (rule topic_match_literal) (simp add: split_dots_def)

lemma search_dispatch_created:
  "search_dispatch up \<lparr>msg_key = ''post.created'', msg_event = ev\<rparr> ix = handle_post_created up ev ix"
  by (simp add: search_dispatch_def topic_match_post_created)

lemma search_dispatch_deleted:
  "search_dispatch up \<lparr>msg_key = ''post.deleted'', msg_event = ev\<rparr> ix = handle_post_deleted up ev ix"
  by (simp add: search_dispatch_def topic_match_post_created topic_match_post_deleted)

lemma search_replay_snoc: "search_replay (ms @ [m]) ix = search_dispatch True m (search_replay ms ix)"
  by (simp add: search_replay_def)

lemma search_replay_Cons: "search_replay (m # ms) ix = search_replay ms (search_dispatch True m ix)"
  by (simp add: search_replay_def)

lemma search_dispatch_valid:
  "list_all search_post_valid ix \<Longrightarrow> list_all search_post_valid (search_dispatch up m ix)"
  by (auto simp: search_dispatch_def handle_post_created_def handle_post_deleted_def Let_def list_all_iff
      split: event.splits)

lemma search_dispatch_no_create:
  "pid \<notin> set (map sp_post_id ix) \<Longrightarrow>
   (case msg_event m of PostCreated p _ _ _ \<Rightarrow> p \<noteq> pid | PostDeleted _ _ _ \<Rightarrow> True) \<Longrightarrow>
   pid \<notin> set (map sp_post_id (search_dispatch up m ix))"
  by (auto simp: search_dispatch_def handle_post_created_def handle_post_deleted_def Let_def
      split: event.splits)

lemma search_replay_no_create:
  "pid \<notin> set (map sp_post_id ix) \<Longrightarrow>
   list_all (\<lambda>m. case msg_event m of PostCreated p _ _ _ \<Rightarrow> p \<noteq> pid | PostDeleted _ _ _ \<Rightarrow> True) ms \<Longrightarrow>
   pid \<notin> set (map sp_post_id (search_replay ms ix))"
  by (induction ms arbitrary: ix) (simp_all add: search_replay_def search_dispatch_no_create
      del: set_map)

lemma search_dispatch_down: "search_dispatch False m ix = ix"
  by (simp add: search_dispatch_def handle_post_created_def handle_post_deleted_def split: event.splits)

lemma sorted_take_sort_key: "sorted (map f (take n (sort_key f xs)))"
proof -
  have "sorted (map f (sort_key f xs))" by simp
  then have "sorted (take n (map f (sort_key f xs)))" by (simp add: sorted_wrt_take)
  then show ?thesis by (simp add: take_map)
qed


section \<open>Properties of the projector and the search\<close>

text \<open>
  C3: idempotent projection (spec, section 8).  Processing the same
  \<open>post.created\<close> message twice leaves the collection as processing it once, and
  with unique ids there is at most one document for the post.
\<close>

theorem created_twice_one_entry:
  assumes "distinct (map sp_post_id idx)" and "m = \<lparr>msg_key = ''post.created'', msg_event = PostCreated pid u c t\<rparr>"
  shows "search_dispatch True m (search_dispatch True m idx) = search_dispatch True m idx \<and>
         length (filter (\<lambda>d. sp_post_id d = pid) (search_dispatch True m (search_dispatch True m idx))) \<le> 1"
proof -
  have d: "distinct (map sp_post_id (search_dispatch True m idx))"
    using assms(1) by (rule search_dispatch_distinct)
  have "length (filter (\<lambda>d. sp_post_id d = pid) (search_dispatch True m idx)) \<le> 1"
    using distinct_map_filter_le1 [OF d] by simp
  then show ?thesis by (simp add: search_dispatch_idem)
qed

theorem created_twice_one_entry_witness:
  "distinct (map sp_post_id []) \<and>
   search_dispatch True \<lparr>msg_key = ''post.created'', msg_event = PostCreated ''p1'' ''u1'' ''hello world'' 0\<rparr>
     (search_dispatch True \<lparr>msg_key = ''post.created'', msg_event = PostCreated ''p1'' ''u1'' ''hello world'' 0\<rparr> []) =
   [\<lparr>sp_post_id = ''p1'', sp_user_id = ''u1'', sp_content = ''hello world'', sp_created = 0\<rparr>] \<and>
   length (filter (\<lambda>d. sp_post_id d = ''p1'')
     (search_dispatch True \<lparr>msg_key = ''post.created'', msg_event = PostCreated ''p1'' ''u1'' ''hello world'' 0\<rparr>
       (search_dispatch True \<lparr>msg_key = ''post.created'', msg_event = PostCreated ''p1'' ''u1'' ''hello world'' 0\<rparr> []))) \<le> 1"
proof -
  have once: "search_dispatch True \<lparr>msg_key = ''post.created'', msg_event = PostCreated ''p1'' ''u1'' ''hello world'' 0\<rparr> [] =
     [\<lparr>sp_post_id = ''p1'', sp_user_id = ''u1'', sp_content = ''hello world'', sp_created = 0\<rparr>]"
    by (simp add: search_dispatch_def topic_match_def split_dots_def handle_post_created_def search_post_valid_def)
  show ?thesis
    using created_twice_one_entry [of "[]" _ "''p1''" "''u1''" "''hello world''" 0, OF _ refl] once by simp
qed

text \<open>
  C20: deletion idempotence (spec, section 8).  A \<open>post.deleted\<close> message for a post
  the collection does not hold changes nothing and raises nothing; processing a
  deletion twice is processing it once.
\<close>

theorem deleted_absent_noop:
  assumes "pid \<notin> set (map sp_post_id idx)"
  shows "search_dispatch True \<lparr>msg_key = ''post.deleted'', msg_event = PostDeleted pid u ms\<rparr> idx = idx"
  using assms
  by (simp add: search_dispatch_def topic_match_def split_dots_def handle_post_deleted_absent)

theorem deleted_absent_noop_witness:
  "''p2'' \<notin> set (map sp_post_id [\<lparr>sp_post_id = ''p1'', sp_user_id = ''u1'', sp_content = ''hi!'', sp_created = 0\<rparr>]) \<and>
   search_dispatch True \<lparr>msg_key = ''post.deleted'', msg_event = PostDeleted ''p2'' ''u1'' []\<rparr>
     [\<lparr>sp_post_id = ''p1'', sp_user_id = ''u1'', sp_content = ''hi!'', sp_created = 0\<rparr>] =
   [\<lparr>sp_post_id = ''p1'', sp_user_id = ''u1'', sp_content = ''hi!'', sp_created = 0\<rparr>]"
  using deleted_absent_noop [of "''p2''" "[\<lparr>sp_post_id = ''p1'', sp_user_id = ''u1'', sp_content = ''hi!'', sp_created = 0\<rparr>]" "''u1''" "[]"]
  by simp

text \<open>
  C8: the search answer is the top ten.  When \<open>searchPostController\<close> answers, the
  query was given and MongoDB was up; the answer holds the matching documents of the
  collection (positive score) by descending score, as many as match up to ten, and no
  matching document left out scores higher than one answered.
\<close>

theorem search_posts_top_ten:
  assumes "search_posts up q idx = Some res"
  shows "\<exists>qs. q = Some qs \<and> up \<and>
           length res = min 10 (length (filter (\<lambda>d. 0 < text_score qs d) idx)) \<and>
           set res \<subseteq> {d \<in> set idx. 0 < text_score qs d} \<and>
           sorted (map (\<lambda>d. - int (text_score qs d)) res) \<and>
           (\<forall>d\<in>set idx. 0 < text_score qs d \<longrightarrow> d \<notin> set res \<longrightarrow>
              (\<forall>r\<in>set res. text_score qs d \<le> text_score qs r))"
proof -
  obtain qs where q: "q = Some qs" and up: "up"
    using assms by (auto simp: search_posts_def split: option.splits if_splits)
  define f where "f = (\<lambda>d. - int (text_score qs d))"
  define xs where "xs = sort_key f (filter (\<lambda>d. 0 < text_score qs d) idx)"
  have res: "res = take 10 xs" using assms by (simp add: search_posts_def q up xs_def f_def)
  have sx: "sorted (map f (take 10 xs) @ map f (drop 10 xs))"
    unfolding xs_def map_append [symmetric] append_take_drop_id by simp
  have top: "text_score qs d \<le> text_score qs r"
    if "d \<in> set idx" "0 < text_score qs d" "d \<notin> set res" "r \<in> set res" for d r
  proof -
    have "d \<in> set xs" using that(1,2) by (simp add: xs_def)
    then have "d \<in> set (drop 10 xs)" using that(3) res
      by (metis Un_iff append_take_drop_id set_append)
    then have "f r \<le> f d" using sx that(4) res by (auto simp: sorted_append)
    then show ?thesis by (simp add: f_def)
  qed
  have "length res = min 10 (length (filter (\<lambda>d. 0 < text_score qs d) idx))"
    by (simp add: res xs_def length_sort)
  moreover have "set res \<subseteq> {d \<in> set idx. 0 < text_score qs d}"
    using res by (auto simp: xs_def dest: in_set_takeD)
  moreover have "sorted (map (\<lambda>d. - int (text_score qs d)) res)"
    using res by (simp add: xs_def f_def sorted_take_sort_key)
  ultimately show ?thesis using q up top by blast
qed

theorem search_posts_top_ten_witness:
  "search_posts True (Some ''hello'')
     [\<lparr>sp_post_id = ''p1'', sp_user_id = ''u1'', sp_content = ''hello world'', sp_created = 0\<rparr>,
      \<lparr>sp_post_id = ''p2'', sp_user_id = ''u1'', sp_content = ''bye'', sp_created = 1\<rparr>] =
     Some [\<lparr>sp_post_id = ''p1'', sp_user_id = ''u1'', sp_content = ''hello world'', sp_created = 0\<rparr>] \<and>
   length [\<lparr>sp_post_id = ''p1'', sp_user_id = ''u1'', sp_content = ''hello world'', sp_created = 0\<rparr>] =
     min 10 (length (filter (\<lambda>d. 0 < text_score ''hello'' d)
       [\<lparr>sp_post_id = ''p1'', sp_user_id = ''u1'', sp_content = ''hello world'', sp_created = 0\<rparr>,
        \<lparr>sp_post_id = ''p2'', sp_user_id = ''u1'', sp_content = ''bye'', sp_created = 1\<rparr>]))"
proof -
  have h: "search_posts True (Some ''hello'')
     [\<lparr>sp_post_id = ''p1'', sp_user_id = ''u1'', sp_content = ''hello world'', sp_created = 0\<rparr>,
      \<lparr>sp_post_id = ''p2'', sp_user_id = ''u1'', sp_content = ''bye'', sp_created = 1\<rparr>] =
     Some [\<lparr>sp_post_id = ''p1'', sp_user_id = ''u1'', sp_content = ''hello world'', sp_created = 0\<rparr>]"
    by code_simp
  obtain qs where "Some ''hello'' = Some qs"
    "length [\<lparr>sp_post_id = ''p1'', sp_user_id = ''u1'', sp_content = ''hello world'', sp_created = 0\<rparr>] =
     min 10 (length (filter (\<lambda>d. 0 < text_score qs d)
       [\<lparr>sp_post_id = ''p1'', sp_user_id = ''u1'', sp_content = ''hello world'', sp_created = 0\<rparr>,
        \<lparr>sp_post_id = ''p2'', sp_user_id = ''u1'', sp_content = ''bye'', sp_created = 1\<rparr>]))"
    using search_posts_top_ten [OF h] by blast
  then show ?thesis using h by simp
qed

text \<open>
  C21: order matters.  For any collection that does not hold the post, if the consumer
  sees the post's deletion before its creation, the deletion finds nothing and the
  creation then indexes a post that no longer exists, for good; in the order the post
  service publishes them the two events leave the collection as it was.  Per-key FIFO
  delivery (one queue for both keys) is what keeps the index right.
\<close>

theorem reordered_events_ghost_entry:
  assumes "pid \<notin> set (map sp_post_id ix)" and "pid \<noteq> []" and "u \<noteq> []" and "c \<noteq> []"
  shows "search_replay [\<lparr>msg_key = ''post.deleted'', msg_event = PostDeleted pid u' mids\<rparr>,
                        \<lparr>msg_key = ''post.created'', msg_event = PostCreated pid u c t\<rparr>] ix =
           ix @ [\<lparr>sp_post_id = pid, sp_user_id = u, sp_content = c, sp_created = t\<rparr>] \<and>
         search_replay [\<lparr>msg_key = ''post.created'', msg_event = PostCreated pid u c t\<rparr>,
                        \<lparr>msg_key = ''post.deleted'', msg_event = PostDeleted pid u' mids\<rparr>] ix = ix"
proof -
  let ?d = "\<lparr>sp_post_id = pid, sp_user_id = u, sp_content = c, sp_created = t\<rparr>"
  have cr: "handle_post_created True (PostCreated pid u c t) ix = ix @ [?d]"
    using assms by (simp add: handle_post_created_def search_post_valid_def)
  have "handle_post_deleted True (PostDeleted pid u' mids) (ix @ [?d]) = ix"
    using assms(1) by (auto simp: handle_post_deleted_def filter_id_conv)
  then show ?thesis
    using cr handle_post_deleted_absent [OF assms(1)]
    by (simp add: search_replay_def search_dispatch_created search_dispatch_deleted)
qed

theorem reordered_events_ghost_entry_witness:
  "search_replay [\<lparr>msg_key = ''post.deleted'', msg_event = PostDeleted ''p1'' ''u1'' []\<rparr>,
                  \<lparr>msg_key = ''post.created'', msg_event = PostCreated ''p1'' ''u1'' ''hello world'' 0\<rparr>] [] =
     [\<lparr>sp_post_id = ''p1'', sp_user_id = ''u1'', sp_content = ''hello world'', sp_created = 0\<rparr>] \<and>
   search_replay [\<lparr>msg_key = ''post.created'', msg_event = PostCreated ''p1'' ''u1'' ''hello world'' 0\<rparr>,
                  \<lparr>msg_key = ''post.deleted'', msg_event = PostDeleted ''p1'' ''u1'' []\<rparr>] [] = []"
  using reordered_events_ghost_entry [of "''p1''" "[]" "''u1''" "''hello world''" "''u1''" "[]" 0] by simp

end
