(* ===== verification/System.thy ===== *)
theory System
  imports PostService SearchService
begin

text \<open>
  The deployed system: the post service, the broker and the search service, composed as
  in \<open>docker-compose\<close> (one instance each).  A state is the post service's state,
  the broker's and the search collection (\<open>sys\<close>); every request and every broker
  delivery is an operation (\<open>sys_op\<close>) and \<open>exec\<close> applies it.  The states reachable
  from a fresh deployment by operations that do not lose their effect (no broker or
  database outage during a write, no dropped channel) are the inductive set \<open>reach\<close>;
  the invariant \<open>sys_inv\<close> holds in all of them.
\<close>

section \<open>The system state\<close>

text \<open>
  The search service's queue, declared by \<open>consumeEvent\<close> (not in the repository) and
  bound to the routing keys of its two subscriptions (\<open>search-service/src/index.js\<close>,
  lines 53--54).  It is the first queue of the broker.
\<close>

definition search_queue_name :: string where
  "search_queue_name = ''search_service_queue''"

definition search_queue :: "message list \<Rightarrow> queue" where
  "search_queue ms = \<lparr>q_name = search_queue_name, q_bindings = search_bindings, q_msgs = ms\<rparr>"

record sys =
  svc :: post_service
  brk :: broker
  idx :: "search_post list"

text \<open>
  A fresh deployment: both services have connected (\<open>connectToRabbitMQ\<close> accepted), the
  exchange is declared, the search queue is empty, and both collections and the cache are
  empty.
\<close>

definition sys_init :: sys where
  "sys_init = \<lparr>svc = \<lparr>posts = [], cache = [], amqp = \<lparr>connection = True, channel = Some ChanOpen\<rparr>,
                       next_oid = 0\<rparr>,
               brk = \<lparr>exchange_declared = True, queues = [search_queue []]\<rparr>,
               idx = []\<rparr>"

text \<open>
  The search consumer takes the first message of its queue and hands it to
  \<open>search_dispatch\<close>; \<open>up\<close> says whether the search database is reachable.  With
  \<open>ack\<close> the message leaves the queue (the handlers swallow their errors, so the
  message is acknowledged whatever happened); without it the message stays at the head
  and is delivered again (a consumer that crashed or lost its connection after the
  handler ran and before the acknowledgement).
\<close>

definition consume :: "bool \<Rightarrow> bool \<Rightarrow> sys \<Rightarrow> sys" where
  "consume up ack st =
     (case queues (brk st) of
        [] \<Rightarrow> st
      | q # qs \<Rightarrow>
          (case q_msgs q of
             [] \<Rightarrow> st
           | m # ms \<Rightarrow>
               st\<lparr>idx := search_dispatch up m (idx st),
                  brk := (brk st)\<lparr>queues := (if ack then q\<lparr>q_msgs := ms\<rparr> else q) # qs\<rparr>\<rparr>))"

datatype sys_op =
    Create env "string option" "(string \<times> jval) list"
  | Delete env "string option" string
  | ListPosts env "string option" "string option"
  | ReadPost env string
  | Evict string
  | LoseChannel
  | Deliver bool
  | Redeliver

fun exec :: "sys_op \<Rightarrow> sys \<Rightarrow> sys" where
  "exec (Create e h obj) st =
     (case authenticate_request h of
        None \<Rightarrow> st
      | Some u \<Rightarrow> (let (s', b', _) = create_post e u obj (svc st) (brk st) in st\<lparr>svc := s', brk := b'\<rparr>))"
| "exec (Delete e h pid) st =
     (case authenticate_request h of
        None \<Rightarrow> st
      | Some u \<Rightarrow> (let (s', b', _) = delete_post e u pid (svc st) (brk st) in st\<lparr>svc := s', brk := b'\<rparr>))"
| "exec (ListPosts e qp ql) st = st\<lparr>svc := fst (get_all_posts e qp ql (svc st))\<rparr>"
| "exec (ReadPost e pid) st = st\<lparr>svc := fst (get_post e pid (svc st))\<rparr>"
| "exec (Evict k) st = st\<lparr>svc := (svc st)\<lparr>cache := redis_evict k (cache (svc st))\<rparr>\<rparr>"
| "exec LoseChannel st = st\<lparr>svc := (svc st)\<lparr>amqp := channel_lost (amqp (svc st))\<rparr>\<rparr>"
| "exec (Deliver up) st = consume up True st"
| "exec Redeliver st = consume True False st"

text \<open>
  Operations that keep their effect: writes with Redis reachable (MongoDB may be down:
  the write is then refused with nothing changed), deliveries with the search database
  reachable, redeliveries, reads and evictions.  A dropped channel is not one of them.
\<close>

fun reliable :: "sys_op \<Rightarrow> bool" where
  "reliable (Create e _ _) = redis_up e"
| "reliable (Delete e _ _) = redis_up e"
| "reliable LoseChannel = False"
| "reliable (Deliver up) = up"
| "reliable _ = True"

inductive reach :: "sys \<Rightarrow> bool" where
  reach_init: "reach sys_init"
| reach_step: "reach st \<Longrightarrow> reliable a \<Longrightarrow> reach (exec a st)"

definition pending :: "sys \<Rightarrow> message list" where
  "pending st = (case queues (brk st) of [] \<Rightarrow> [] | q # _ \<Rightarrow> q_msgs q)"

text \<open>The search document the projector builds from a post.\<close>

definition search_entry :: "post \<Rightarrow> search_post" where
  "search_entry p = \<lparr>sp_post_id = oid_str (post_oid p), sp_user_id = post_user p,
                     sp_content = post_content p, sp_created = post_created p\<rparr>"

text \<open>The consumer processes every pending message.\<close>

definition drain :: "sys \<Rightarrow> sys" where
  "drain st = (consume True True ^^ length (pending st)) st"

definition sys_inv :: "sys \<Rightarrow> bool" where
  "sys_inv st \<longleftrightarrow>
     post_wf (svc st) \<and> cache_coherent (svc st) \<and>
     channel (amqp (svc st)) = Some ChanOpen \<and> exchange_declared (brk st) \<and>
     queues (brk st) = [search_queue (pending st)] \<and>
     (\<forall>p\<in>set (posts (svc st)). post_user p \<noteq> [] \<and> post_content p \<noteq> []) \<and>
     distinct (map sp_post_id (idx st)) \<and>
     search_replay (pending st) (idx st) = map search_entry (posts (svc st))"

section \<open>Concrete traces\<close>

text \<open>The post and the event of a first \<open>POST /create-post\<close> by user \<open>u1\<close> at time 7.\<close>

definition demo_post :: post where
  "demo_post = \<lparr>post_oid = 0, post_user = ''u1'', post_content = ''hello world'', post_media = [], post_created = 7\<rparr>"

definition demo_msg :: message where
  "demo_msg = \<lparr>msg_key = ''post.created'', msg_event = PostCreated (oid_str 0) ''u1'' ''hello world'' 7\<rparr>"

section \<open>Lemmas on the composition\<close>

lemma route_search_queue:
  "msg_key m \<in> set search_bindings \<Longrightarrow> route m [search_queue ms] = [search_queue (ms @ [m])]"
  by (auto simp: route_def search_queue_def search_bindings_def topic_match_post_created
      topic_match_post_deleted)

lemma pending_search_queue: "queues (brk st) = [search_queue ms] \<Longrightarrow> pending st = ms"
  by (simp add: pending_def search_queue_def)

lemma oid_fresh:
  "\<forall>p\<in>set ps. post_oid p < n \<Longrightarrow> oid_str n \<notin> set (map sp_post_id (map search_entry ps))"
  by (auto simp: search_entry_def oid_str_inj)

lemma search_post_valid_entry:
  "post_user p \<noteq> [] \<Longrightarrow> post_content p \<noteq> [] \<Longrightarrow> search_post_valid (search_entry p)"
  by (simp add: search_post_valid_def search_entry_def oid_str_def Let_def nat_digits_ne)

section \<open>The invariant of reachable states\<close>

lemma sys_inv_create:
  assumes inv: "sys_inv st" and up: "redis_up e"
  shows "sys_inv (exec (Create e h obj) st)"
proof (cases "authenticate_request h")
  case None
  with inv show ?thesis by simp
next
  case (Some u)
  obtain s' b' r where cp: "create_post e u obj (svc st) (brk st) = (s', b', r)"
    by (metis prod_cases3)
  have ex: "exec (Create e h obj) st = st\<lparr>svc := s', brk := b'\<rparr>" using Some cp by simp
  have ch: "channel (amqp (svc st)) = Some ChanOpen" "exchange_declared (brk st)"
    using inv by (simp_all add: sys_inv_def)
  from create_post_reliable [OF ch up cp] show ?thesis
  proof (elim disjE exE conjE)
    assume "s' = svc st" "b' = brk st"
    with ex inv show ?thesis by simp
  next
    fix c media
    assume c: "3 \<le> length c"
      and ps: "posts s' = posts (svc st) @ [\<lparr>post_oid = next_oid (svc st), post_user = u,
                 post_content = c, post_media = media, post_created = now e\<rparr>]"
      and n: "next_oid s' = Suc (next_oid (svc st))" and am: "amqp s' = amqp (svc st)"
      and b': "b' = (brk st)\<lparr>queues := route \<lparr>msg_key = ''post.created'',
                 msg_event = PostCreated (oid_str (next_oid (svc st))) u c (now e)\<rparr> (queues (brk st))\<rparr>"
      and inval: "invalidate_post_cache True (oid_str (next_oid (svc st))) (cache (svc st)) = Inr (cache s')"
    define p where "p = \<lparr>post_oid = next_oid (svc st), post_user = u, post_content = c,
                          post_media = media, post_created = now e\<rparr>"
    define m where "m = \<lparr>msg_key = ''post.created'',
                          msg_event = PostCreated (oid_str (next_oid (svc st))) u c (now e)\<rparr>"
    have q: "queues (brk st) = [search_queue (pending st)]" using inv by (simp add: sys_inv_def)
    have q': "queues b' = [search_queue (pending st @ [m])]"
      using b' q by (simp add: m_def route_search_queue search_bindings_def)
    have wf: "post_wf (svc st)" and coh: "cache_coherent (svc st)"
      and us: "\<forall>p\<in>set (posts (svc st)). post_user p \<noteq> [] \<and> post_content p \<noteq> []"
      and di: "distinct (map sp_post_id (idx st))"
      and rep: "search_replay (pending st) (idx st) = map search_entry (posts (svc st))"
      using inv by (simp_all add: sys_inv_def)
    have fresh: "\<forall>q\<in>set (posts (svc st)). post_oid q < next_oid (svc st)"
      using wf by (simp add: post_wf_def)
    have u: "u \<noteq> []" using Some by (rule authenticate_request_Some)
    have "post_wf s'"
      using wf fresh redis_wf_invalidate [OF _ inval] unfolding post_wf_def ps n by auto
    moreover have "cache_coherent s'" by (rule cache_coherent_invalidate [OF coh inval])
    moreover have "search_replay (pending st @ [m]) (idx st) = map search_entry (posts s')"
    proof -
      have v: "search_post_valid (search_entry p)"
        using u c by (auto simp: p_def intro!: search_post_valid_entry)
      have "search_replay (pending st @ [m]) (idx st) =
            handle_post_created True (PostCreated (oid_str (next_oid (svc st))) u c (now e))
              (map search_entry (posts (svc st)))"
        by (simp add: search_replay_snoc rep m_def search_dispatch_created)
      also have "\<dots> = map search_entry (posts (svc st)) @ [search_entry p]"
        using v oid_fresh [OF fresh] by (simp add: handle_post_created_def p_def search_entry_def)
      finally show ?thesis by (simp add: ps p_def)
    qed
    moreover have "\<forall>p\<in>set (posts s'). post_user p \<noteq> [] \<and> post_content p \<noteq> []"
      using us u c unfolding ps by auto
    moreover have "exchange_declared b'" using ch(2) b' by simp
    ultimately show ?thesis
      using ex q' am ch(1) di by (simp add: sys_inv_def pending_search_queue)
  qed
qed

lemma sys_inv_delete:
  assumes inv: "sys_inv st" and up: "redis_up e"
  shows "sys_inv (exec (Delete e h pid) st)"
proof (cases "authenticate_request h")
  case None
  with inv show ?thesis by simp
next
  case (Some u)
  obtain s' b' r where dp: "delete_post e u pid (svc st) (brk st) = (s', b', r)"
    by (metis prod_cases3)
  have ex: "exec (Delete e h pid) st = st\<lparr>svc := s', brk := b'\<rparr>" using Some dp by simp
  have ch: "channel (amqp (svc st)) = Some ChanOpen" "exchange_declared (brk st)"
    using inv by (simp_all add: sys_inv_def)
  from delete_post_reliable [OF ch up dp] show ?thesis
  proof (elim disjE exE conjE)
    assume "s' = svc st" "b' = brk st"
    with ex inv show ?thesis by simp
  next
    fix oid p
    assume fp: "find_post (posts (svc st)) oid = Some p"
      and ps: "posts s' = filter (\<lambda>q. post_oid q \<noteq> oid) (posts (svc st))"
      and n: "next_oid s' = next_oid (svc st)" and am: "amqp s' = amqp (svc st)"
      and b': "b' = (brk st)\<lparr>queues := route \<lparr>msg_key = ''post.deleted'',
                 msg_event = PostDeleted (oid_str (post_oid p)) u (post_media p)\<rparr> (queues (brk st))\<rparr>"
      and inval: "invalidate_post_cache True pid (cache (svc st)) = Inr (cache s')"
    define m where "m = \<lparr>msg_key = ''post.deleted'',
                          msg_event = PostDeleted (oid_str (post_oid p)) u (post_media p)\<rparr>"
    have po: "post_oid p = oid" using find_post_SomeD [OF fp] by simp
    have q: "queues (brk st) = [search_queue (pending st)]" using inv by (simp add: sys_inv_def)
    have q': "queues b' = [search_queue (pending st @ [m])]"
      using b' q by (simp add: m_def route_search_queue search_bindings_def)
    have wf: "post_wf (svc st)" and coh: "cache_coherent (svc st)"
      and us: "\<forall>p\<in>set (posts (svc st)). post_user p \<noteq> [] \<and> post_content p \<noteq> []"
      and di: "distinct (map sp_post_id (idx st))"
      and rep: "search_replay (pending st) (idx st) = map search_entry (posts (svc st))"
      using inv by (simp_all add: sys_inv_def)
    have "post_wf s'"
      using wf redis_wf_invalidate [OF _ inval] unfolding post_wf_def ps n
      by (auto simp: distinct_map_filter)
    moreover have "cache_coherent s'" by (rule cache_coherent_invalidate [OF coh inval])
    moreover have "search_replay (pending st @ [m]) (idx st) = map search_entry (posts s')"
    proof -
      have "search_replay (pending st @ [m]) (idx st) =
            filter (\<lambda>d. sp_post_id d \<noteq> oid_str oid) (map search_entry (posts (svc st)))"
        by (simp add: search_replay_snoc rep m_def search_dispatch_deleted handle_post_deleted_def po)
      also have "\<dots> = map search_entry (posts s')"
        by (simp add: ps filter_map comp_def search_entry_def oid_str_inj)
      finally show ?thesis .
    qed
    moreover have "\<forall>p\<in>set (posts s'). post_user p \<noteq> [] \<and> post_content p \<noteq> []"
      using us unfolding ps by auto
    moreover have "exchange_declared b'" using ch(2) b' by simp
    ultimately show ?thesis
      using ex q' am ch(1) di by (simp add: sys_inv_def pending_search_queue)
  qed
qed

lemma sys_inv_read:
  assumes "sys_inv st"
  shows "sys_inv (exec (ListPosts e qp ql) st)" and "sys_inv (exec (ReadPost e pid) st)"
  using assms get_all_posts_keeps [of e qp ql "svc st"] get_post_keeps [of e pid "svc st"]
    get_all_posts_coherent [of "svc st" e qp ql] get_post_coherent [of "svc st" e pid]
  by (simp_all add: sys_inv_def pending_def)

lemma sys_inv_evict: "sys_inv st \<Longrightarrow> sys_inv (exec (Evict k) st)"
  by (simp add: sys_inv_def pending_def post_wf_def redis_wf_evict cache_coherent_evict)

lemma consume_search_queue:
  "queues (brk st) = [search_queue (m # ms)] \<Longrightarrow>
   consume up ack st = st\<lparr>idx := search_dispatch up m (idx st),
     brk := (brk st)\<lparr>queues := [search_queue (if ack then ms else m # ms)]\<rparr>\<rparr>"
  by (simp add: consume_def search_queue_def)

lemma consume_empty: "queues (brk st) = [search_queue []] \<Longrightarrow> consume up ack st = st"
  by (simp add: consume_def search_queue_def)

lemma sys_inv_consume:
  assumes inv: "sys_inv st"
  shows "sys_inv (consume True ack st)"
proof (cases "pending st")
  case Nil
  with inv show ?thesis by (simp add: sys_inv_def consume_empty)
next
  case (Cons m ms)
  have q: "queues (brk st) = [search_queue (m # ms)]" using inv Cons by (simp add: sys_inv_def)
  have rep: "search_replay (m # ms) (idx st) = map search_entry (posts (svc st))"
    using inv Cons by (simp add: sys_inv_def)
  have "search_replay (if ack then ms else m # ms) (search_dispatch True m (idx st)) =
        search_replay (m # ms) (idx st)"
    by (simp add: search_replay_Cons search_dispatch_idem)
  with inv rep show ?thesis
    by (simp add: consume_search_queue [OF q] sys_inv_def pending_search_queue search_dispatch_distinct)
qed

lemma sys_inv_deliver:
  "sys_inv st \<Longrightarrow> sys_inv (exec (Deliver True) st)" "sys_inv st \<Longrightarrow> sys_inv (exec Redeliver st)"
  by (simp_all add: sys_inv_consume)

lemma sys_inv_init: "sys_inv sys_init"
  by (simp add: sys_inv_def sys_init_def pending_def post_wf_def redis_wf_def cache_coherent_def
      search_replay_def search_queue_def)

lemma reach_sys_inv: "reach st \<Longrightarrow> sys_inv st"
proof (induction rule: reach.induct)
  case reach_init
  show ?case by (rule sys_inv_init)
next
  case (reach_step st a)
  then show ?case
    by (cases a) (auto simp del: exec.simps intro: sys_inv_create sys_inv_delete sys_inv_read
        sys_inv_evict sys_inv_deliver)
qed

lemma consume_funpow:
  "queues (brk st) = [search_queue ms] \<Longrightarrow>
   (consume True True ^^ length ms) st =
     st\<lparr>idx := search_replay ms (idx st), brk := (brk st)\<lparr>queues := [search_queue []]\<rparr>\<rparr>"
proof (induction ms arbitrary: st)
  case Nil
  then show ?case by (simp add: search_replay_def)
next
  case (Cons m ms)
  have "(consume True True ^^ length (m # ms)) st = (consume True True ^^ length ms) (consume True True st)"
    by (simp only: length_Cons funpow_Suc_right comp_apply)
  also have "\<dots> = (consume True True st)\<lparr>idx := search_replay ms (idx (consume True True st)),
                     brk := (brk (consume True True st))\<lparr>queues := [search_queue []]\<rparr>\<rparr>"
    by (rule Cons.IH) (simp add: consume_search_queue [OF Cons.prems])
  finally show ?case by (simp add: consume_search_queue [OF Cons.prems] search_replay_Cons)
qed

lemma drain_sys_inv:
  "sys_inv st \<Longrightarrow> drain st = st\<lparr>idx := search_replay (pending st) (idx st),
                                  brk := (brk st)\<lparr>queues := [search_queue []]\<rparr>\<rparr>"
  unfolding drain_def sys_inv_def by (blast intro: consume_funpow)

section \<open>Concrete runs\<close>

lemma create_on_init:
  "exec (Create (demo_env ConnAccepted) (Some ''u1'') demo_body) sys_init =
   sys_init\<lparr>svc := (svc sys_init)\<lparr>posts := [demo_post], next_oid := 1\<rparr>,
            brk := (brk sys_init)\<lparr>queues := [search_queue [demo_msg]]\<rparr>\<rparr>"
  by (simp add: create_post_def demo_defs sys_init_def authenticate_request_def validate_create_post_def
      content_check_def media_check_def unknown_check_def jlookup_def cast_media_def publish_event_open
      invalidate_post_cache_eq route_search_queue demo_msg_def demo_post_def search_bindings_def Let_def)

lemma reach_demo: "reach (exec (Create (demo_env ConnAccepted) (Some ''u1'') demo_body) sys_init)"
  by (rule reach_step [OF reach_init]) (simp add: demo_env_def)

lemma posts_demo: "posts (svc (exec (Create (demo_env ConnAccepted) (Some ''u1'') demo_body) sys_init)) = [demo_post]"
  unfolding create_on_init by (simp add: sys_init_def)

section \<open>Properties of the deployed system\<close>

text \<open>
  C1: eventual consistency of the search index (spec, section 8).  In every reachable
  state, once the search consumer has processed the messages pending in its queue, the
  search collection holds exactly one document per post of the post service, built from
  the post's id, author, content and time, in creation order; the post service is
  untouched by the consumer.  Redeliveries of the head message are among the steps, so
  the projection is robust to at-least-once delivery.
\<close>

theorem eventual_consistency:
  "reach st \<Longrightarrow> pending (drain st) = [] \<and> idx (drain st) = map search_entry (posts (svc st)) \<and>
                 svc (drain st) = svc st"
proof -
  assume "reach st"
  then have inv: "sys_inv st" by (rule reach_sys_inv)
  then have rep: "search_replay (pending st) (idx st) = map search_entry (posts (svc st))"
    by (simp add: sys_inv_def)
  show ?thesis
    using rep by (simp add: drain_sys_inv [OF inv] pending_def search_queue_def)
qed

theorem eventual_consistency_witness:
  "reach (exec (Create (demo_env ConnAccepted) (Some ''u1'') demo_body) sys_init) \<and>
   idx (drain (exec (Create (demo_env ConnAccepted) (Some ''u1'') demo_body) sys_init)) =
     [search_entry demo_post]"
  using reach_demo eventual_consistency [OF reach_demo] by (simp only: posts_demo list.map simp_thms)

text \<open>
  C2: read-your-writes through the cache (spec, section 8).  In every reachable state,
  with Redis and MongoDB reachable, \<open>GET /all-post\<close> answers exactly what MongoDB
  answers now, for every page and limit: every write invalidated the pages it changed.
\<close>

theorem reachable_cache_transparent:
  "reach st \<Longrightarrow> redis_up e \<Longrightarrow> mongo_up e \<Longrightarrow>
   snd (get_all_posts e qp ql (svc st)) = get_all_posts_direct e qp ql (posts (svc st))"
  using reach_sys_inv [of st] get_all_posts_transparent [of "svc st" e qp ql]
  by (simp add: sys_inv_def)

theorem reachable_cache_transparent_witness:
  "reach (exec (Create (demo_env ConnAccepted) (Some ''u1'') demo_body) sys_init) \<and>
   redis_up (demo_env ConnAccepted) \<and> mongo_up (demo_env ConnAccepted) \<and>
   snd (get_all_posts (demo_env ConnAccepted) None None
          (svc (exec (Create (demo_env ConnAccepted) (Some ''u1'') demo_body) sys_init))) =
   get_all_posts_direct (demo_env ConnAccepted) None None [demo_post]"
proof -
  have e: "redis_up (demo_env ConnAccepted)" "mongo_up (demo_env ConnAccepted)"
    by (simp_all add: demo_env_def)
  show ?thesis
    using reach_demo e reachable_cache_transparent [OF reach_demo e, of None None]
    by (simp only: posts_demo simp_thms)
qed

text \<open>
  C4: the search index never holds two documents for one post, in any reachable state
  (the unique index on \<open>postId\<close> together with the projector's handling of duplicates).
\<close>

theorem search_index_unique: "reach st \<Longrightarrow> distinct (map sp_post_id (idx st))"
  using reach_sys_inv [of st] by (simp add: sys_inv_def)

theorem search_index_unique_witness:
  "reach (exec (Create (demo_env ConnAccepted) (Some ''u1'') demo_body) sys_init) \<and>
   distinct (map sp_post_id (idx (exec (Create (demo_env ConnAccepted) (Some ''u1'') demo_body) sys_init)))"
  using reach_demo search_index_unique [OF reach_demo] by (simp only: simp_thms)

section \<open>Failure traces\<close>

text \<open>
  C6: an outage of the search database loses the event for good.  In any reachable
  state whose next message is the creation of a post that is in MongoDB, delivering it
  while the search database is down acknowledges it and changes nothing else (the
  handler's error is caught and logged).  Had it been processed, draining the queue
  would index the post; after the outage, as long as no later message creates it again,
  the drained index never holds it (the spec requires rejection with bounded
  redelivery).
\<close>

theorem search_outage_loses_post:
  assumes r: "reach st" and pm: "pending st = m # ms"
    and m: "m = \<lparr>msg_key = ''post.created'', msg_event = PostCreated (oid_str (post_oid p)) u c t\<rparr>"
    and p: "p \<in> set (posts (svc st))"
    and fresh: "oid_str (post_oid p) \<notin> set (map sp_post_id (idx st))"
    and once: "list_all (\<lambda>m. case msg_event m of PostCreated q _ _ _ \<Rightarrow> q \<noteq> oid_str (post_oid p)
                                              | PostDeleted _ _ _ \<Rightarrow> True) ms"
  shows "exec (Deliver False) st = st\<lparr>brk := (brk st)\<lparr>queues := [search_queue ms]\<rparr>\<rparr> \<and>
         oid_str (post_oid p) \<in> set (map sp_post_id (idx (drain st))) \<and>
         oid_str (post_oid p) \<notin> set (map sp_post_id (idx (drain (exec (Deliver False) st))))"
proof -
  have inv: "sys_inv st" using r by (rule reach_sys_inv)
  have q: "queues (brk st) = [search_queue (m # ms)]" using inv pm by (simp add: sys_inv_def)
  have d: "exec (Deliver False) st = st\<lparr>brk := (brk st)\<lparr>queues := [search_queue ms]\<rparr>\<rparr>"
    by (simp add: consume_search_queue [OF q] search_dispatch_down)
  define st' where "st' = st\<lparr>brk := (brk st)\<lparr>queues := [search_queue ms]\<rparr>\<rparr>"
  have q': "queues (brk st') = [search_queue ms]" by (simp add: st'_def)
  have "idx (drain st') = search_replay ms (idx st)"
    unfolding drain_def pending_search_queue [OF q'] consume_funpow [OF q'] by (simp add: st'_def)
  then have lost: "oid_str (post_oid p) \<notin> set (map sp_post_id (idx (drain (exec (Deliver False) st))))"
    using search_replay_no_create [OF fresh once] unfolding d st'_def by simp
  have "idx (drain st) = map search_entry (posts (svc st))"
    using inv by (simp add: drain_sys_inv sys_inv_def)
  then have "oid_str (post_oid p) \<in> set (map sp_post_id (idx (drain st)))"
    using p by (force simp: search_entry_def)
  with d lost show ?thesis by blast
qed

theorem search_outage_loses_post_witness:
  "oid_str (post_oid demo_post) \<in> set (map sp_post_id (idx (drain (exec (Create (demo_env ConnAccepted) (Some ''u1'') demo_body) sys_init)))) \<and>
   oid_str (post_oid demo_post) \<notin> set (map sp_post_id (idx (drain (exec (Deliver False)
                   (exec (Create (demo_env ConnAccepted) (Some ''u1'') demo_body) sys_init)))))"
proof -
  let ?st = "exec (Create (demo_env ConnAccepted) (Some ''u1'') demo_body) sys_init"
  have h: "pending ?st = demo_msg # []"
    "demo_msg = \<lparr>msg_key = ''post.created'', msg_event = PostCreated (oid_str (post_oid demo_post)) ''u1'' ''hello world'' 7\<rparr>"
    "demo_post \<in> set (posts (svc ?st))"
    "oid_str (post_oid demo_post) \<notin> set (map sp_post_id (idx ?st))"
    "list_all (\<lambda>m. case msg_event m of PostCreated q _ _ _ \<Rightarrow> q \<noteq> oid_str (post_oid demo_post)
                                    | PostDeleted _ _ _ \<Rightarrow> True) []"
    unfolding create_on_init
    by (simp_all add: pending_def search_queue_def demo_msg_def demo_post_def sys_init_def)
  show ?thesis
    using search_outage_loses_post [OF reach_demo h] by blast
qed

end
