(* ===== verification/Media.thy ===== *)
theory Media
  imports Amqp
begin

text \<open>
  The media service (\<open>src/media-service\<close>): uploads through \<open>multer\<close> to Cloudinary
  with a document per file in MongoDB (\<open>media-routes.js\<close>, \<open>media-controller.js\<close>),
  the listing of all media, and the media projector that the service subscribes to
  \<open>post.deleted\<close> (\<open>index.js\<close>, line 40).  Cloudinary (\<open>utils/cloudinary.js\<close>) and
  the projector (\<open>eventHandlers/media-event-handlers.js\<close>) are not in the repository:
  Cloudinary is a store of assets, public id to URL, that can be unreachable, and the
  projector is modelled from the spec (section 4.6): every media document the event
  references is deleted together with its asset, an asset whose deletion fails is kept
  with its document, and media already gone are skipped.  Media ids are ObjectIds, as
  in \<open>JsRuntime\<close>; fresh public ids come from a counter.
\<close>

section \<open>State\<close>

record media =
  md_id :: nat
  md_public_id :: string
  md_name :: string
  md_mime :: string
  md_url :: string
  md_user :: user_id

text \<open>\<open>req.file\<close> from \<open>multer.memoryStorage()\<close>: the form field, name, type and size.\<close>

record upload_file =
  f_field :: string
  f_name :: string
  f_mime :: string
  f_size :: nat

record media_service =
  media_docs :: "media list"
  cloud :: "(string \<times> string) list"
  next_mid :: nat
  next_asset :: nat

text \<open>
  One request's environment: MongoDB and Cloudinary reachable, and whether reading the
  multipart stream fails (a non-\<open>MulterError\<close>).
\<close>

record media_env =
  m_db_up :: bool
  cloud_up :: bool
  stream_fault :: bool

datatype media_body = MediaMsg bool string | MediaCreated nat string | MediaList "media list"

type_synonym media_response = "nat \<times> media_body"

section \<open>Upload\<close>

definition max_file_size :: nat where
  "max_file_size = 3 * 1024 * 1024"

text \<open>
  \<open>multer({limits: {fileSize}}).single('file')\<close> and its callback (lines 13--18 and
  24--52 of \<open>media-routes.js\<close>): a file larger than the limit or under another field name is a
  \<open>MulterError\<close> (400), a stream failure another error (500), no file a 400.
\<close>

definition multer_single :: "media_env \<Rightarrow> upload_file option \<Rightarrow> media_response + upload_file" where
  "multer_single e f =
     (if stream_fault e then Inl (500, MediaMsg False ''Unknown error occurred while uploading'')
      else case f of
             None \<Rightarrow> Inl (400, MediaMsg False ''No file found'')
           | Some x \<Rightarrow>
               if f_field x \<noteq> ''file'' \<or> max_file_size < f_size x
               then Inl (400, MediaMsg False ''Multer error while uploading'')
               else Inr x)"

text \<open>\<open>uploadMediaToCloudinary\<close>: a fresh asset, or a failure when Cloudinary is down.\<close>

definition cloud_upload :: "media_env \<Rightarrow> media_service \<Rightarrow> (media_service \<times> string \<times> string) option" where
  "cloud_upload e s =
     (if \<not> cloud_up e then None
      else (let pid = ''media-'' @ nat_str (next_asset s); url = ''https://res.cloudinary.com/'' @ pid
            in Some (s\<lparr>cloud := cloud s @ [(pid, url)], next_asset := Suc (next_asset s)\<rparr>, pid, url)))"

text \<open>\<open>uploadMediaController\<close> (lines 5--52).\<close>

definition upload_media_ctl ::
  "media_env \<Rightarrow> user_id \<Rightarrow> upload_file option \<Rightarrow> media_service \<Rightarrow> media_service \<times> media_response" where
  "upload_media_ctl e uid f s =
     (case f of
        None \<Rightarrow> (s, (400, MediaMsg False ''No file found. Please add a file and try again!''))
      | Some x \<Rightarrow>
          (case cloud_upload e s of
             None \<Rightarrow> (s, (500, MediaMsg False ''Error creating media''))
           | Some (s1, pid, url) \<Rightarrow>
               if \<not> m_db_up e then (s1, (500, MediaMsg False ''Error creating media''))
               else (let d = \<lparr>md_id = next_mid s1, md_public_id = pid, md_name = f_name x,
                              md_mime = f_mime x, md_url = url, md_user = uid\<rparr>
                     in (s1\<lparr>media_docs := media_docs s1 @ [d], next_mid := Suc (next_mid s1)\<rparr>,
                         (201, MediaCreated (md_id d) url)))))"

text \<open>\<open>POST /upload\<close> (lines 20--55 of \<open>media-routes.js\<close>); the 401 of the middleware.\<close>

definition upload_route ::
  "media_env \<Rightarrow> string option \<Rightarrow> upload_file option \<Rightarrow> media_service \<Rightarrow> media_service \<times> media_response" where
  "upload_route e h f s =
     (case authenticate_request h of
        None \<Rightarrow> (s, (401, MediaMsg False ''Authentication required''))
      | Some uid \<Rightarrow>
          (case multer_single e f of
             Inl r \<Rightarrow> (s, r)
           | Inr x \<Rightarrow> upload_media_ctl e uid (Some x) s))"

text \<open>\<open>getAllMediaController\<close> (lines 54--66) behind \<open>GET /get\<close> (line 57 of the routes).\<close>

definition get_all_media :: "media_env \<Rightarrow> string option \<Rightarrow> media_service \<Rightarrow> media_response" where
  "get_all_media e h s =
     (case authenticate_request h of
        None \<Rightarrow> (401, MediaMsg False ''Authentication required'')
      | Some _ \<Rightarrow>
          if \<not> m_db_up e then (500, MediaMsg False ''Error fetching all media'')
          else (200, MediaList (media_docs s)))"

section \<open>The media projector\<close>

text \<open>
  One referenced document: its asset is destroyed and then the document deleted; a
  failed destroy keeps both.
\<close>

definition delete_one_media :: "media_env \<Rightarrow> media \<Rightarrow> media_service \<Rightarrow> media_service" where
  "delete_one_media e d s =
     (if cloud_up e \<and> m_db_up e
      then s\<lparr>cloud := AList.delete (md_public_id d) (cloud s),
             media_docs := filter (\<lambda>x. md_id x \<noteq> md_id d) (media_docs s)\<rparr>
      else s)"

text \<open>
  \<open>handlePostDeleted\<close> of the media service: the documents whose ids are among the
  event's \<open>mediaIds\<close> (\<open>Media.find({_id: {$in: mediaIds}})\<close>; an id that is not an
  ObjectId fails the whole query), each in turn.
\<close>

definition handle_media_deleted :: "media_env \<Rightarrow> event \<Rightarrow> media_service \<Rightarrow> media_service" where
  "handle_media_deleted e ev s =
     (case ev of
        PostDeleted _ _ mids \<Rightarrow>
          (case those (map cast_oid mids) of
             None \<Rightarrow> s
           | Some oids \<Rightarrow>
               if \<not> m_db_up e then s
               else fold (delete_one_media e) (filter (\<lambda>d. md_id d \<in> set oids) (media_docs s)) s)
      | PostCreated _ _ _ _ \<Rightarrow> s)"

definition media_dispatch :: "media_env \<Rightarrow> message \<Rightarrow> media_service \<Rightarrow> media_service" where
  "media_dispatch e m s =
     (if topic_match ''post.deleted'' (msg_key m) then handle_media_deleted e (msg_event m) s else s)"

section \<open>The service as a state machine\<close>

datatype media_op =
    Upload media_env "string option" "upload_file option"
  | Deliver_media media_env message

fun media_exec :: "media_op \<Rightarrow> media_service \<Rightarrow> media_service" where
  "media_exec (Upload e h f) s = fst (upload_route e h f s)"
| "media_exec (Deliver_media e m) s = media_dispatch e m s"

definition media_init :: media_service where
  "media_init = \<lparr>media_docs = [], cloud = [], next_mid = 0, next_asset = 0\<rparr>"

inductive media_reach :: "media_service \<Rightarrow> bool" where
  media_reach_init: "media_reach media_init"
| media_reach_step: "media_reach s \<Longrightarrow> media_reach (media_exec a s)"

text \<open>
  Well-formedness: document ids are unique and below the generator, no two documents
  share an asset, asset ids are unique and below their generator, and every document's
  asset is stored in Cloudinary under its URL.
\<close>

definition media_wf :: "media_service \<Rightarrow> bool" where
  "media_wf s \<longleftrightarrow>
     distinct (map md_id (media_docs s)) \<and> (\<forall>d\<in>set (media_docs s). md_id d < next_mid s) \<and>
     distinct (map md_public_id (media_docs s)) \<and> distinct (map fst (cloud s)) \<and>
     (\<forall>a\<in>set (cloud s). \<exists>k < next_asset s. fst a = ''media-'' @ nat_str k) \<and>
     (\<forall>d\<in>set (media_docs s). map_of (cloud s) (md_public_id d) = Some (md_url d))"

section \<open>Concrete requests\<close>

text \<open>Both services reachable, and a PNG of \<open>n\<close> bytes under the field \<open>file\<close>.\<close>

definition media_env_up :: media_env where
  "media_env_up = \<lparr>m_db_up = True, cloud_up = True, stream_fault = False\<rparr>"

definition demo_file :: "nat \<Rightarrow> upload_file" where
  "demo_file n = \<lparr>f_field = ''file'', f_name = ''cat.png'', f_mime = ''image/png'', f_size = n\<rparr>"

section \<open>Lemmas\<close>

text \<open>
  C18: what a 201 of \<open>POST /upload\<close> means.  The request was authenticated, it carried
  one file under the field \<open>file\<close> of at most 3 MiB, Cloudinary and MongoDB were
  reachable, and exactly one asset and one document were appended: the document of the
  requester, with the file's name and type and the asset's public id and URL.
\<close>

theorem upload_route_created:
  assumes "upload_route e h f s = (s', (201, bd))"
  shows "\<exists>uid x. authenticate_request h = Some uid \<and> f = Some x \<and> f_field x = ''file'' \<and>
     f_size x \<le> max_file_size \<and> cloud_up e \<and> m_db_up e \<and>
     media_docs s' = media_docs s @ [\<lparr>md_id = next_mid s, md_public_id = ''media-'' @ nat_str (next_asset s),
        md_name = f_name x, md_mime = f_mime x,
        md_url = ''https://res.cloudinary.com/'' @ ''media-'' @ nat_str (next_asset s), md_user = uid\<rparr>] \<and>
     cloud s' = cloud s @ [(''media-'' @ nat_str (next_asset s),
                            ''https://res.cloudinary.com/'' @ ''media-'' @ nat_str (next_asset s))]"
  using assms
  by (auto simp: upload_route_def multer_single_def upload_media_ctl_def cloud_upload_def Let_def
      split: option.splits sum.splits if_splits)

lemma upload_route_ok:
  assumes "authenticate_request h = Some uid" and "\<not> stream_fault e" and "f_field x = ''file''"
    and "f_size x \<le> max_file_size" and "cloud_up e" and "m_db_up e"
  shows "fst (upload_route e h (Some x) s) =
     s\<lparr>media_docs := media_docs s @ [\<lparr>md_id = next_mid s, md_public_id = ''media-'' @ nat_str (next_asset s),
          md_name = f_name x, md_mime = f_mime x,
          md_url = ''https://res.cloudinary.com/'' @ ''media-'' @ nat_str (next_asset s), md_user = uid\<rparr>],
       cloud := cloud s @ [(''media-'' @ nat_str (next_asset s),
                            ''https://res.cloudinary.com/'' @ ''media-'' @ nat_str (next_asset s))],
       next_mid := Suc (next_mid s), next_asset := Suc (next_asset s)\<rparr>"
  using assms by (simp add: upload_route_def multer_single_def upload_media_ctl_def cloud_upload_def Let_def)

lemma delete_one_media_up:
  "cloud_up e \<Longrightarrow> m_db_up e \<Longrightarrow> delete_one_media e d s =
     s\<lparr>cloud := AList.delete (md_public_id d) (cloud s),
       media_docs := filter (\<lambda>x. md_id x \<noteq> md_id d) (media_docs s)\<rparr>"
  by (simp add: delete_one_media_def)

lemma fold_delete_one_media:
  "cloud_up e \<Longrightarrow> m_db_up e \<Longrightarrow> fold (delete_one_media e) ds s =
     s\<lparr>cloud := fold AList.delete (map md_public_id ds) (cloud s),
       media_docs := filter (\<lambda>x. md_id x \<notin> md_id ` set ds) (media_docs s)\<rparr>"
  by (induction ds arbitrary: s) (auto simp: delete_one_media_up intro: filter_cong)

lemma fold_delete_one_media_down:
  "\<not> (cloud_up e \<and> m_db_up e) \<Longrightarrow> fold (delete_one_media e) ds s = s"
  by (induction ds arbitrary: s) (auto simp: delete_one_media_def)


lemma handle_media_deleted_up:
  assumes "those (map cast_oid mids) = Some oids" and "cloud_up e" and "m_db_up e"
  shows "handle_media_deleted e (PostDeleted p u mids) s =
     s\<lparr>cloud := fold AList.delete (map md_public_id (filter (\<lambda>d. md_id d \<in> set oids) (media_docs s))) (cloud s),
       media_docs := filter (\<lambda>x. md_id x \<notin> set oids) (media_docs s)\<rparr>"
proof -
  have "filter (\<lambda>x. md_id x \<notin> md_id ` {y \<in> set (media_docs s). md_id y \<in> set oids}) (media_docs s) =
        filter (\<lambda>x. md_id x \<notin> set oids) (media_docs s)"
    by (rule filter_cong) auto
  then show ?thesis using assms by (simp add: handle_media_deleted_def fold_delete_one_media)
qed

lemma media_wf_cloud_upload:
  assumes wf: "media_wf s" and c: "cloud_upload e s = Some (s1, pid, url)"
  shows "media_wf s1 \<and> pid \<notin> md_public_id ` set (media_docs s) \<and> map_of (cloud s1) pid = Some url \<and>
         media_docs s1 = media_docs s \<and> next_mid s1 = next_mid s"
proof -
  have s1: "s1 = s\<lparr>cloud := cloud s @ [(pid, url)], next_asset := Suc (next_asset s)\<rparr>"
    and pid: "pid = ''media-'' @ nat_str (next_asset s)"
    using c by (auto simp: cloud_upload_def Let_def split: if_splits)
  have fresh: "pid \<notin> fst ` set (cloud s)"
    using wf by (auto simp: media_wf_def pid nat_str_inj)
  have nodoc: "pid \<notin> md_public_id ` set (media_docs s)"
    using wf fresh by (force simp: media_wf_def dest: map_of_SomeD)
  have "media_wf s1"
    using wf fresh nodoc unfolding media_wf_def s1
    by (auto simp: less_Suc_eq map_of_snoc_fresh pid)
  then show ?thesis using nodoc map_of_snoc_new [OF fresh] by (simp add: s1 del: map_of_append)
qed


lemma media_wf_upload_ctl:
  assumes wf: "media_wf s"
  shows "media_wf (fst (upload_media_ctl e uid f s))"
proof (cases "f = None \<or> cloud_upload e s = None")
  case True
  with wf show ?thesis by (auto simp: upload_media_ctl_def split: option.splits)
next
  case False
  then obtain x s1 pid url where f: "f = Some x" and c: "cloud_upload e s = Some (s1, pid, url)"
    by auto
  note u = media_wf_cloud_upload [OF wf c]
  have "media_wf (s1\<lparr>media_docs := media_docs s1 @ [\<lparr>md_id = next_mid s1, md_public_id = pid,
          md_name = f_name x, md_mime = f_mime x, md_url = url, md_user = uid\<rparr>],
          next_mid := Suc (next_mid s1)\<rparr>)"
    using u wf by (auto simp: media_wf_def less_Suc_eq)
  then show ?thesis using u by (simp add: upload_media_ctl_def f c Let_def)
qed

lemma media_wf_upload: "media_wf s \<Longrightarrow> media_wf (fst (upload_route e h f s))"
  by (auto simp: upload_route_def intro: media_wf_upload_ctl split: option.splits sum.splits)

lemma media_wf_deleted:
  assumes wf: "media_wf s"
  shows "media_wf (handle_media_deleted e ev s)"
proof -
  have "media_wf (s\<lparr>cloud := fold AList.delete (map md_public_id (filter (\<lambda>d. md_id d \<in> set oids) (media_docs s))) (cloud s),
       media_docs := filter (\<lambda>x. md_id x \<notin> set oids) (media_docs s)\<rparr>)" for oids
  proof -
    let ?del = "md_public_id ` {d \<in> set (media_docs s). md_id d \<in> set oids}"
    have keep: "md_public_id d \<notin> ?del" if "d \<in> set (media_docs s)" "md_id d \<notin> set oids" for d
      using wf that by (auto simp: media_wf_def distinct_map inj_on_def)
    show ?thesis
      using wf keep unfolding media_wf_def
      by (auto simp: fold_delete_filter map_of_filter_keys [of "\<lambda>k. k \<notin> ?del", simplified]
          distinct_map_filter distinct_map_fst_filter)
  qed
  note up = this
  show ?thesis
  proof (cases "\<exists>p u mids oids. ev = PostDeleted p u mids \<and> those (map cast_oid mids) = Some oids \<and>
                 cloud_up e \<and> m_db_up e")
    case True
    then obtain p u mids oids where "ev = PostDeleted p u mids" "those (map cast_oid mids) = Some oids"
      "cloud_up e" "m_db_up e" by blast
    then show ?thesis using up by (simp add: handle_media_deleted_up)
  next
    case False
    then have "handle_media_deleted e ev s = s"
      by (auto simp: handle_media_deleted_def fold_delete_one_media_down split: event.splits option.splits)
    with wf show ?thesis by simp
  qed
qed


lemma media_wf_exec: "media_wf s \<Longrightarrow> media_wf (media_exec a s)"
  by (cases a) (simp_all add: media_wf_upload media_dispatch_def media_wf_deleted)

text \<open>
  C16: in every state reachable by uploads and deliveries, media ids are unique, no two
  documents share an asset, and every document's asset is stored in Cloudinary under the
  document's URL: no listed media is dangling.
\<close>

theorem media_reach_wf: "media_reach s \<Longrightarrow> media_wf s"
proof (induction rule: media_reach.induct)
  case media_reach_init
  show ?case by (simp add: media_wf_def media_init_def)
next
  case (media_reach_step s a)
  then show ?case by (simp add: media_wf_exec)
qed

lemma upload_demo:
  "upload_route media_env_up (Some ''u1'') (Some (demo_file 3145728)) media_init =
   (\<lparr>media_docs = [\<lparr>md_id = 0, md_public_id = ''media-0'', md_name = ''cat.png'',
       md_mime = ''image/png'', md_url = ''https://res.cloudinary.com/media-0'',
       md_user = ''u1''\<rparr>],
     cloud = [(''media-0'', ''https://res.cloudinary.com/media-0'')],
     next_mid = 1, next_asset = 1\<rparr>,
    (201, MediaCreated 0 (''https://res.cloudinary.com/media-0'')))"
  by (simp add: upload_route_def authenticate_request_def multer_single_def media_env_up_def demo_file_def max_file_size_def nat_str_0
      upload_media_ctl_def cloud_upload_def media_init_def Let_def)

text \<open>
  The upload limit is exactly 3 MiB: a file of 3145728 bytes is stored and
  answered 201, one byte more is a \<open>MulterError\<close> answered 400 with the state unchanged.
\<close>

theorem upload_size_boundary:
  "fst (snd (upload_route media_env_up (Some ''u1'') (Some (demo_file 3145728)) media_init)) = 201 \<and>
   upload_route media_env_up (Some ''u1'') (Some (demo_file 3145729)) media_init =
     (media_init, (400, MediaMsg False ''Multer error while uploading''))"
  by (simp add: upload_demo) (simp add: upload_route_def authenticate_request_def multer_single_def
      media_env_up_def demo_file_def max_file_size_def)

lemma cloud_upload_fresh:
  "media_wf s \<Longrightarrow> cloud_upload e s = Some (s1, pid, url) \<Longrightarrow>
   pid \<notin> fst ` set (cloud s) \<and> cloud s1 = cloud s @ [(pid, url)] \<and> media_docs s1 = media_docs s"
  by (auto simp: cloud_upload_def media_wf_def nat_str_inj Let_def split: if_splits)

lemma upload_route_effect:
  "fst (upload_route e h f s) = s \<or>
   (\<exists>s1 pid url. cloud_upload e s = Some (s1, pid, url) \<and>
      (fst (upload_route e h f s) = s1 \<or>
       (\<exists>d. fst (upload_route e h f s) = s1\<lparr>media_docs := media_docs s1 @ [d], next_mid := Suc (next_mid s1)\<rparr> \<and>
            md_public_id d = pid)))"
  by (auto simp: upload_route_def upload_media_ctl_def Let_def split: option.splits sum.splits)

lemma handle_media_deleted_effect:
  "handle_media_deleted e ev s = s \<or>
   (\<exists>oids. handle_media_deleted e ev s =
      s\<lparr>cloud := fold AList.delete (map md_public_id (filter (\<lambda>d. md_id d \<in> set oids) (media_docs s))) (cloud s),
        media_docs := filter (\<lambda>x. md_id x \<notin> set oids) (media_docs s)\<rparr>)"
proof (cases "\<exists>p u mids oids. ev = PostDeleted p u mids \<and> those (map cast_oid mids) = Some oids \<and>
               cloud_up e \<and> m_db_up e")
  case True
  then obtain p u mids oids where "ev = PostDeleted p u mids" "those (map cast_oid mids) = Some oids"
    "cloud_up e" "m_db_up e" by blast
  then show ?thesis by (auto simp: handle_media_deleted_up)
next
  case False
  then have "handle_media_deleted e ev s = s"
    by (auto simp: handle_media_deleted_def fold_delete_one_media_down split: event.splits option.splits)
  then show ?thesis by simp
qed

lemma fst_set_fold_delete:
  "k \<in> fst ` set (fold AList.delete ks al) \<longleftrightarrow> k \<in> fst ` set al \<and> k \<notin> set ks"
  by (force simp: in_set_fold_delete)

text \<open>An asset that no document references stays so under every operation.\<close>

lemma media_exec_orphan:
  assumes wf: "media_wf s" and c: "pid \<in> fst ` set (cloud s)" and d: "pid \<notin> md_public_id ` set (media_docs s)"
  shows "pid \<in> fst ` set (cloud (media_exec a s)) \<and> pid \<notin> md_public_id ` set (media_docs (media_exec a s))"
proof (cases a)
  case (Upload e h f)
  consider "fst (upload_route e h f s) = s"
    | s1 pid' url where "cloud_upload e s = Some (s1, pid', url)" "fst (upload_route e h f s) = s1"
    | s1 pid' url dd where "cloud_upload e s = Some (s1, pid', url)"
        "fst (upload_route e h f s) = s1\<lparr>media_docs := media_docs s1 @ [dd], next_mid := Suc (next_mid s1)\<rparr>"
        "md_public_id dd = pid'"
    using upload_route_effect [of e h f s] by blast
  then show ?thesis
  proof cases
    case 1
    then show ?thesis using Upload c d by simp
  next
    case 2
    then show ?thesis using Upload c d cloud_upload_fresh [OF wf 2(1)] by auto
  next
    case 3
    then show ?thesis using Upload c d cloud_upload_fresh [OF wf 3(1)] by force
  qed
next
  case (Deliver_media e m)
  show ?thesis
  proof (cases "topic_match ''post.deleted'' (msg_key m)")
    case True
    then show ?thesis
      using handle_media_deleted_effect [of e "msg_event m" s]
    proof (elim disjE exE)
      assume "handle_media_deleted e (msg_event m) s = s"
      then show ?thesis using Deliver_media True c d by (simp add: media_dispatch_def)
    next
      fix oids
      assume "handle_media_deleted e (msg_event m) s =
        s\<lparr>cloud := fold AList.delete (map md_public_id (filter (\<lambda>d. md_id d \<in> set oids) (media_docs s))) (cloud s),
          media_docs := filter (\<lambda>x. md_id x \<notin> set oids) (media_docs s)\<rparr>"
      then show ?thesis using Deliver_media True c d by (auto simp: media_dispatch_def fst_set_fold_delete)
    qed
  next
    case False
    then show ?thesis using Deliver_media c d by (simp add: media_dispatch_def)
  qed
qed

lemma fold_media_exec_orphan:
  "media_wf s \<Longrightarrow> pid \<in> fst ` set (cloud s) \<Longrightarrow> pid \<notin> md_public_id ` set (media_docs s) \<Longrightarrow>
   pid \<in> fst ` set (cloud (fold media_exec ops s)) \<and> pid \<notin> md_public_id ` set (media_docs (fold media_exec ops s))"
  by (induction ops arbitrary: s) (simp_all add: media_exec_orphan media_wf_exec)

text \<open>
  C19: an asset orphaned by a failed save stays orphaned forever.  In any reachable state,
  when MongoDB fails after the Cloudinary upload, \<open>uploadMediaController\<close> answers
  500 but the asset stays in Cloudinary with no document referencing it; whatever uploads
  and deliveries follow, the asset is still stored and still unreferenced: nothing ever
  deletes it (the projector deletes only the assets of documents).
\<close>

theorem upload_orphans_asset:
  assumes r: "media_reach s" and ok: "authenticate_request h = Some uid" "\<not> stream_fault e" "f_field x = ''file''"
    "f_size x \<le> max_file_size" and up: "cloud_up e" and dn: "\<not> m_db_up e"
  shows "snd (upload_route e h (Some x) s) = (500, MediaMsg False ''Error creating media'') \<and>
         ''media-'' @ nat_str (next_asset s) \<in> fst ` set (cloud (fold media_exec ops (fst (upload_route e h (Some x) s)))) \<and>
         ''media-'' @ nat_str (next_asset s) \<notin>
           md_public_id ` set (media_docs (fold media_exec ops (fst (upload_route e h (Some x) s))))"
proof -
  let ?pid = "''media-'' @ nat_str (next_asset s)"
  let ?url = "''https://res.cloudinary.com/'' @ ?pid"
  have wf: "media_wf s" using r by (rule media_reach_wf)
  have cu: "cloud_upload e s = Some (s\<lparr>cloud := cloud s @ [(?pid, ?url)], next_asset := Suc (next_asset s)\<rparr>, ?pid, ?url)"
    using up by (simp add: cloud_upload_def Let_def)
  have u: "upload_route e h (Some x) s =
      (s\<lparr>cloud := cloud s @ [(?pid, ?url)], next_asset := Suc (next_asset s)\<rparr>, (500, MediaMsg False ''Error creating media''))"
    using ok dn cu by (simp add: upload_route_def multer_single_def upload_media_ctl_def)
  have wf1: "media_wf (fst (upload_route e h (Some x) s))"
    by (rule media_wf_upload [OF wf])
  have "?pid \<notin> md_public_id ` set (media_docs s)"
    using media_wf_cloud_upload [OF wf cu] by blast
  then have o: "?pid \<in> fst ` set (cloud (fst (upload_route e h (Some x) s)))"
    "?pid \<notin> md_public_id ` set (media_docs (fst (upload_route e h (Some x) s)))"
    by (simp_all add: u)
  show ?thesis
    using fold_media_exec_orphan [OF wf1 o, of ops] u by simp
qed

theorem upload_orphans_asset_witness:
  "snd (upload_route (media_env_up\<lparr>m_db_up := False\<rparr>) (Some ''u1'') (Some (demo_file 1024)) media_init) =
     (500, MediaMsg False ''Error creating media'') \<and>
   ''media-'' @ nat_str (next_asset media_init) \<in> fst ` set (cloud (fold media_exec
     [Upload media_env_up (Some ''u2'') (Some (demo_file 10)),
      Deliver_media media_env_up \<lparr>msg_key = ''post.deleted'', msg_event = PostDeleted ''p1'' ''u1'' [oid_str 0]\<rparr>]
     (fst (upload_route (media_env_up\<lparr>m_db_up := False\<rparr>) (Some ''u1'') (Some (demo_file 1024)) media_init))))"
proof -
  have h: "media_reach media_init" "authenticate_request (Some ''u1'') = Some ''u1''"
    "\<not> stream_fault (media_env_up\<lparr>m_db_up := False\<rparr>)" "f_field (demo_file 1024) = ''file''"
    "f_size (demo_file 1024) \<le> max_file_size" "cloud_up (media_env_up\<lparr>m_db_up := False\<rparr>)"
    "\<not> m_db_up (media_env_up\<lparr>m_db_up := False\<rparr>)"
    by (simp_all add: media_reach_init authenticate_request_def media_env_up_def demo_file_def max_file_size_def)
  show ?thesis using upload_orphans_asset [OF h] by blast
qed

text \<open>
  C10: the projector reclaims exactly the referenced media.  On a \<open>post.deleted\<close>
  whose media ids are ObjectIds, with both stores up, the referenced documents are
  deleted and their assets gone from Cloudinary, every other document keeps its asset,
  and a redelivery finds nothing left to delete.
\<close>

theorem handle_media_deleted_reclaims:
  assumes "those (map cast_oid mids) = Some oids" and "cloud_up e" and "m_db_up e" and wf: "media_wf s"
    and s': "s' = handle_media_deleted e (PostDeleted p u mids) s"
  shows "media_docs s' = filter (\<lambda>d. md_id d \<notin> set oids) (media_docs s) \<and>
         list_all (\<lambda>d. md_id d \<in> set oids \<longrightarrow> map_of (cloud s') (md_public_id d) = None) (media_docs s) \<and>
         list_all (\<lambda>d. md_id d \<notin> set oids \<longrightarrow> map_of (cloud s') (md_public_id d) = Some (md_url d)) (media_docs s) \<and>
         filter (\<lambda>d. md_id d \<in> set oids) (media_docs s') = []"
proof -
  let ?gone = "md_public_id ` {d \<in> set (media_docs s). md_id d \<in> set oids}"
  have c: "cloud s' = filter (\<lambda>a. fst a \<notin> ?gone) (cloud s)"
    and m: "media_docs s' = filter (\<lambda>x. md_id x \<notin> set oids) (media_docs s)"
    using assms by (simp_all add: handle_media_deleted_up fold_delete_filter)
  have keep: "md_public_id d \<notin> ?gone" if "d \<in> set (media_docs s)" "md_id d \<notin> set oids" for d
    using wf that by (auto simp: media_wf_def distinct_map inj_on_def)
  have "map_of (cloud s') k = (if k \<notin> ?gone then map_of (cloud s) k else None)" for k
    unfolding c by (rule map_of_filter_keys)
  then show ?thesis
    using wf keep by (auto simp: m list_all_iff media_wf_def)
qed


theorem handle_media_deleted_reclaims_witness:
  "those (map cast_oid [oid_str 0]) = Some [0] \<and> cloud_up media_env_up \<and> m_db_up media_env_up \<and>
   media_wf (fst (upload_route media_env_up (Some ''u1'') (Some (demo_file 3145728)) media_init)) \<and>
   handle_media_deleted media_env_up (PostDeleted ''p1'' ''u1'' [oid_str 0])
      (fst (upload_route media_env_up (Some ''u1'') (Some (demo_file 3145728)) media_init)) =
     media_init\<lparr>next_mid := 1, next_asset := 1\<rparr>"
proof -
  let ?s = "fst (upload_route media_env_up (Some ''u1'') (Some (demo_file 3145728)) media_init)"
  have h: "those (map cast_oid [oid_str 0]) = Some [0]" "cloud_up media_env_up" "m_db_up media_env_up"
    "media_wf ?s"
    by (simp_all add: upload_demo media_wf_def cast_oid_def oid_str_length oid_str_value nat_str_0)
      (simp_all add: media_env_up_def)
  note r = handle_media_deleted_reclaims [OF h refl, of "''p1''" "''u1''"]
  have e: "handle_media_deleted media_env_up (PostDeleted ''p1'' ''u1'' [oid_str 0]) ?s =
    media_init\<lparr>next_mid := 1, next_asset := 1\<rparr>"
    using handle_media_deleted_up [OF h(1-3)] unfolding upload_demo by (simp add: media_init_def)
  show ?thesis
    using r h e by simp
qed

theorem upload_route_created_witness:
  "upload_route media_env_up (Some ''u1'') (Some (demo_file 3145728)) media_init =
     (fst (upload_route media_env_up (Some ''u1'') (Some (demo_file 3145728)) media_init),
      (201, MediaCreated 0 ''https://res.cloudinary.com/media-0'')) \<and>
   f_size (demo_file 3145728) \<le> max_file_size"
  using upload_route_created [OF upload_demo] unfolding upload_demo by (simp add: demo_file_def)

theorem media_reach_wf_witness:
  "media_reach (fst (upload_route media_env_up (Some ''u1'') (Some (demo_file 3145728)) media_init)) \<and>
   media_wf (fst (upload_route media_env_up (Some ''u1'') (Some (demo_file 3145728)) media_init))"
proof -
  have r: "media_reach (fst (upload_route media_env_up (Some ''u1'') (Some (demo_file 3145728)) media_init))"
    using media_reach_step [OF media_reach_init, of "Upload media_env_up (Some ''u1'') (Some (demo_file 3145728))"]
    by simp
  show ?thesis using r media_reach_wf [OF r] by simp
qed

text \<open>
  C33: \<open>GET /get\<close> lists every user's media.  After any authenticated user's
  successful upload, the listing answered to any authenticated user, another one
  included, is the whole collection with the new document, URL and owner included.
\<close>

theorem get_all_media_any_user:
  assumes "authenticate_request h1 = Some u1" and "authenticate_request h2 = Some u2"
    and "\<not> stream_fault e" and "f_field x = ''file''" and "f_size x \<le> max_file_size"
    and "cloud_up e" and "m_db_up e" and "m_db_up e'"
  shows "get_all_media e' h2 (fst (upload_route e h1 (Some x) s)) =
           (200, MediaList (media_docs s @ [\<lparr>md_id = next_mid s, md_public_id = ''media-'' @ nat_str (next_asset s),
              md_name = f_name x, md_mime = f_mime x,
              md_url = ''https://res.cloudinary.com/'' @ ''media-'' @ nat_str (next_asset s), md_user = u1\<rparr>]))"
  using assms by (simp add: upload_route_ok get_all_media_def)

theorem get_all_media_any_user_witness:
  "get_all_media media_env_up (Some ''u2'')
     (fst (upload_route media_env_up (Some ''u1'') (Some (demo_file 3145728)) media_init)) =
   (200, MediaList [\<lparr>md_id = 0, md_public_id = ''media-'' @ nat_str 0, md_name = ''cat.png'', md_mime = ''image/png'',
      md_url = ''https://res.cloudinary.com/'' @ ''media-'' @ nat_str 0, md_user = ''u1''\<rparr>])"
proof -
  have h: "authenticate_request (Some ''u1'') = Some ''u1''" "authenticate_request (Some ''u2'') = Some ''u2''"
    "\<not> stream_fault media_env_up" "f_field (demo_file 3145728) = ''file''"
    "f_size (demo_file 3145728) \<le> max_file_size" "cloud_up media_env_up" "m_db_up media_env_up"
    "m_db_up media_env_up"
    by (simp_all add: authenticate_request_def media_env_up_def demo_file_def max_file_size_def)
  show ?thesis using get_all_media_any_user [OF h, of media_init] by (simp add: media_init_def demo_file_def)
qed

end
