(* ===== verification/Deployment.thy ===== *)
theory Deployment
  imports System Media
begin

text \<open>
  The deployment with the media service beside the search service.  The broker holds two
  queues: the search service's (first, as in \<open>System\<close>) and the media service's, bound to
  \<open>post.deleted\<close> only (\<open>media-service/src/index.js\<close>, line 40).  A state is the
  state of \<open>System\<close> and the media service's; an operation is an operation of
  \<open>System\<close>, an upload through the media routes, or the delivery of the head message of
  the media queue to the media projector, acknowledged or not.
\<close>

section \<open>The deployment\<close>

definition media_queue_name :: string where
  "media_queue_name = ''media_service_queue''"

definition media_bindings :: "string list" where
  "media_bindings = [''post.deleted'']"

definition media_queue :: "message list \<Rightarrow> queue" where
  "media_queue ms = \<lparr>q_name = media_queue_name, q_bindings = media_bindings, q_msgs = ms\<rparr>"

record deployment =
  core :: sys
  msvc :: media_service

text \<open>
  The media consumer: the first message of the second queue goes to
  \<open>media_dispatch\<close>; with \<open>ack\<close> it leaves the queue, without it it stays for
  redelivery.
\<close>

definition media_consume :: "media_env \<Rightarrow> bool \<Rightarrow> deployment \<Rightarrow> deployment" where
  "media_consume em ack d =
     (case queues (brk (core d)) of
        q0 # q # qs \<Rightarrow>
          (case q_msgs q of
             [] \<Rightarrow> d
           | m # ms \<Rightarrow>
               d\<lparr>msvc := media_dispatch em m (msvc d),
                 core := (core d)\<lparr>brk := (brk (core d))\<lparr>queues :=
                   q0 # (if ack then q\<lparr>q_msgs := ms\<rparr> else q) # qs\<rparr>\<rparr>\<rparr>)
      | _ \<Rightarrow> d)"

text \<open>The messages waiting in the media queue.\<close>

definition media_pending :: "deployment \<Rightarrow> message list" where
  "media_pending d = (case queues (brk (core d)) of _ # q # _ \<Rightarrow> q_msgs q | _ \<Rightarrow> [])"

datatype dep_op =
    PostSide sys_op
  | MediaUpload media_env "string option" "upload_file option"
  | MediaDeliver media_env bool

fun dep_exec :: "dep_op \<Rightarrow> deployment \<Rightarrow> deployment" where
  "dep_exec (PostSide a) d = d\<lparr>core := exec a (core d)\<rparr>"
| "dep_exec (MediaUpload e h f) d = d\<lparr>msvc := media_exec (Upload e h f) (msvc d)\<rparr>"
| "dep_exec (MediaDeliver e ack) d = media_consume e ack d"

definition dep_init :: deployment where
  "dep_init = \<lparr>core = sys_init\<lparr>brk := \<lparr>exchange_declared = True,
                                        queues = [search_queue [], media_queue []]\<rparr>\<rparr>,
               msvc = media_init\<rparr>"

section \<open>A concrete deployment\<close>

text \<open>
  A deployment after two uploads by \<open>u1\<close> and a post that references both media
  (the media scenario of the specification, section 8): the two media documents, the
  post and the state.
\<close>

definition scenario_doc :: "nat \<Rightarrow> media" where
  "scenario_doc k = \<lparr>md_id = k, md_public_id = ''media-'' @ nat_str k, md_name = ''cat.png'',
     md_mime = ''image/png'', md_url = ''https://res.cloudinary.com/'' @ ''media-'' @ nat_str k,
     md_user = ''u1''\<rparr>"

definition scenario_post :: post where
  "scenario_post = \<lparr>post_oid = 0, post_user = ''u1'', post_content = ''hello world'',
     post_media = [oid_str 0, oid_str 1], post_created = 7\<rparr>"

definition scenario_state :: deployment where
  "scenario_state =
     \<lparr>core = sys_init\<lparr>svc := (svc sys_init)\<lparr>posts := [scenario_post], next_oid := 1\<rparr>,
                      brk := \<lparr>exchange_declared = True,
                             queues = [search_queue [\<lparr>msg_key = ''post.created'',
                               msg_event = PostCreated (oid_str 0) ''u1'' ''hello world'' 7\<rparr>], media_queue []]\<rparr>\<rparr>,
      msvc = \<lparr>media_docs = [scenario_doc 0, scenario_doc 1],
              cloud = map (\<lambda>d. (md_public_id d, md_url d)) [scenario_doc 0, scenario_doc 1],
              next_mid = 2, next_asset = 2\<rparr>\<rparr>"

section \<open>Lemmas\<close>

lemma delete_post_publishes:
  assumes "channel (amqp s) = Some ChanOpen" and "exchange_declared b" and "mongo_up e" and "redis_up e"
    and "cast_oid pid = Some oid" and "find_post (posts s) oid = Some p"
  shows "posts (fst (delete_post e u pid s b)) = filter (\<lambda>q. post_oid q \<noteq> oid) (posts s) \<and>
         fst (snd (delete_post e u pid s b)) =
           b\<lparr>queues := route \<lparr>msg_key = ''post.deleted'',
                               msg_event = PostDeleted (oid_str (post_oid p)) u (post_media p)\<rparr> (queues b)\<rparr>"
  using assms invalidate_post_cache_total [of pid "cache s"]
  by (auto simp: delete_post_def Let_def publish_event_open split: sum.splits)

lemma route_deployment_deleted:
  "route \<lparr>msg_key = ''post.deleted'', msg_event = ev\<rparr> [search_queue ms, media_queue mq] =
   [search_queue (ms @ [\<lparr>msg_key = ''post.deleted'', msg_event = ev\<rparr>]),
    media_queue (mq @ [\<lparr>msg_key = ''post.deleted'', msg_event = ev\<rparr>])]"
  by (simp add: route_def search_queue_def media_queue_def search_bindings_def media_bindings_def
      topic_match_post_created topic_match_post_deleted)

lemma those_cast_oid_oid_str:
  "list_all (\<lambda>n. n < 16 ^ 24) ns \<Longrightarrow> those (map cast_oid (map oid_str ns)) = Some ns"
  by (induction ns) (simp_all add: cast_oid_def oid_str_length oid_str_value)

text \<open>
  C9: a post's deletion reclaims its media across the services.  When the post service
  deletes a post whose media ids are the ObjectIds of uploaded media, with its stores and
  the broker up, and the media service then consumes the \<open>post.deleted\<close> message
  routed to its queue with Cloudinary and MongoDB up, the post is gone, every referenced
  media document is deleted and its asset is no longer in Cloudinary, and no other
  document is touched.
\<close>

theorem post_delete_reclaims_media:
  assumes ch: "channel (amqp (svc (core d))) = Some ChanOpen" and ex: "exchange_declared (brk (core d))"
    and q: "queues (brk (core d)) = [search_queue ms, media_queue []]"
    and e: "mongo_up e" "redis_up e" and u: "u \<noteq> []"
    and f: "cast_oid pid = Some oid" "find_post (posts (svc (core d))) oid = Some p"
    and pm: "post_media p = map oid_str mids" "list_all (\<lambda>n. n < 16 ^ 24) mids"
    and em: "cloud_up em" "m_db_up em"
    and d': "d' = fold dep_exec [PostSide (Delete e (Some u) pid), MediaDeliver em True] d"
  shows "posts (svc (core d')) = filter (\<lambda>q. post_oid q \<noteq> oid) (posts (svc (core d))) \<and>
         media_docs (msvc d') = filter (\<lambda>x. md_id x \<notin> set mids) (media_docs (msvc d)) \<and>
         list_all (\<lambda>x. md_id x \<in> set mids \<longrightarrow> map_of (cloud (msvc d')) (md_public_id x) = None)
           (media_docs (msvc d))"
proof -
  obtain s1 b1 r where dp: "delete_post e u pid (svc (core d)) (brk (core d)) = (s1, b1, r)"
    by (metis prod_cases3)
  let ?m = "\<lparr>msg_key = ''post.deleted'', msg_event = PostDeleted (oid_str (post_oid p)) u (post_media p)\<rparr>"
  have ps: "posts s1 = filter (\<lambda>q. post_oid q \<noteq> oid) (posts (svc (core d)))"
    and b1: "b1 = (brk (core d))\<lparr>queues := [search_queue (ms @ [?m]), media_queue [?m]]\<rparr>"
    using delete_post_publishes [OF ch ex e f, of u] dp q by (simp_all add: route_deployment_deleted)
  have step1: "dep_exec (PostSide (Delete e (Some u) pid)) d = d\<lparr>core := (core d)\<lparr>svc := s1, brk := b1\<rparr>\<rparr>"
    using u dp by (simp add: authenticate_request_def)
  have th: "those (map cast_oid (post_media p)) = Some mids"
    using those_cast_oid_oid_str [OF pm(2)] by (simp add: pm(1))
  have "d' = media_consume em True (d\<lparr>core := (core d)\<lparr>svc := s1, brk := b1\<rparr>\<rparr>)"
    unfolding d' by (simp del: dep_exec.simps(1) add: step1)
  then have step2: "msvc d' = handle_media_deleted em (msg_event ?m) (msvc d)"
    and core': "svc (core d') = s1"
    using b1 by (simp_all add: media_consume_def media_queue_def media_dispatch_def topic_match_post_deleted)
  let ?gone = "md_public_id ` {x \<in> set (media_docs (msvc d)). md_id x \<in> set mids}"
  have m: "media_docs (msvc d') = filter (\<lambda>x. md_id x \<notin> set mids) (media_docs (msvc d))"
    and c: "cloud (msvc d') = filter (\<lambda>a. fst a \<notin> ?gone) (cloud (msvc d))"
    using step2 th em by (simp_all add: handle_media_deleted_up fold_delete_filter)
  have "map_of (cloud (msvc d')) k = (if k \<notin> ?gone then map_of (cloud (msvc d)) k else None)" for k
    unfolding c by (rule map_of_filter_keys)
  then show ?thesis using ps core' m by (auto simp: list_all_iff)
qed

theorem post_delete_reclaims_media_witness:
  "channel (amqp (svc (core scenario_state))) = Some ChanOpen \<and> exchange_declared (brk (core scenario_state)) \<and>
   queues (brk (core scenario_state)) =
     [search_queue [\<lparr>msg_key = ''post.created'', msg_event = PostCreated (oid_str 0) ''u1'' ''hello world'' 7\<rparr>],
      media_queue []] \<and>
   mongo_up (demo_env ConnAccepted) \<and> redis_up (demo_env ConnAccepted) \<and> ''u1'' \<noteq> [] \<and>
   cast_oid (oid_str 0) = Some 0 \<and> find_post (posts (svc (core scenario_state))) 0 = Some scenario_post \<and>
   post_media scenario_post = map oid_str [0, 1] \<and> list_all (\<lambda>n. n < 16 ^ 24) [0, 1::nat] \<and>
   cloud_up media_env_up \<and> m_db_up media_env_up \<and>
   media_docs (msvc (fold dep_exec [PostSide (Delete (demo_env ConnAccepted) (Some ''u1'') (oid_str 0)),
                                   MediaDeliver media_env_up True] scenario_state)) = []"
proof -
  have h: "channel (amqp (svc (core scenario_state))) = Some ChanOpen" "exchange_declared (brk (core scenario_state))"
    "queues (brk (core scenario_state)) =
     [search_queue [\<lparr>msg_key = ''post.created'', msg_event = PostCreated (oid_str 0) ''u1'' ''hello world'' 7\<rparr>],
      media_queue []]"
    "mongo_up (demo_env ConnAccepted)" "redis_up (demo_env ConnAccepted)" "''u1'' \<noteq> []"
    "cast_oid (oid_str 0) = Some 0" "find_post (posts (svc (core scenario_state))) 0 = Some scenario_post"
    "post_media scenario_post = map oid_str [0, 1]" "list_all (\<lambda>n. n < 16 ^ 24) [0, 1::nat]"
    "cloud_up media_env_up" "m_db_up media_env_up"
    by (simp_all add: scenario_state_def sys_init_def demo_env_def cast_oid_def oid_str_length oid_str_value
        find_post_def scenario_post_def media_env_up_def)
  note r = post_delete_reclaims_media [OF h refl]
  have "media_docs (msvc scenario_state) = [scenario_doc 0, scenario_doc 1]"
    by (simp add: scenario_state_def)
  then show ?thesis using h r by (simp add: scenario_doc_def)
qed

end
