(* ===== verification/Bootstrap.thy ===== *)
theory Bootstrap
  imports Deployment
begin

text \<open>
  Starting the deployment: the \<open>startServer\<close> functions of the post service
  (\<open>post-service/src/index.js\<close>, lines 44--55), the search service
  (\<open>search-service/src/index.js\<close>, lines 48--63) and the media service
  (\<open>media-service/src/index.js\<close>, lines 35--49), each on a fresh broker answer.
  The post service's \<open>connectToRabbitMQ\<close> catches every error, so its
  \<open>startServer\<close> always reaches \<open>app.listen\<close>.  The search and media services'
  \<open>rabbitmq.js\<close> is not in the repository: as the specification requires (section 4.1),
  a failed connection makes \<open>consumeEvent\<close> throw, the \<open>catch\<close> of \<open>startServer\<close>
  calls \<open>process.exit(1)\<close> and the service does not listen; a successful one declares
  the service's queue with the bindings of its \<open>consumeEvent\<close> calls.  The Boolean of
  each start is whether the service listens.
\<close>

section \<open>The three startServer functions\<close>

definition post_start_server :: "conn_outcome \<Rightarrow> broker \<Rightarrow> post_service \<times> broker \<times> bool" where
  "post_start_server out b =
     (let (c, b', _) = connect_to_rabbitmq out client_init b
      in (\<lparr>posts = [], cache = [], amqp = c, next_oid = 0\<rparr>, b', True))"

definition search_start_server :: "conn_outcome \<Rightarrow> broker \<Rightarrow> broker \<times> bool" where
  "search_start_server out b =
     (if out = ConnAccepted
      then (b\<lparr>exchange_declared := True, queues := queues b @ [search_queue []]\<rparr>, True)
      else (b, False))"

definition media_start_server :: "conn_outcome \<Rightarrow> broker \<Rightarrow> broker \<times> bool" where
  "media_start_server out b =
     (if out = ConnAccepted
      then (b\<lparr>exchange_declared := True, queues := queues b @ [media_queue []]\<rparr>, True)
      else (b, False))"

text \<open>
  The deployment comes up with an empty broker: the search service, then the media
  service, then the post service (the order of the queues in \<open>Deployment\<close>); the
  result is the deployment and which of the three services listen.
\<close>

definition empty_broker :: broker where
  "empty_broker = \<lparr>exchange_declared = False, queues = []\<rparr>"

definition dep_boot :: "conn_outcome \<Rightarrow> deployment \<times> bool \<times> bool \<times> bool" where
  "dep_boot out =
     (let (b1, ls) = search_start_server out empty_broker;
          (b2, lm) = media_start_server out b1;
          (s, b3, lp) = post_start_server out b2
      in (\<lparr>core = \<lparr>svc = s, brk = b3, idx = []\<rparr>, msvc = media_init\<rparr>, ls, lm, lp))"

section \<open>Properties\<close>

text \<open>
  The deployment starts as modelled.  When the broker accepts every connection, the
  three services listen and the deployment they build is \<open>dep_init\<close>, the initial
  state from which \<open>Deployment\<close> and \<open>System\<close> reason.
\<close>

theorem boot_accepted: "dep_boot ConnAccepted = (dep_init, True, True, True)"
  by (simp add: dep_boot_def search_start_server_def media_start_server_def post_start_server_def
      connect_to_rabbitmq_def client_init_def empty_broker_def dep_init_def sys_init_def)

text \<open>
  With the broker unreachable the post service comes up anyway.  The search and media
  services exit, but the post service listens with a \<open>null\<close> channel and no exchange:
  it accepts writes whose events nobody can consume.
\<close>

theorem boot_broker_down:
  "dep_boot ConnRefused =
     (\<lparr>core = \<lparr>svc = \<lparr>posts = [], cache = [], amqp = client_init, next_oid = 0\<rparr>,
                brk = empty_broker, idx = []\<rparr>, msvc = media_init\<rparr>, False, False, True)"
  by (simp add: dep_boot_def search_start_server_def media_start_server_def post_start_server_def
      connect_to_rabbitmq_def)

end
