(* ===== verification/PostRoutes.thy ===== *)
theory PostRoutes
  imports System
begin

text \<open>
  The router of the post service (\<open>src/post-service/src/routes/post-routes.js\<close>),
  mounted under \<open>/api/post\<close> by \<open>index.js\<close> (lines 33--40).  \<open>router.use\<close>
  runs \<open>authenticateRequest\<close> on every request that reaches the router, matched or not;
  the four routes are then tried in their order of declaration, so \<open>GET /all-post\<close> is
  the listing and never a post id.  A request that no route matches falls through to
  Express's final handler (404), \<open>None\<close> here.  Paths are compared exactly (Express's
  case-insensitive matching, trailing slashes and percent-decoding are not modelled).
  \<open>route_exec\<close> is one request as a step of the system of \<open>System\<close>; the lemmas
  show that the operations of \<open>sys_op\<close> are these requests, and that the states
  reachable through the HTTP interface (\<open>http_reach\<close>) are reachable states of
  \<open>System\<close>.
\<close>

section \<open>Requests and the router\<close>

datatype http_method = HGet | HPost | HPut | HDelete

record post_request =
  rq_method :: http_method
  rq_path :: string
  rq_user :: "string option"  \<comment> \<open>the \<open>x-user-id\<close> header set by the gateway\<close>
  rq_body :: "(string \<times> jval) list"
  rq_page :: "string option"
  rq_limit :: "string option"

text \<open>The parameter of \<open>/:postId\<close>: one non-empty path segment.\<close>

definition path_param :: "string \<Rightarrow> string option" where
  "path_param p =
     (case p of
        c # x \<Rightarrow> if c = CHR ''/'' \<and> x \<noteq> [] \<and> CHR ''/'' \<notin> set x then Some x else None
      | [] \<Rightarrow> None)"

definition post_router ::
  "env \<Rightarrow> post_request \<Rightarrow> post_service \<Rightarrow> broker \<Rightarrow> post_service \<times> broker \<times> response option" where
  "post_router e rq s b =
     (case authenticate_request (rq_user rq) of
        None \<Rightarrow> (s, b, Some (401, Msg False ''Authentication required''))
      | Some u \<Rightarrow>
          if rq_method rq = HPost \<and> rq_path rq = ''/create-post''
          then (let (s', b', r) = create_post e u (rq_body rq) s b in (s', b', Some r))
          else if rq_method rq = HGet \<and> rq_path rq = ''/all-post''
          then (let (s', r) = get_all_posts e (rq_page rq) (rq_limit rq) s in (s', b, Some r))
          else (case path_param (rq_path rq) of
                  None \<Rightarrow> (s, b, None)
                | Some pid \<Rightarrow>
                    if rq_method rq = HGet
                    then (let (s', r) = get_post e pid s in (s', b, Some r))
                    else if rq_method rq = HDelete
                    then (let (s', b', r) = delete_post e u pid s b in (s', b', Some r))
                    else (s, b, None)))"

text \<open>One request as a step of the system.\<close>

definition route_exec :: "env \<Rightarrow> post_request \<Rightarrow> sys \<Rightarrow> sys" where
  "route_exec e rq st = (let (s', b', _) = post_router e rq (svc st) (brk st) in st\<lparr>svc := s', brk := b'\<rparr>)"

text \<open>
  The states the deployment reaches through its HTTP interface: requests of any method,
  path, header and body to the post router while Redis is reachable, cache evictions, and
  deliveries of the search consumer with its database up, redeliveries included.
\<close>

inductive http_reach :: "sys \<Rightarrow> bool" where
  http_init: "http_reach sys_init"
| http_request: "http_reach st \<Longrightarrow> redis_up e \<Longrightarrow> http_reach (route_exec e rq st)"
| http_evict: "http_reach st \<Longrightarrow> http_reach (exec (Evict k) st)"
| http_deliver: "http_reach st \<Longrightarrow> http_reach (exec (Deliver True) st)"
| http_redeliver: "http_reach st \<Longrightarrow> http_reach (exec Redeliver st)"

section \<open>Lemmas\<close>

lemma path_param_slash: "path_param (CHR ''/'' # x) = (if x \<noteq> [] \<and> CHR ''/'' \<notin> set x then Some x else None)"
  by (simp add: path_param_def)

lemma route_exec_auth:
  "authenticate_request (rq_user rq) = Some u \<Longrightarrow>
   route_exec e rq st =
     (if rq_method rq = HPost \<and> rq_path rq = ''/create-post''
      then (let (s', b', _) = create_post e u (rq_body rq) (svc st) (brk st) in st\<lparr>svc := s', brk := b'\<rparr>)
      else if rq_method rq = HGet \<and> rq_path rq = ''/all-post''
      then st\<lparr>svc := fst (get_all_posts e (rq_page rq) (rq_limit rq) (svc st))\<rparr>
      else (case path_param (rq_path rq) of
              None \<Rightarrow> st
            | Some pid \<Rightarrow>
                if rq_method rq = HGet then st\<lparr>svc := fst (get_post e pid (svc st))\<rparr>
                else if rq_method rq = HDelete
                then (let (s', b', _) = delete_post e u pid (svc st) (brk st) in st\<lparr>svc := s', brk := b'\<rparr>)
                else st))"
  by (simp add: route_exec_def post_router_def split: prod.splits option.splits)

text \<open>
  Every request is an operation of \<open>System\<close> or changes nothing; with Redis up the
  operation is one that keeps its effect.
\<close>

lemma route_exec_op:
  "route_exec e rq st = st \<or> (\<exists>a. (redis_up e \<longrightarrow> reliable a) \<and> route_exec e rq st = exec a st)"
proof (cases "authenticate_request (rq_user rq)")
  case None
  then show ?thesis by (simp add: route_exec_def post_router_def)
next
  case (Some u)
  have c: "route_exec e rq st = exec (Create e (rq_user rq) (rq_body rq)) st"
    if "rq_method rq = HPost" "rq_path rq = ''/create-post''"
    using Some that by (simp add: route_exec_auth split: prod.splits)
  have l: "route_exec e rq st = exec (ListPosts e (rq_page rq) (rq_limit rq)) st"
    if "\<not> (rq_method rq = HPost \<and> rq_path rq = ''/create-post'')" "rq_method rq = HGet" "rq_path rq = ''/all-post''"
    using Some that by (simp add: route_exec_auth)
  have p: "route_exec e rq st = st \<or>
           route_exec e rq st = exec (ReadPost e pid) st \<or> route_exec e rq st = exec (Delete e (rq_user rq) pid) st"
    if "\<not> (rq_method rq = HPost \<and> rq_path rq = ''/create-post'')" "\<not> (rq_method rq = HGet \<and> rq_path rq = ''/all-post'')"
       "path_param (rq_path rq) = Some pid" for pid
    using Some that by (auto simp: route_exec_auth split: prod.splits)
  have n: "route_exec e rq st = st"
    if "\<not> (rq_method rq = HPost \<and> rq_path rq = ''/create-post'')" "\<not> (rq_method rq = HGet \<and> rq_path rq = ''/all-post'')"
       "path_param (rq_path rq) = None"
    using Some that by (auto simp: route_exec_auth)
  show ?thesis
  proof (cases "rq_method rq = HPost \<and> rq_path rq = ''/create-post''")
    case True
    then show ?thesis using c by (metis reliable.simps)
  next
    case nc: False
    show ?thesis
    proof (cases "rq_method rq = HGet \<and> rq_path rq = ''/all-post''")
      case True
      then show ?thesis using l nc by (metis reliable.simps)
    next
      case False
      then show ?thesis
        using nc p n by (cases "path_param (rq_path rq)") (metis reliable.simps)+
    qed
  qed
qed

text \<open>
  C11: the operations of the system are the requests of the router.  A
  \<open>POST /create-post\<close> and a \<open>DELETE /:postId\<close> have exactly the effect of the
  operations \<open>Create\<close> and \<open>Delete\<close> of \<open>System\<close>, whatever the header; an
  authenticated \<open>GET /all-post\<close> and \<open>GET /:postId\<close> have the effect of
  \<open>ListPosts\<close> and \<open>ReadPost\<close>.
\<close>

theorem router_implements_ops:
  assumes "path_param (''/'' @ pid) = Some pid" and "pid \<noteq> ''all-post''"
  shows "route_exec e \<lparr>rq_method = HPost, rq_path = ''/create-post'', rq_user = h, rq_body = obj,
                       rq_page = None, rq_limit = None\<rparr> st = exec (Create e h obj) st \<and>
         route_exec e \<lparr>rq_method = HDelete, rq_path = ''/'' @ pid, rq_user = h, rq_body = [],
                       rq_page = None, rq_limit = None\<rparr> st = exec (Delete e h pid) st \<and>
         (authenticate_request h \<noteq> None \<longrightarrow>
            route_exec e \<lparr>rq_method = HGet, rq_path = ''/all-post'', rq_user = h, rq_body = [],
                          rq_page = qp, rq_limit = ql\<rparr> st = exec (ListPosts e qp ql) st \<and>
            route_exec e \<lparr>rq_method = HGet, rq_path = ''/'' @ pid, rq_user = h, rq_body = [],
                          rq_page = None, rq_limit = None\<rparr> st = exec (ReadPost e pid) st)"
proof (cases "authenticate_request h")
  case None
  then show ?thesis by (simp add: route_exec_def post_router_def)
next
  case (Some u)
  have "''/'' @ pid \<noteq> ''/all-post''"
    using assms(2) by simp
  then show ?thesis
    using Some assms by (simp add: route_exec_auth split: prod.splits)
qed

theorem router_implements_ops_witness:
  "path_param (''/'' @ ''p1'') = Some ''p1'' \<and> ''p1'' \<noteq> ''all-post'' \<and>
   route_exec (demo_env ConnAccepted) \<lparr>rq_method = HDelete, rq_path = ''/'' @ ''p1'', rq_user = Some ''u1'',
     rq_body = [], rq_page = None, rq_limit = None\<rparr> sys_init =
   exec (Delete (demo_env ConnAccepted) (Some ''u1'') ''p1'') sys_init"
proof -
  have h: "path_param (''/'' @ ''p1'') = Some ''p1''" "''p1'' \<noteq> ''all-post''"
    by (simp_all add: path_param_def)
  show ?thesis
    using h router_implements_ops [OF h, of "demo_env ConnAccepted" "Some ''u1''"] by blast
qed

text \<open>
  \<open>router.use(authenticateRequest)\<close> guards every route.  A request without a
  user id (the gateway did not authenticate it) is answered 401, whatever its method and
  path, and changes nothing: no post, cache entry, message or broker state.
\<close>

theorem unauthenticated_request_rejected:
  assumes "authenticate_request (rq_user rq) = None"
  shows "post_router e rq s b = (s, b, Some (401, Msg False ''Authentication required''))"
  using assms by (simp add: post_router_def)

theorem unauthenticated_request_rejected_witness:
  "authenticate_request (rq_user \<lparr>rq_method = HPost, rq_path = ''/create-post'', rq_user = Some [],
      rq_body = demo_body, rq_page = None, rq_limit = None\<rparr>) = None \<and>
   post_router (demo_env ConnAccepted) \<lparr>rq_method = HPost, rq_path = ''/create-post'', rq_user = Some [],
      rq_body = demo_body, rq_page = None, rq_limit = None\<rparr> demo_service demo_broker =
     (demo_service, demo_broker, Some (401, Msg False ''Authentication required''))"
proof -
  have h: "authenticate_request (rq_user \<lparr>rq_method = HPost, rq_path = ''/create-post'', rq_user = Some [],
      rq_body = demo_body, rq_page = None, rq_limit = None\<rparr>) = None"
    by (simp add: authenticate_request_def)
  show ?thesis using h unauthenticated_request_rejected [OF h] by blast
qed

text \<open>
  C12: the HTTP interface stays within the model.  Every state the deployment reaches by
  arbitrary requests to the post router with Redis up (any method, path, header and body,
  unmatched and unauthenticated ones included), evictions and search deliveries is a
  reachable state of \<open>System\<close>, so its invariant, eventual consistency and cache
  transparency hold of what real clients can do.
\<close>

theorem http_reach_reach: "http_reach st \<Longrightarrow> reach st"
proof (induction rule: http_reach.induct)
  case http_init
  then show ?case by (rule reach_init)
next
  case (http_request st e rq)
  then show ?case
    using route_exec_op [of e rq st] by (metis reach_step)
next
  case (http_evict st k)
  show ?case using reach_step [OF http_evict.IH, of "Evict k"] by simp
next
  case (http_deliver st)
  show ?case using reach_step [OF http_deliver.IH, of "Deliver True"] by simp
next
  case (http_redeliver st)
  show ?case using reach_step [OF http_redeliver.IH, of Redeliver] by simp
qed

theorem http_reach_reach_witness:
  "http_reach (route_exec (demo_env ConnAccepted) \<lparr>rq_method = HPost, rq_path = ''/create-post'',
      rq_user = Some ''u1'', rq_body = demo_body, rq_page = None, rq_limit = None\<rparr> sys_init) \<and>
   reach (route_exec (demo_env ConnAccepted) \<lparr>rq_method = HPost, rq_path = ''/create-post'',
      rq_user = Some ''u1'', rq_body = demo_body, rq_page = None, rq_limit = None\<rparr> sys_init)"
proof -
  have h: "http_reach (route_exec (demo_env ConnAccepted) \<lparr>rq_method = HPost, rq_path = ''/create-post'',
      rq_user = Some ''u1'', rq_body = demo_body, rq_page = None, rq_limit = None\<rparr> sys_init)"
    by (rule http_request [OF http_init]) (simp add: demo_env_def)
  show ?thesis using h http_reach_reach [OF h] by blast
qed

end
