(* ===== verification/Auth.thy ===== *)
theory Auth
  imports JsRuntime
begin

text \<open>
  The identity service (\<open>src/auth-service/src/controllers/auth-controller.js\<close>):
  registration, login, refresh-token rotation and logout over two MongoDB collections,
  users and refresh tokens.  \<open>generateTokens\<close> (\<open>utils/generate-token.js\<close>), the
  Joi validators (\<open>utils/validation.js\<close>) and the user model with its password hashing
  are not in the repository: token generation is modelled from the usual shape of that
  helper (a JWT access token of 60 minutes and a fresh refresh token stored with a
  7-day expiry), validation is the validator's verdict passed in the environment, and a
  password check is the equality that \<open>argon2.verify\<close> decides.  A fresh token is
  \<open>tok_str p n\<close> for a counter \<open>n\<close>, standing for the random bytes of the real
  helper.  The access tokens that \<open>jwt.sign\<close> has produced are kept in the state
  (\<open>signed\<close>): a string verifies under the secret exactly when it is one of them.
  The filter value of \<open>findOne({token: refreshToken})\<close> is the request's JSON value:
  Mongoose casts a scalar to the path's string type and passes an object of query
  operators through (\<open>$ne\<close> and \<open>$exists\<close> are modelled; other operators are not).
\<close>

section \<open>State\<close>

record user =
  u_id :: nat
  u_username :: string
  u_email :: string
  u_password :: string

record refresh_token =
  rt_token :: string
  rt_user :: nat
  rt_expires :: timestamp

record access_token =
  at_user :: nat
  at_username :: string
  at_expires :: timestamp

record auth_state =
  users :: "user list"
  tokens :: "refresh_token list"
  signed :: "(string \<times> access_token) list"
  next_uid :: nat
  next_tok :: nat

text \<open>
  One request's view of its environment: whether MongoDB answers, the clock, and the
  verdict of the Joi validator on the body (\<open>None\<close>: valid; \<open>Some m\<close>: the first
  detail's message).
\<close>

record auth_env =
  db_up :: bool
  clock :: timestamp
  joi_verdict :: "string option"

datatype auth_body = AuthMsg bool string | Tokens string string | LoginTokens string string nat

type_synonym auth_response = "nat \<times> auth_body"

section \<open>Token generation\<close>

definition tok_str :: "string \<Rightarrow> nat \<Rightarrow> string" where
  "tok_str p n = p @ CHR ''-'' # nat_str n"

definition access_ttl :: nat where
  "access_ttl = 60 * 60 * 1000"

definition refresh_ttl :: nat where
  "refresh_ttl = 7 * 24 * 60 * 60 * 1000"

definition generate_tokens :: "auth_env \<Rightarrow> user \<Rightarrow> auth_state \<Rightarrow> auth_state \<times> string \<times> string" where
  "generate_tokens e u s =
     (let n = next_tok s; at = tok_str ''jwt'' n; rt = tok_str ''rt'' n;
          a = \<lparr>at_user = u_id u, at_username = u_username u, at_expires = clock e + access_ttl\<rparr>
      in (s\<lparr>tokens := tokens s @ [\<lparr>rt_token = rt, rt_user = u_id u, rt_expires = clock e + refresh_ttl\<rparr>],
            signed := signed s @ [(at, a)], next_tok := Suc n\<rparr>, at, rt))"

section \<open>Registration and login\<close>

definition server_fault :: "string \<Rightarrow> auth_response" where
  "server_fault m = (500, AuthMsg False m)"

text \<open>\<open>registerUserController\<close> (lines 7--50).\<close>

definition register_user ::
  "auth_env \<Rightarrow> string \<Rightarrow> string \<Rightarrow> string \<Rightarrow> auth_state \<Rightarrow> auth_state \<times> auth_response" where
  "register_user e name email pw s =
     (case joi_verdict e of
        Some m \<Rightarrow> (s, (400, AuthMsg False m))
      | None \<Rightarrow>
          if \<not> db_up e then (s, server_fault ''Internal server error'')
          else if list_ex (\<lambda>u. u_username u = name \<or> u_email u = email) (users s)
          then (s, (400, AuthMsg False ''User already exists''))
          else
            (let u = \<lparr>u_id = next_uid s, u_username = name, u_email = email, u_password = pw\<rparr>;
                 s1 = s\<lparr>users := users s @ [u], next_uid := Suc (next_uid s)\<rparr>;
                 (s2, at, rt) = generate_tokens e u s1
             in (s2, (201, Tokens at rt))))"

text \<open>\<open>loginUserController\<close> (lines 52--99).\<close>

definition login_user ::
  "auth_env \<Rightarrow> string \<Rightarrow> string \<Rightarrow> auth_state \<Rightarrow> auth_state \<times> auth_response" where
  "login_user e email pw s =
     (case joi_verdict e of
        Some m \<Rightarrow> (s, (400, AuthMsg False m))
      | None \<Rightarrow>
          if \<not> db_up e then (s, server_fault ''Internal server error'')
          else case find (\<lambda>u. u_email u = email) (users s) of
                 None \<Rightarrow> (s, (400, AuthMsg False ''Inavlid credentials''))
               | Some u \<Rightarrow>
                   if u_password u \<noteq> pw then (s, (400, AuthMsg False ''Inavlid password''))
                   else (let (s2, at, rt) = generate_tokens e u s in (s2, (200, LoginTokens at rt (u_id u)))))"

section \<open>Refresh and logout\<close>

text \<open>\<open>if (!refreshToken)\<close>: the falsy JSON values.\<close>

definition js_truthy :: "jval option \<Rightarrow> bool" where
  "js_truthy v =
     (case v of None \<Rightarrow> False | Some JNull \<Rightarrow> False | Some (JBool b) \<Rightarrow> b
      | Some (JNum n) \<Rightarrow> n \<noteq> 0 | Some (JStr s) \<Rightarrow> s \<noteq> [] | Some _ \<Rightarrow> True)"

text \<open>
  The condition \<open>{token: v}\<close> puts on a stored token string; \<open>None\<close> is a
  \<open>CastError\<close>.
\<close>

fun token_filter :: "jval \<Rightarrow> (string \<Rightarrow> bool) option" where
  "token_filter (JStr s) = Some (\<lambda>t. t = s)"
| "token_filter (JNum n) = Some (\<lambda>t. t = int_str n)"
| "token_filter (JBool b) = Some (\<lambda>t. t = (if b then ''true'' else ''false''))"
| "token_filter (JObj [(op, JNull)]) = (if op = ''$ne'' then Some (\<lambda>t. True) else None)"
| "token_filter (JObj [(op, JStr s)]) = (if op = ''$ne'' then Some (\<lambda>t. t \<noteq> s) else None)"
| "token_filter (JObj [(op, JBool b)]) = (if op = ''$exists'' then Some (\<lambda>t. b) else None)"
| "token_filter _ = None"

text \<open>
  \<open>refreshTokenController\<close> (lines 101--160) in its two phases: the lookups
  (\<open>RefreshToken.findOne\<close>, the expiry check, \<open>User.findById\<close>, lines 104--141) and
  the rotation (\<open>generateTokens\<close>, \<open>RefreshToken.deleteOne\<close>, lines 143--152).
  Other requests may run between the two phases.
\<close>

definition refresh_lookup ::
  "auth_env \<Rightarrow> (string \<times> jval) list \<Rightarrow> auth_state \<Rightarrow> auth_response + refresh_token \<times> user" where
  "refresh_lookup e body s =
     (case jlookup body ''refreshToken'' of
        None \<Rightarrow> Inl (400, AuthMsg False ''Refresh token missing'')
      | Some v \<Rightarrow>
          if \<not> js_truthy (Some v) then Inl (400, AuthMsg False ''Refresh token missing'')
          else if \<not> db_up e then Inl (server_fault ''Refresh token error occurred'')
          else case token_filter v of
                 None \<Rightarrow> Inl (server_fault ''Refresh token error occurred'')
               | Some f \<Rightarrow>
                   (case find (\<lambda>t. f (rt_token t)) (tokens s) of
                      None \<Rightarrow> Inl (400, AuthMsg False ''Invalid refresh token'')
                    | Some st \<Rightarrow>
                        if rt_expires st < clock e
                        then Inl (401, AuthMsg False ''Invalid or expired refresh token'')
                        else case find (\<lambda>u. u_id u = rt_user st) (users s) of
                               None \<Rightarrow> Inl (401, AuthMsg False ''User not found'')
                             | Some u \<Rightarrow> Inr (st, u)))"

definition refresh_commit ::
  "auth_env \<Rightarrow> refresh_token \<Rightarrow> user \<Rightarrow> auth_state \<Rightarrow> auth_state \<times> auth_response" where
  "refresh_commit e st u s =
     (if \<not> db_up e then (s, server_fault ''Refresh token error occurred'')
      else (let (s2, at, rt) = generate_tokens e u s
            in (s2\<lparr>tokens := remove1 st (tokens s2)\<rparr>, (200, Tokens at rt))))"

definition refresh_token_ctl ::
  "auth_env \<Rightarrow> (string \<times> jval) list \<Rightarrow> auth_state \<Rightarrow> auth_state \<times> auth_response" where
  "refresh_token_ctl e body s =
     (case refresh_lookup e body s of
        Inl r \<Rightarrow> (s, r)
      | Inr (st, u) \<Rightarrow> refresh_commit e st u s)"

text \<open>\<open>logoutUserController\<close> (lines 162--198).\<close>

definition logout_user ::
  "auth_env \<Rightarrow> (string \<times> jval) list \<Rightarrow> auth_state \<Rightarrow> auth_state \<times> auth_response" where
  "logout_user e body s =
     (case jlookup body ''refreshToken'' of
        None \<Rightarrow> (s, (400, AuthMsg False ''Refresh token missing''))
      | Some v \<Rightarrow>
          if \<not> js_truthy (Some v) then (s, (400, AuthMsg False ''Refresh token missing''))
          else if \<not> db_up e then (s, server_fault ''Error while logging out'')
          else case token_filter v of
                 None \<Rightarrow> (s, server_fault ''Error while logging out'')
               | Some f \<Rightarrow>
                   (case find (\<lambda>t. f (rt_token t)) (tokens s) of
                      None \<Rightarrow> (s, (400, AuthMsg False ''Invalid refresh token''))
                    | Some st \<Rightarrow>
                        (s\<lparr>tokens := remove1 st (tokens s)\<rparr>,
                         (200, AuthMsg True ''Logged out successfully!''))))"

section \<open>The service as a state machine\<close>

text \<open>The four routes of \<open>auth-service-route.js\<close> (lines 12--15).\<close>

datatype auth_op =
    Register auth_env string string string
  | Login auth_env string string
  | Refresh auth_env "(string \<times> jval) list"
  | Logout auth_env "(string \<times> jval) list"

fun auth_exec :: "auth_op \<Rightarrow> auth_state \<Rightarrow> auth_state \<times> auth_response" where
  "auth_exec (Register e n m p) s = register_user e n m p s"
| "auth_exec (Login e m p) s = login_user e m p s"
| "auth_exec (Refresh e b) s = refresh_token_ctl e b s"
| "auth_exec (Logout e b) s = logout_user e b s"

definition auth_init :: auth_state where
  "auth_init = \<lparr>users = [], tokens = [], signed = [], next_uid = 0, next_tok = 0\<rparr>"

inductive auth_reach :: "auth_state \<Rightarrow> bool" where
  auth_reach_init: "auth_reach auth_init"
| auth_reach_step: "auth_reach s \<Longrightarrow> auth_reach (fst (auth_exec a s))"

text \<open>
  Well-formedness: user ids, user names, e-mail addresses and token strings are
  unique; every token was generated before the counter's current value and belongs to
  a user.
\<close>

definition auth_wf :: "auth_state \<Rightarrow> bool" where
  "auth_wf s \<longleftrightarrow>
     distinct (map u_id (users s)) \<and> (\<forall>u\<in>set (users s). u_id u < next_uid s) \<and>
     distinct (map u_username (users s)) \<and> distinct (map u_email (users s)) \<and>
     distinct (map rt_token (tokens s)) \<and> distinct (map fst (signed s)) \<and>
     (\<forall>t\<in>set (tokens s). \<exists>k < next_tok s. rt_token t = tok_str ''rt'' k) \<and>
     (\<forall>a\<in>set (signed s). \<exists>k < next_tok s. fst a = tok_str ''jwt'' k) \<and>
     (\<forall>t\<in>set (tokens s). \<exists>u\<in>set (users s). u_id u = rt_user t)"

section \<open>Concrete states used by the witnesses\<close>

text \<open>A fresh service after \<open>alice\<close> has registered at time 0.\<close>

definition auth_env0 :: auth_env where
  "auth_env0 = \<lparr>db_up = True, clock = 0, joi_verdict = None\<rparr>"

definition alice :: user where
  "alice = \<lparr>u_id = 0, u_username = ''alice'', u_email = ''alice@example.com'', u_password = ''pw''\<rparr>"

definition alice_rt :: refresh_token where
  "alice_rt = \<lparr>rt_token = tok_str ''rt'' 0, rt_user = 0, rt_expires = refresh_ttl\<rparr>"

definition alice_state :: auth_state where
  "alice_state = \<lparr>users = [alice], tokens = [alice_rt],
     signed = [(tok_str ''jwt'' 0, \<lparr>at_user = 0, at_username = ''alice'', at_expires = access_ttl\<rparr>)],
     next_uid = 1, next_tok = 1\<rparr>"

definition alice_body :: "(string \<times> jval) list" where
  "alice_body = [(''refreshToken'', JStr (tok_str ''rt'' 0))]"

section \<open>Lemmas\<close>

lemma tok_str_inj [js_simps]: "tok_str p m = tok_str p n \<longleftrightarrow> m = n"
  by (simp add: tok_str_def nat_str_inj)

lemma generate_tokens_fields:
  "generate_tokens e u s = (s', at, rt) \<Longrightarrow>
   users s' = users s \<and> next_uid s' = next_uid s \<and> next_tok s' = Suc (next_tok s) \<and>
   at = tok_str ''jwt'' (next_tok s) \<and> rt = tok_str ''rt'' (next_tok s) \<and>
   tokens s' = tokens s @ [\<lparr>rt_token = rt, rt_user = u_id u, rt_expires = clock e + refresh_ttl\<rparr>] \<and>
   signed s' = signed s @ [(at, \<lparr>at_user = u_id u, at_username = u_username u,
                                 at_expires = clock e + access_ttl\<rparr>)]"
  by (auto simp: generate_tokens_def Let_def)

lemma auth_wf_generate:
  assumes wf: "auth_wf s" and u: "u \<in> set (users s)" and g: "generate_tokens e u s = (s', at, rt)"
  shows "auth_wf s'"
proof -
  note f = generate_tokens_fields [OF g]
  have "tok_str ''rt'' (next_tok s) \<notin> set (map rt_token (tokens s))"
    using wf by (auto simp: auth_wf_def tok_str_inj)
  moreover have "tok_str ''jwt'' (next_tok s) \<notin> set (map fst (signed s))"
    using wf by (fastforce simp: auth_wf_def tok_str_inj)
  ultimately show ?thesis
    using wf u f by (auto simp: auth_wf_def less_Suc_eq)
qed

lemma auth_wf_remove1:
  "auth_wf s \<Longrightarrow> auth_wf (s\<lparr>tokens := remove1 t (tokens s)\<rparr>)"
  by (auto simp: auth_wf_def distinct_map_remove1 dest: set_remove1_subset [THEN subsetD])

lemma auth_wf_register: "auth_wf s \<Longrightarrow> auth_wf (fst (register_user e n m p s))"
proof -
  assume wf: "auth_wf s"
  define u where "u = \<lparr>u_id = next_uid s, u_username = n, u_email = m, u_password = p\<rparr>"
  define s1 where "s1 = s\<lparr>users := users s @ [u], next_uid := Suc (next_uid s)\<rparr>"
  have fresh: "\<not> list_ex (\<lambda>u. u_username u = n \<or> u_email u = m) (users s) \<Longrightarrow> auth_wf s1"
    using wf by (fastforce simp: auth_wf_def s1_def u_def list_ex_iff less_Suc_eq)
  have u1: "u \<in> set (users s1)" by (simp add: s1_def)
  show ?thesis
    using wf auth_wf_generate [OF fresh u1]
    by (auto simp: register_user_def s1_def u_def Let_def split: option.splits prod.splits)
qed

lemma auth_wf_login: "auth_wf s \<Longrightarrow> auth_wf (fst (login_user e m p s))"
  by (auto simp: login_user_def dest!: find_Some_mem intro: auth_wf_generate
      split: option.splits prod.splits)

lemma refresh_lookup_Inr:
  "refresh_lookup e body s = Inr (st, u) \<Longrightarrow>
   st \<in> set (tokens s) \<and> u \<in> set (users s) \<and> u_id u = rt_user st \<and> clock e \<le> rt_expires st \<and> db_up e"
  by (auto simp: refresh_lookup_def split: option.splits if_splits dest!: find_Some_mem)

lemma auth_wf_refresh_commit:
  "auth_wf s \<Longrightarrow> u \<in> set (users s) \<Longrightarrow> auth_wf (fst (refresh_commit e st u s))"
  by (auto simp: refresh_commit_def intro: auth_wf_remove1 auth_wf_generate split: prod.splits)

lemma auth_wf_refresh: "auth_wf s \<Longrightarrow> auth_wf (fst (refresh_token_ctl e b s))"
  by (auto simp: refresh_token_ctl_def dest: refresh_lookup_Inr intro: auth_wf_refresh_commit
      split: sum.splits)

lemma auth_wf_logout: "auth_wf s \<Longrightarrow> auth_wf (fst (logout_user e b s))"
  by (auto simp: logout_user_def intro: auth_wf_remove1 split: option.splits)

text \<open>A successful logout deletes the refresh token and nothing else.\<close>

lemma logout_user_ok:
  "logout_user e body s = (s', (200, bd)) \<Longrightarrow>
   \<exists>st f. jlookup body ''refreshToken'' \<noteq> None \<and> token_filter (the (jlookup body ''refreshToken'')) = Some f \<and>
     find (\<lambda>t. f (rt_token t)) (tokens s) = Some st \<and> s' = s\<lparr>tokens := remove1 st (tokens s)\<rparr>"
  by (auto simp: logout_user_def server_fault_def split: option.splits if_splits)

lemma auth_reach_wf: "auth_reach s \<Longrightarrow> auth_wf s"
proof (induction rule: auth_reach.induct)
  case auth_reach_init
  show ?case by (simp add: auth_wf_def auth_init_def)
next
  case (auth_reach_step s a)
  then show ?case
    by (cases a) (simp_all add: auth_wf_register auth_wf_login auth_wf_refresh auth_wf_logout)
qed

lemma refresh_lookup_Inl: "refresh_lookup e body s = Inl r \<Longrightarrow> fst r \<noteq> 200"
  by (auto simp: refresh_lookup_def server_fault_def split: option.splits if_splits)

lemma refresh_ctl_ok:
  assumes "refresh_token_ctl e body s = (s', (200, bd))"
  shows "\<exists>st u. refresh_lookup e body s = Inr (st, u) \<and>
           (s', (200, bd)) = refresh_commit e st u s \<and> db_up e"
  using assms
  by (auto simp: refresh_token_ctl_def refresh_commit_def server_fault_def split: sum.splits if_splits
      dest: refresh_lookup_Inl)

lemma refresh_lookup_str:
  "refresh_lookup e body s = Inr (st, u) \<Longrightarrow> jlookup body ''refreshToken'' = Some (JStr old) \<Longrightarrow>
   rt_token st = old"
  by (auto simp: refresh_lookup_def split: option.splits if_splits dest!: find_Some_mem)

lemma refresh_commit_tokens:
  "db_up e \<Longrightarrow> refresh_commit e st u s = (s', r) \<Longrightarrow>
   tokens s' = remove1 st (tokens s @ [\<lparr>rt_token = tok_str ''rt'' (next_tok s), rt_user = u_id u,
                                        rt_expires = clock e + refresh_ttl\<rparr>]) \<and>
   r = (200, Tokens (tok_str ''jwt'' (next_tok s)) (tok_str ''rt'' (next_tok s))) \<and>
   next_tok s' = Suc (next_tok s)"
  by (auto simp: refresh_commit_def generate_tokens_def Let_def)

text \<open>
  C26: refresh tokens are single-use.  After a successful rotation of the refresh token
  \<open>old\<close>, the old token is no longer stored, a new one with a 7-day expiry is, and
  presenting \<open>old\<close> again never succeeds.
\<close>

theorem refresh_token_single_use:
  assumes wf: "auth_wf s" and ok: "refresh_token_ctl e body s = (s', (200, bd))"
    and old: "jlookup body ''refreshToken'' = Some (JStr old)"
  shows "old \<notin> rt_token ` set (tokens s') \<and> fst (snd (refresh_token_ctl e' body s')) \<noteq> 200"
proof -
  obtain st u where l: "refresh_lookup e body s = Inr (st, u)"
    and c: "(s', (200, bd)) = refresh_commit e st u s" and up: "db_up e"
    using refresh_ctl_ok [OF ok] by blast
  have so: "rt_token st = old" by (rule refresh_lookup_str [OF l old])
  have st: "st \<in> set (tokens s)" using refresh_lookup_Inr [OF l] by simp
  define nt where "nt = \<lparr>rt_token = tok_str ''rt'' (next_tok s), rt_user = u_id u,
                         rt_expires = clock e + refresh_ttl\<rparr>"
  have ts: "tokens s' = remove1 st (tokens s @ [nt])"
    using refresh_commit_tokens [OF up c [symmetric]] by (simp add: nt_def)
  have "tok_str ''rt'' (next_tok s) \<notin> rt_token ` set (tokens s)"
    using wf by (auto simp: auth_wf_def tok_str_inj)
  then have d: "distinct (map rt_token (tokens s @ [nt]))"
    using wf by (auto simp: auth_wf_def nt_def)
  have gone: "old \<notin> rt_token ` set (tokens s')"
    using distinct_map_remove1_notin [OF d, of st] st so ts by simp
  have "fst (snd (refresh_token_ctl e' body s')) \<noteq> 200"
  proof
    assume "fst (snd (refresh_token_ctl e' body s')) = 200"
    then obtain s'' bd' where "refresh_token_ctl e' body s' = (s'', (200, bd'))"
      by (metis prod.collapse)
    then obtain st' u' where l': "refresh_lookup e' body s' = Inr (st', u')"
      using refresh_ctl_ok by blast
    then have "rt_token st' = old" "st' \<in> set (tokens s')"
      using refresh_lookup_str [OF l' old] refresh_lookup_Inr [OF l'] by simp_all
    with gone show False by force
  qed
  with gone show ?thesis by simp
qed

lemma register_alice:
  "register_user auth_env0 ''alice'' ''alice@example.com'' ''pw'' auth_init =
   (alice_state, (201, Tokens (tok_str ''jwt'' 0) (tok_str ''rt'' 0)))"
  by (simp add: register_user_def auth_env0_def auth_init_def generate_tokens_def alice_def alice_rt_def Let_def alice_state_def)

lemma auth_reach_alice: "auth_reach alice_state"
proof -
  have "auth_reach (fst (auth_exec (Register auth_env0 ''alice'' ''alice@example.com'' ''pw'') auth_init))"
    by (rule auth_reach_step [OF auth_reach_init])
  then show ?thesis by (simp add: register_alice)
qed

lemma auth_wf_alice: "auth_wf alice_state"
  by (rule auth_reach_wf [OF auth_reach_alice])

lemma alice_lookup:
  "refresh_lookup auth_env0 alice_body alice_state = Inr (alice_rt, alice)"
  by (simp add: refresh_lookup_def alice_body_def jlookup_def js_truthy_def auth_env0_def alice_state_def
      alice_rt_def alice_def tok_str_def refresh_ttl_def)

theorem refresh_token_single_use_witness:
  "auth_wf alice_state \<and>
   refresh_token_ctl auth_env0 alice_body alice_state =
     (fst (refresh_token_ctl auth_env0 alice_body alice_state), (200, Tokens (tok_str ''jwt'' 1) (tok_str ''rt'' 1))) \<and>
   jlookup alice_body ''refreshToken'' = Some (JStr (tok_str ''rt'' 0)) \<and>
   tok_str ''rt'' 0 \<notin> rt_token ` set (tokens (fst (refresh_token_ctl auth_env0 alice_body alice_state))) \<and>
   fst (snd (refresh_token_ctl auth_env0 alice_body (fst (refresh_token_ctl auth_env0 alice_body alice_state)))) \<noteq> 200"
proof -
  have ok: "refresh_token_ctl auth_env0 alice_body alice_state =
     (fst (refresh_token_ctl auth_env0 alice_body alice_state), (200, Tokens (tok_str ''jwt'' 1) (tok_str ''rt'' 1)))"
    unfolding refresh_token_ctl_def alice_lookup
    by (simp add: refresh_commit_def generate_tokens_def auth_env0_def alice_state_def Let_def)
  have j: "jlookup alice_body ''refreshToken'' = Some (JStr (tok_str ''rt'' 0))"
    by (simp add: alice_body_def jlookup_def)
  show ?thesis
    using auth_wf_alice ok j refresh_token_single_use [OF auth_wf_alice ok j, of auth_env0] by simp
qed

lemma refresh_commit_keeps:
  assumes wf: "auth_wf s" and st: "st \<in> set (tokens s)" and up: "db_up e"
  shows "tok_str ''rt'' (next_tok s) \<in> rt_token ` set (tokens (fst (refresh_commit e st u s))) \<and>
         rt_token st \<notin> rt_token ` set (tokens (fst (refresh_commit e st u s))) \<and>
         next_tok (fst (refresh_commit e st u s)) = Suc (next_tok s)"
proof -
  obtain s' r where c: "refresh_commit e st u s = (s', r)" by (metis prod.exhaust)
  define nt where "nt = \<lparr>rt_token = tok_str ''rt'' (next_tok s), rt_user = u_id u,
                         rt_expires = clock e + refresh_ttl\<rparr>"
  have ts: "tokens s' = remove1 st (tokens s @ [nt])" and n: "next_tok s' = Suc (next_tok s)"
    using refresh_commit_tokens [OF up c] by (simp_all add: nt_def)
  have fr: "tok_str ''rt'' (next_tok s) \<notin> rt_token ` set (tokens s)"
    using wf by (auto simp: auth_wf_def tok_str_inj)
  then have d: "distinct (map rt_token (tokens s @ [nt]))"
    using wf by (auto simp: auth_wf_def nt_def)
  have ne: "nt \<noteq> st" using fr st by (force simp: nt_def)
  have "nt \<in> set (tokens s')" using ne by (simp add: ts in_set_remove1)
  moreover have "rt_token st \<notin> rt_token ` set (tokens s')"
    using distinct_map_remove1_notin [OF d, of st] st ts by simp
  ultimately show ?thesis using c n by (force simp: nt_def)
qed

text \<open>
  C28: two concurrent refreshes with the same token both succeed.  In any well-formed
  state, when the lookups of two requests presenting the same valid refresh token both
  run before either rotation deletes it, each rotation then issues a new refresh token:
  both requests are answered 200, the presented token is gone, and the two new refresh
  tokens are both live, so one session forks into two.  The rotation is not atomic.
\<close>

theorem concurrent_refresh_forks_session:
  assumes wf: "auth_wf s" and l: "refresh_lookup e body s = Inr (st, u)"
    and s1: "refresh_commit e st u s = (s1, r1)" and s2: "refresh_commit e st u s1 = (s2, r2)"
  shows "r1 = (200, Tokens (tok_str ''jwt'' (next_tok s)) (tok_str ''rt'' (next_tok s))) \<and>
         r2 = (200, Tokens (tok_str ''jwt'' (Suc (next_tok s))) (tok_str ''rt'' (Suc (next_tok s)))) \<and>
         tok_str ''rt'' (next_tok s) \<in> rt_token ` set (tokens s2) \<and>
         tok_str ''rt'' (Suc (next_tok s)) \<in> rt_token ` set (tokens s2) \<and>
         rt_token st \<notin> rt_token ` set (tokens s2)"
proof -
  have lk: "st \<in> set (tokens s)" "u \<in> set (users s)" "db_up e"
    using refresh_lookup_Inr [OF l] by simp_all
  have wf1: "auth_wf s1" using auth_wf_refresh_commit [OF wf lk(2), of e st] s1 by simp
  note k1 = refresh_commit_keeps [OF wf lk(1,3), of u]
  have r1: "r1 = (200, Tokens (tok_str ''jwt'' (next_tok s)) (tok_str ''rt'' (next_tok s)))"
    using refresh_commit_tokens [OF lk(3) s1] by simp
  have n1: "next_tok s1 = Suc (next_tok s)" using k1 s1 by simp
  have r2: "r2 = (200, Tokens (tok_str ''jwt'' (Suc (next_tok s))) (tok_str ''rt'' (Suc (next_tok s))))"
    using refresh_commit_tokens [OF lk(3) s2] n1 by simp
  have t2: "tokens s2 = remove1 st (tokens s1 @ [\<lparr>rt_token = tok_str ''rt'' (next_tok s1), rt_user = u_id u,
                                        rt_expires = clock e + refresh_ttl\<rparr>])"
    using refresh_commit_tokens [OF lk(3) s2] by simp
  have gone1: "rt_token st \<notin> rt_token ` set (tokens s1)" using k1 s1 by simp
  then have st1: "st \<notin> set (tokens s1)" by auto
  have fresh: "tok_str ''rt'' (Suc (next_tok s)) \<noteq> rt_token st"
    using wf lk(1) by (auto simp: auth_wf_def tok_str_inj)
  have t2': "tokens s2 = tokens s1 @ [\<lparr>rt_token = tok_str ''rt'' (Suc (next_tok s)), rt_user = u_id u,
                                        rt_expires = clock e + refresh_ttl\<rparr>]"
    using t2 st1 fresh n1 by (auto simp: remove1_append remove1_idem)
  show ?thesis using r1 r2 t2' k1 s1 gone1 fresh by auto
qed

theorem concurrent_refresh_forks_session_witness:
  "snd (refresh_commit auth_env0 alice_rt alice alice_state) = (200, Tokens (tok_str ''jwt'' 1) (tok_str ''rt'' 1)) \<and>
   snd (refresh_commit auth_env0 alice_rt alice (fst (refresh_commit auth_env0 alice_rt alice alice_state))) =
     (200, Tokens (tok_str ''jwt'' 2) (tok_str ''rt'' 2)) \<and>
   tok_str ''rt'' 1 \<in> rt_token ` set (tokens (fst (refresh_commit auth_env0 alice_rt alice
                                     (fst (refresh_commit auth_env0 alice_rt alice alice_state))))) \<and>
   tok_str ''rt'' 2 \<in> rt_token ` set (tokens (fst (refresh_commit auth_env0 alice_rt alice
                                     (fst (refresh_commit auth_env0 alice_rt alice alice_state)))))"
proof -
  obtain s1 r1 where c1: "refresh_commit auth_env0 alice_rt alice alice_state = (s1, r1)" by (metis prod.exhaust)
  obtain s2 r2 where c2: "refresh_commit auth_env0 alice_rt alice s1 = (s2, r2)" by (metis prod.exhaust)
  have n: "next_tok alice_state = 1" by (simp add: alice_state_def)
  show ?thesis
    using concurrent_refresh_forks_session [OF auth_wf_alice alice_lookup c1 c2] c1 c2 n
    by (simp add: numeral_2_eq_2)
qed

lemma refresh_commit_up:
  "db_up e \<Longrightarrow> refresh_commit e st u s =
     (fst (generate_tokens e u s)\<lparr>tokens := remove1 st (tokens (fst (generate_tokens e u s)))\<rparr>,
      (200, Tokens (tok_str ''jwt'' (next_tok s)) (tok_str ''rt'' (next_tok s))))"
  by (simp add: refresh_commit_def generate_tokens_def Let_def)

text \<open>
  C27: refresh-token injection.  The body \<open>{"refreshToken": {"$ne": null}}\<close> is truthy,
  and \<open>findOne({token: {$ne: null}})\<close> matches the first stored token, whoever owns it:
  while that token is unexpired and its user exists, the caller receives a fresh access
  token and refresh token for that user without knowing any secret.
\<close>

theorem refresh_ne_null_takeover:
  assumes "db_up e" and "tokens s = st # rest" and "clock e \<le> rt_expires st"
    and "find (\<lambda>u. u_id u = rt_user st) (users s) = Some u"
  shows "refresh_token_ctl e [(''refreshToken'', JObj [(''$ne'', JNull)])] s =
           refresh_commit e st u s \<and>
         fst (snd (refresh_commit e st u s)) = 200 \<and>
         (tok_str ''jwt'' (next_tok s), \<lparr>at_user = rt_user st, at_username = u_username u,
            at_expires = clock e + access_ttl\<rparr>) \<in> set (signed (fst (refresh_commit e st u s)))"
proof -
  have uid: "u_id u = rt_user st" using find_Some_mem [OF assms(4)] by simp
  have "refresh_lookup e [(''refreshToken'', JObj [(''$ne'', JNull)])] s = Inr (st, u)"
    using assms by (simp add: refresh_lookup_def jlookup_def js_truthy_def)
  then show ?thesis
    using assms(1) uid by (simp add: refresh_token_ctl_def refresh_commit_up generate_tokens_def Let_def)
qed

theorem refresh_ne_null_takeover_witness:
  "db_up auth_env0 \<and> tokens alice_state = alice_rt # [] \<and> clock auth_env0 \<le> rt_expires alice_rt \<and>
   find (\<lambda>u. u_id u = rt_user alice_rt) (users alice_state) = Some alice \<and>
   fst (snd (refresh_token_ctl auth_env0 [(''refreshToken'', JObj [(''$ne'', JNull)])] alice_state)) = 200"
proof -
  have h: "db_up auth_env0" "tokens alice_state = alice_rt # []" "clock auth_env0 \<le> rt_expires alice_rt"
    "find (\<lambda>u. u_id u = rt_user alice_rt) (users alice_state) = Some alice"
    by (simp_all add: auth_env0_def alice_state_def alice_rt_def alice_def)
  show ?thesis using h refresh_ne_null_takeover [OF h] by simp
qed

text \<open>
  C32: login tells which e-mail addresses have accounts.  In any state, a login with a
  password that matches no account of that address is answered 400 with
  \<open>Inavlid password\<close> exactly when an account with the address exists, and with
  \<open>Inavlid credentials\<close> otherwise.
\<close>

theorem login_reveals_accounts:
  assumes "joi_verdict e = None" and "db_up e"
    and wrong: "list_all (\<lambda>u. u_email u = m \<longrightarrow> u_password u \<noteq> pw) (users s)"
  shows "login_user e m pw s =
           (s, (400, AuthMsg False (if list_ex (\<lambda>u. u_email u = m) (users s)
                                    then ''Inavlid password'' else ''Inavlid credentials'')))"
proof (cases "find (\<lambda>u. u_email u = m) (users s)")
  case None
  then have "\<not> list_ex (\<lambda>u. u_email u = m) (users s)" by (simp add: find_None_iff list_ex_iff)
  then show ?thesis using assms None by (simp add: login_user_def)
next
  case (Some u)
  then have "u \<in> set (users s)" "u_email u = m" by (auto dest: find_Some_mem simp: find_Some_iff)
  then show ?thesis using assms Some by (auto simp: login_user_def list_all_iff list_ex_iff)
qed

theorem login_reveals_accounts_witness:
  "login_user auth_env0 ''bob@example.com'' ''pw'' alice_state =
     (alice_state, (400, AuthMsg False ''Inavlid credentials'')) \<and>
   login_user auth_env0 ''alice@example.com'' ''guess'' alice_state =
     (alice_state, (400, AuthMsg False ''Inavlid password''))"
proof -
  have h: "joi_verdict auth_env0 = None" "db_up auth_env0" by (simp_all add: auth_env0_def)
  have w1: "list_all (\<lambda>u. u_email u = ''bob@example.com'' \<longrightarrow> u_password u \<noteq> ''pw'') (users alice_state)"
    and w2: "list_all (\<lambda>u. u_email u = ''alice@example.com'' \<longrightarrow> u_password u \<noteq> ''guess'') (users alice_state)"
    by (simp_all add: alice_state_def alice_def)
  show ?thesis
    using login_reveals_accounts [OF h w1] login_reveals_accounts [OF h w2]
    by (simp add: alice_state_def alice_def)
qed

text \<open>
  C29: account integrity.  In every state the service reaches, no two users share an
  e-mail address or a user name, and every stored refresh token belongs to a user.
\<close>

theorem auth_accounts_unique:
  "auth_reach s \<Longrightarrow> distinct (map u_email (users s)) \<and> distinct (map u_username (users s)) \<and>
     (\<forall>t\<in>set (tokens s). \<exists>u\<in>set (users s). u_id u = rt_user t)"
  using auth_reach_wf [of s] by (simp add: auth_wf_def)

theorem auth_accounts_unique_witness:
  "auth_reach alice_state \<and> distinct (map u_email (users alice_state)) \<and>
   distinct (map u_username (users alice_state)) \<and>
   list_all (\<lambda>t. list_ex (\<lambda>u. u_id u = rt_user t) (users alice_state)) (tokens alice_state)"
  using auth_reach_alice auth_accounts_unique [OF auth_reach_alice] by (simp add: list_all_iff list_ex_iff)

end
