(* ===== verification/RateLimit.thy ===== *)
theory RateLimit
  imports Prelude
begin

text \<open>
  The two rate limiters of the identity service (\<open>src/auth-service/src/index.js\<close>,
  lines 36--75), both fixed-window counters kept in Redis: \<open>RateLimiterRedis\<close>
  (10 points per second per IP, every request) and \<open>express-rate-limit\<close> with a
  \<open>RedisStore\<close> (50 requests per 15 minutes per IP, \<open>/api/auth/register\<close> only).
  A key holds the number of hits of its window and the time the key expires; the first
  hit after expiry opens a new window.  Rejected hits are counted too, as both
  libraries increment before comparing.  When Redis is unreachable
  \<open>rateLimiter.consume\<close> rejects and the middleware answers 429; the second limiter is
  then never reached.
\<close>

record window =
  w_count :: nat
  w_reset :: timestamp

type_synonym rl_store = "(string \<times> window) list"

text \<open>One hit on \<open>k\<close> at time \<open>now\<close> in windows of \<open>dur\<close> milliseconds: the new count.\<close>

definition window_hit :: "nat \<Rightarrow> timestamp \<Rightarrow> string \<Rightarrow> rl_store \<Rightarrow> rl_store \<times> nat" where
  "window_hit dur now k st =
     (case map_of st k of
        Some w \<Rightarrow>
          if now < w_reset w then (AList.update k (w\<lparr>w_count := Suc (w_count w)\<rparr>) st, Suc (w_count w))
          else (AList.update k \<lparr>w_count = 1, w_reset = now + dur\<rparr> st, 1)
      | None \<Rightarrow> (AList.update k \<lparr>w_count = 1, w_reset = now + dur\<rparr> st, 1))"

text \<open>A limiter: key prefix, window length, and the largest count that passes.\<close>

record limiter =
  l_prefix :: string
  l_window :: nat
  l_max :: nat

definition global_limiter :: limiter where
  "global_limiter = \<lparr>l_prefix = ''middelware:'', l_window = 1000, l_max = 10\<rparr>"

definition register_limiter :: limiter where
  "register_limiter = \<lparr>l_prefix = ''rl:'', l_window = 15 * 60 * 1000, l_max = 50\<rparr>"

definition limiter_consume ::
  "limiter \<Rightarrow> timestamp \<Rightarrow> string \<Rightarrow> rl_store \<Rightarrow> rl_store \<times> bool" where
  "limiter_consume l now ip st =
     (let (st', c) = window_hit (l_window l) now (l_prefix l @ ip) st in (st', c \<le> l_max l))"

datatype gate = GatePass | GateReject nat

text \<open>
  The middleware chain in front of the routes (lines 43--78): the global limiter on
  every request, then the registration limiter on \<open>/api/auth/register\<close>.
\<close>

definition auth_gate ::
  "bool \<Rightarrow> timestamp \<Rightarrow> string \<Rightarrow> bool \<Rightarrow> rl_store \<Rightarrow> rl_store \<times> gate" where
  "auth_gate up now ip is_register st =
     (if \<not> up then (st, GateReject 429)
      else
        (let (st1, ok1) = limiter_consume global_limiter now ip st
         in if \<not> ok1 then (st1, GateReject 429)
            else if \<not> is_register then (st1, GatePass)
            else (let (st2, ok2) = limiter_consume register_limiter now ip st1
                  in (st2, if ok2 then GatePass else GateReject 429))))"

text \<open>A sequence of requests of one client through one limiter: the verdicts in order.\<close>

fun limiter_run :: "limiter \<Rightarrow> string \<Rightarrow> timestamp list \<Rightarrow> rl_store \<Rightarrow> rl_store \<times> bool list" where
  "limiter_run l ip [] st = (st, [])"
| "limiter_run l ip (t # ts) st =
     (let (st1, ok) = limiter_consume l t ip st; (st2, oks) = limiter_run l ip ts st1 in (st2, ok # oks))"

section \<open>Lemmas\<close>

lemma limiter_consume_live:
  "map_of st (l_prefix l @ ip) = Some w \<Longrightarrow> t < w_reset w \<Longrightarrow>
   limiter_consume l t ip st =
     (AList.update (l_prefix l @ ip) (w\<lparr>w_count := Suc (w_count w)\<rparr>) st, Suc (w_count w) \<le> l_max l)"
  by (simp add: limiter_consume_def window_hit_def)

lemma limiter_consume_fresh:
  "(case map_of st (l_prefix l @ ip) of None \<Rightarrow> True | Some w \<Rightarrow> w_reset w \<le> t) \<Longrightarrow>
   limiter_consume l t ip st =
     (AList.update (l_prefix l @ ip) \<lparr>w_count = 1, w_reset = t + l_window l\<rparr> st, 1 \<le> l_max l)"
  by (auto simp: limiter_consume_def window_hit_def split: option.splits)

lemma limiter_run_window:
  "map_of st (l_prefix l @ ip) = Some w \<Longrightarrow> \<forall>t\<in>set ts. t < w_reset w \<Longrightarrow>
   snd (limiter_run l ip ts st) = map (\<lambda>i. Suc (w_count w + i) \<le> l_max l) [0..<length ts]"
proof (induction ts arbitrary: st w)
  case Nil
  then show ?case by simp
next
  case (Cons t ts)
  let ?w' = "w\<lparr>w_count := Suc (w_count w)\<rparr>"
  have c: "limiter_consume l t ip st =
     (AList.update (l_prefix l @ ip) ?w' st, Suc (w_count w) \<le> l_max l)"
    using Cons.prems by (simp add: limiter_consume_live)
  have "snd (limiter_run l ip ts (AList.update (l_prefix l @ ip) ?w' st)) =
        map (\<lambda>i. Suc (w_count ?w' + i) \<le> l_max l) [0..<length ts]"
    by (rule Cons.IH) (use Cons.prems in \<open>simp_all add: map_of_update_same\<close>)
  then show ?case
    by (simp add: c split_def map_upt_Suc del: upt_Suc)
qed

text \<open>
  The fixed-window bound.  Of the requests one client sends within a window
  opened by its first request, exactly \<open>min n max\<close> pass: the first \<open>max\<close> of
  them, and no more however many arrive.
\<close>

theorem limiter_window_bound:
  assumes fresh: "case map_of st (l_prefix l @ ip) of None \<Rightarrow> True | Some w \<Rightarrow> w_reset w \<le> t0"
    and within: "\<forall>t\<in>set ts. t < t0 + l_window l"
  shows "length (filter id (snd (limiter_run l ip (t0 # ts) st))) = min (Suc (length ts)) (l_max l)"
proof -
  let ?k = "l_prefix l @ ip"
  let ?w = "\<lparr>w_count = 1, w_reset = t0 + l_window l\<rparr>"
  have c: "limiter_consume l t0 ip st = (AList.update ?k ?w st, 1 \<le> l_max l)"
    by (rule limiter_consume_fresh [OF fresh])
  have r: "snd (limiter_run l ip ts (AList.update ?k ?w st)) =
           map (\<lambda>i. Suc (1 + i) \<le> l_max l) [0..<length ts]"
    using limiter_run_window [of "AList.update ?k ?w st" l ip ?w ts] within
    by (simp add: map_of_update_same)
  have "snd (limiter_run l ip (t0 # ts) st) = map (\<lambda>i. i < l_max l) [0..<Suc (length ts)]"
    using r by (simp add: c split_def map_upt_Suc Suc_le_eq del: upt_Suc)
  then show ?thesis by (simp add: length_filter_id_map filter_upt_less del: upt_Suc)
qed

theorem limiter_window_bound_witness:
  "map_of [] (l_prefix global_limiter @ ''10.0.0.1'') = None \<and>
   list_all (\<lambda>t. t < 0 + l_window global_limiter) (replicate 14 (500::nat)) \<and>
   length (filter id (snd (limiter_run global_limiter ''10.0.0.1'' (0 # replicate 14 500) []))) = 10"
proof -
  have h: "case map_of [] (l_prefix global_limiter @ ''10.0.0.1'') of None \<Rightarrow> True | Some w \<Rightarrow> w_reset w \<le> 0"
    "\<forall>t\<in>set (replicate 14 (500::nat)). t < 0 + l_window global_limiter"
    by (simp_all add: global_limiter_def)
  show ?thesis
    using h limiter_window_bound [OF h] by (simp add: global_limiter_def list_all_iff)
qed

end
