(* ===== verification/AuthApp.thy ===== *)
theory AuthApp
  imports Auth RateLimit
begin

text \<open>
  The auth service as Express assembles it (\<open>src/auth-service/src/index.js\<close>,
  lines 43--85): every request passes the global limiter, a request to
  \<open>/api/auth/register\<close> the registration limiter too, and only then reaches the router
  of \<open>auth-service-route.js\<close> (\<open>auth_exec\<close>).  A rejection is answered 429
  \<open>Too many requests!\<close> by the limiter and never reaches a controller.  Both limiters
  keep their counters in the same Redis store under different prefixes.
\<close>

section \<open>The service behind its limiters\<close>

fun is_register :: "auth_op \<Rightarrow> bool" where
  "is_register (Register _ _ _ _) = True"
| "is_register _ = False"

definition auth_app ::
  "bool \<Rightarrow> timestamp \<Rightarrow> string \<Rightarrow> auth_op \<Rightarrow> rl_store \<Rightarrow> auth_state \<Rightarrow>
   rl_store \<times> auth_state \<times> auth_response" where
  "auth_app up now ip op rl s =
     (let (rl', g) = auth_gate up now ip (is_register op) rl
      in case g of
           GatePass \<Rightarrow> (let (s', r) = auth_exec op s in (rl', s', r))
         | GateReject c \<Rightarrow> (rl', s, (c, AuthMsg False ''Too many requests!'')))"

text \<open>
  The requests of one client (one IP), each with whether Redis was reachable and its time:
  the final stores and, per request, whether a controller answered it (any status but the
  limiters' 429: no controller answers 429).
\<close>

fun auth_run ::
  "string \<Rightarrow> (bool \<times> timestamp \<times> auth_op) list \<Rightarrow> rl_store \<Rightarrow> auth_state \<Rightarrow>
   rl_store \<times> auth_state \<times> bool list" where
  "auth_run ip [] rl s = (rl, s, [])"
| "auth_run ip ((up, t, op) # rs) rl s =
     (let (rl1, s1, _) = auth_app up t ip op rl s;
          (rl2, s2, ps) = auth_run ip rs rl1 s1
      in (rl2, s2, (fst (snd (snd (auth_app up t ip op rl s))) \<noteq> 429) # ps))"

section \<open>Lemmas\<close>

lemma auth_app_store: "fst (auth_app up t ip op rl s) = fst (auth_gate up t ip (is_register op) rl)"
  by (simp add: auth_app_def split: prod.splits gate.splits)

lemma auth_exec_status: "fst (snd (auth_exec op s)) \<noteq> 429"
  by (cases op) (auto simp: register_user_def login_user_def refresh_token_ctl_def refresh_lookup_def
      refresh_commit_def logout_user_def server_fault_def Let_def
      split: option.splits sum.splits prod.splits if_splits jval.splits)

lemma auth_gate_reject: "snd (auth_gate up t ip r rl) = GatePass \<or> snd (auth_gate up t ip r rl) = GateReject 429"
  by (auto simp: auth_gate_def split: prod.splits)

lemma auth_app_answered:
  "(fst (snd (snd (auth_app up t ip op rl s))) \<noteq> 429) = (snd (auth_gate up t ip (is_register op) rl) = GatePass)"
  using auth_gate_reject [of up t ip "is_register op" rl] auth_exec_status [of op s]
  by (auto simp: auth_app_def split: prod.splits)

lemma limiter_keys_differ: "l_prefix register_limiter @ ip \<noteq> l_prefix global_limiter @ ip"
  by (simp add: register_limiter_def global_limiter_def)

text \<open>
  One request with Redis up: whatever the registration limiter does next, the client's
  global counter is what the global limiter wrote, and the request passes only if the
  global limiter let it through.
\<close>

lemma auth_gate_global:
  assumes g: "limiter_consume global_limiter t ip rl = (AList.update (l_prefix global_limiter @ ip) w' rl, ok)"
  shows "map_of (fst (auth_gate True t ip r rl)) (l_prefix global_limiter @ ip) = Some w' \<and>
         (snd (auth_gate True t ip r rl) = GatePass \<longrightarrow> ok)"
proof -
  let ?kg = "l_prefix global_limiter @ ip"
  let ?rl1 = "AList.update ?kg w' rl"
  have r: "map_of (fst (limiter_consume register_limiter t ip ?rl1)) ?kg = map_of ?rl1 ?kg"
    using limiter_keys_differ [of ip]
    by (auto simp: limiter_consume_def window_hit_def update_conv' split: option.splits prod.splits)
  show ?thesis
    using r by (auto simp: auth_gate_def g update_conv' split: prod.splits)
qed

lemma auth_run_window:
  "map_of rl (l_prefix global_limiter @ ip) = Some w \<Longrightarrow> list_all (\<lambda>(u, t, op). t < w_reset w) rs \<Longrightarrow>
   length (filter id (snd (snd (auth_run ip rs rl s)))) \<le> l_max global_limiter - w_count w"
proof (induction rs arbitrary: rl s w)
  case Nil
  then show ?case by simp
next
  case (Cons q rs)
  obtain up t op where q: "q = (up, t, op)" by (metis prod_cases3)
  let ?g = "auth_gate up t ip (is_register op) rl"
  obtain rl1 s1 r1 where a: "auth_app up t ip op rl s = (rl1, s1, r1)" by (metis prod_cases3)
  have rl1: "rl1 = fst ?g" using auth_app_store [of up t ip op rl s] a by simp
  have tw: "t < w_reset w" and rest: "list_all (\<lambda>(u, t, op). t < w_reset w) rs"
    using Cons.prems(2) q by simp_all
  show ?case
  proof (cases up)
    case False
    then have "rl1 = rl" "snd ?g \<noteq> GatePass" using rl1 by (simp_all add: auth_gate_def)
    then show ?thesis
      using Cons.IH [OF Cons.prems(1) rest, of s1] q a auth_app_answered [of up t ip op rl s]
      by (auto simp: id_def split: prod.splits)
  next
    case True
    let ?w' = "w\<lparr>w_count := Suc (w_count w)\<rparr>"
    have gw: "map_of rl1 (l_prefix global_limiter @ ip) = Some ?w'"
      and ok: "snd ?g = GatePass \<longrightarrow> Suc (w_count w) \<le> l_max global_limiter"
      using auth_gate_global [OF limiter_consume_live [OF Cons.prems(1) tw], of "is_register op"] rl1 True
      by simp_all
    have ih: "length (filter id (snd (snd (auth_run ip rs rl1 s1)))) \<le> l_max global_limiter - Suc (w_count w)"
      using Cons.IH [OF gw] rest by (simp add: id_def)
    then show ?thesis
      using ok q a auth_app_answered [of up t ip op rl s] by (auto simp: id_def split: prod.splits)
  qed
qed

text \<open>
  C13: the auth controllers see at most ten requests per client per second.  Whatever mix
  of registrations, logins, refreshes and logouts one IP sends within the second opened
  by its first request, and whether Redis answers or not, at most ten of them are
  answered by a controller; the others get the limiters' 429.
\<close>

theorem auth_controllers_window_bound:
  assumes fresh: "case map_of rl (l_prefix global_limiter @ ip) of None \<Rightarrow> True | Some w \<Rightarrow> w_reset w \<le> t0"
    and within: "list_all (\<lambda>(u, t, op). t < t0 + l_window global_limiter) rs"
  shows "length (filter id (snd (snd (auth_run ip ((True, t0, op) # rs) rl s)))) \<le> l_max global_limiter"
proof -
  let ?w1 = "\<lparr>w_count = 1, w_reset = t0 + l_window global_limiter\<rparr>"
  let ?g = "auth_gate True t0 ip (is_register op) rl"
  have g1: "map_of (fst ?g) (l_prefix global_limiter @ ip) = Some ?w1"
    using auth_gate_global [OF limiter_consume_fresh [OF fresh], of "is_register op"] by simp
  obtain rl1 s1 r1 where a: "auth_app True t0 ip op rl s = (rl1, s1, r1)" by (metis prod_cases3)
  have "rl1 = fst ?g" using auth_app_store [of True t0 ip op rl s] a by simp
  then have "length (filter id (snd (snd (auth_run ip rs rl1 s1)))) \<le> l_max global_limiter - 1"
    using auth_run_window [of rl1 ip ?w1 rs s1] g1 within by simp
  moreover have "0 < l_max global_limiter" by (simp add: global_limiter_def)
  ultimately show ?thesis
    using a by (auto simp: id_def split: prod.splits)
qed

theorem auth_controllers_window_bound_witness:
  "(case map_of [] (l_prefix global_limiter @ ''10.0.0.1'') of None \<Rightarrow> True | Some w \<Rightarrow> w_reset w \<le> 0) \<and>
   list_all (\<lambda>(u, t, op). t < 0 + l_window global_limiter)
     (replicate 12 (True, 10::nat, Login auth_env0 ''a@x.io'' ''pw'')) \<and>
   length (filter id (snd (snd (auth_run ''10.0.0.1''
     ((True, 0, Login auth_env0 ''a@x.io'' ''pw'') #
      replicate 12 (True, 10, Login auth_env0 ''a@x.io'' ''pw'')) [] auth_init)))) \<le> 10"
proof -
  have h: "case map_of [] (l_prefix global_limiter @ ''10.0.0.1'') of None \<Rightarrow> True | Some w \<Rightarrow> w_reset w \<le> 0"
    "list_all (\<lambda>(u, t, op). t < 0 + l_window global_limiter)
       (replicate 12 (True, 10::nat, Login auth_env0 ''a@x.io'' ''pw''))"
    by (simp_all add: global_limiter_def list_all_iff)
  have l: "l_max global_limiter = 10" by (simp add: global_limiter_def)
  show ?thesis
    using h auth_controllers_window_bound [OF h, where op = "Login auth_env0 ''a@x.io'' ''pw''" and s = auth_init]
    unfolding l by blast
qed

text \<open>
  C14: Redis down shuts the auth service.  When Redis is unreachable every request, login
  and refresh included, is answered 429 by the global limiter and reaches no controller.
\<close>

theorem auth_app_redis_down:
  "auth_app False now ip op rl s = (rl, s, (429, AuthMsg False ''Too many requests!''))"
  by (simp add: auth_app_def auth_gate_def)

end
