(* ===== verification/Gateway.thy ===== *)
theory Gateway
  imports Auth
begin

text \<open>
  The API gateway's \<open>validateToken\<close> middleware
  (\<open>src/api-gateway/src/middleware/auth-middleware.js\<close>): the bearer token is the
  second space-separated word of the \<open>Authorization\<close> header, and
  \<open>jwt.verify\<close> accepts it when it is a token the identity service signed
  (\<open>signed\<close> of \<open>Auth\<close>, standing for the shared \<open>JWT_SECRET\<close>) and it has not
  expired.  The outcome is a rejection with its status or the decoded token that
  \<open>next()\<close> passes on as \<open>req.user\<close>.
\<close>

definition bearer_token :: "string option \<Rightarrow> string option" where
  "bearer_token h =
     (case h of None \<Rightarrow> None
      | Some s \<Rightarrow> (case js_split CHR '' '' s of _ # t # _ \<Rightarrow> Some t | _ \<Rightarrow> None))"

definition jwt_verify :: "auth_state \<Rightarrow> timestamp \<Rightarrow> string \<Rightarrow> access_token option" where
  "jwt_verify s now t =
     (case map_of (signed s) t of
        None \<Rightarrow> None
      | Some a \<Rightarrow> if now < at_expires a then Some a else None)"

datatype gw_result = GwReject nat string | GwPass access_token

definition validate_token :: "auth_state \<Rightarrow> timestamp \<Rightarrow> string option \<Rightarrow> gw_result" where
  "validate_token s now h =
     (case bearer_token h of
        None \<Rightarrow> GwReject 401 ''Authentication required''
      | Some t \<Rightarrow>
          if t = [] then GwReject 401 ''Authentication required''
          else case jwt_verify s now t of
                 None \<Rightarrow> GwReject 429 ''Invalid token!''
               | Some a \<Rightarrow> GwPass a)"

section \<open>Lemmas\<close>

lemma js_split_no_sep: "d \<notin> set w \<Longrightarrow> js_split d (w @ d # rest) = w # js_split d rest"
  by (induction w) (auto simp: Let_def)

lemma js_split_word: "d \<notin> set w \<Longrightarrow> js_split d w = [w]"
  by (induction w) (auto simp: Let_def)

lemma bearer_token_words:
  "CHR '' '' \<notin> set scheme \<Longrightarrow> CHR '' '' \<notin> set t \<Longrightarrow> bearer_token (Some (scheme @ CHR '' '' # t)) = Some t"
  by (simp add: bearer_token_def js_split_no_sep js_split_word)

lemma tok_str_no_space: "CHR '' '' \<notin> set (tok_str p n) \<longleftrightarrow> CHR '' '' \<notin> set p"
proof -
  have "dec_val CHR '' '' = None" by (simp add: dec_val_def)
  then have "CHR '' '' \<notin> set (nat_str n)" using nat_str_dec by blast
  then show ?thesis by (auto simp: tok_str_def)
qed


lemma validate_token_words:
  "CHR '' '' \<notin> set scheme \<Longrightarrow> CHR '' '' \<notin> set t \<Longrightarrow>
   validate_token s now (Some (scheme @ CHR '' '' # t)) =
     (if t = [] then GwReject 401 ''Authentication required''
      else case jwt_verify s now t of None \<Rightarrow> GwReject 429 ''Invalid token!'' | Some a \<Rightarrow> GwPass a)"
  by (simp add: validate_token_def bearer_token_words)

lemma login_user_ok:
  "login_user e m p s = (s', (200, bd)) \<Longrightarrow>
   \<exists>u. find (\<lambda>u. u_email u = m) (users s) = Some u \<and> u_password u = p \<and> db_up e \<and>
       (s', (200, bd)) = (fst (generate_tokens e u s),
         (200, LoginTokens (tok_str ''jwt'' (next_tok s)) (tok_str ''rt'' (next_tok s)) (u_id u)))"
  by (auto simp: login_user_def server_fault_def generate_tokens_def Let_def
      split: option.splits if_splits)

section \<open>Properties of the gateway\<close>

text \<open>
  C30: a token the identity service issues at login passes the gateway.  Right after a
  successful login, \<open>Authorization: Bearer <accessToken>\<close> is accepted and the
  gateway forwards the logged-in user's id, with the token's 60-minute expiry.
\<close>

theorem login_token_passes_gateway:
  assumes wf: "auth_wf s" and ok: "login_user e m p s = (s', (200, LoginTokens at rt uid))"
  shows "\<exists>a. validate_token s' (clock e) (Some (''Bearer '' @ at)) = GwPass a \<and>
             at_user a = uid \<and> at_expires a = clock e + access_ttl"
proof -
  obtain u where f: "find (\<lambda>u. u_email u = m) (users s) = Some u"
    and eq: "(s', (200, LoginTokens at rt uid)) = (fst (generate_tokens e u s),
         (200, LoginTokens (tok_str ''jwt'' (next_tok s)) (tok_str ''rt'' (next_tok s)) (u_id u)))"
    using login_user_ok [OF ok] by blast
  define a where "a = \<lparr>at_user = u_id u, at_username = u_username u, at_expires = clock e + access_ttl\<rparr>"
  have at: "at = tok_str ''jwt'' (next_tok s)" and uid: "uid = u_id u" using eq by simp_all
  have sg: "signed s' = signed s @ [(at, a)]"
    using eq by (simp add: generate_tokens_def Let_def a_def at)
  have "at \<notin> fst ` set (signed s)"
    using wf by (fastforce simp: auth_wf_def at tok_str_inj)
  then have "map_of (signed s') at = Some a"
    by (simp add: sg map_add_def map_of_eq_None_iff [symmetric] split: option.splits)
  then have "jwt_verify s' (clock e) at = Some a"
    by (simp add: jwt_verify_def a_def access_ttl_def)
  moreover have "CHR '' '' \<notin> set at" by (simp add: at tok_str_no_space)
  moreover have "at \<noteq> []" by (simp add: at tok_str_def)
  ultimately have "validate_token s' (clock e) (Some (''Bearer '' @ at)) = GwPass a"
    using validate_token_words [of "''Bearer''" at s' "clock e"] by simp
  then show ?thesis by (simp add: a_def uid)
qed


theorem login_token_passes_gateway_witness:
  "auth_wf alice_state \<and>
   login_user auth_env0 ''alice@example.com'' ''pw'' alice_state =
     (fst (login_user auth_env0 ''alice@example.com'' ''pw'' alice_state),
      (200, LoginTokens (tok_str ''jwt'' 1) (tok_str ''rt'' 1) 0)) \<and>
   (\<exists>a. validate_token (fst (login_user auth_env0 ''alice@example.com'' ''pw'' alice_state)) 0
          (Some (''Bearer '' @ tok_str ''jwt'' 1)) = GwPass a \<and> at_user a = 0 \<and> at_expires a = access_ttl)"
proof -
  have ok: "login_user auth_env0 ''alice@example.com'' ''pw'' alice_state =
     (fst (login_user auth_env0 ''alice@example.com'' ''pw'' alice_state),
      (200, LoginTokens (tok_str ''jwt'' 1) (tok_str ''rt'' 1) 0))"
    by (simp add: login_user_def auth_env0_def alice_state_def alice_def generate_tokens_def Let_def)
  have c: "clock auth_env0 = 0" by (simp add: auth_env0_def)
  show ?thesis
    using auth_wf_alice ok login_token_passes_gateway [OF auth_wf_alice ok] by (simp only: c add_0)
qed

text \<open>
  The gateway ignores the authorisation scheme.  Any first word (\<open>Bearer\<close>,
  \<open>Basic\<close>, anything without a space) is accepted before the token: only the second
  word of the header is checked.
\<close>

theorem gateway_ignores_scheme:
  "CHR '' '' \<notin> set scheme \<Longrightarrow> CHR '' '' \<notin> set t \<Longrightarrow>
   validate_token s now (Some (scheme @ CHR '' '' # t)) = validate_token s now (Some (''Bearer '' @ t))"
  using validate_token_words [of scheme t s now] validate_token_words [of "''Bearer''" t s now] by simp

theorem gateway_ignores_scheme_witness:
  "CHR '' '' \<notin> set ''Basic'' \<and> CHR '' '' \<notin> set ''abc'' \<and>
   validate_token alice_state 0 (Some (''Basic'' @ CHR '' '' # ''abc'')) =
   validate_token alice_state 0 (Some (''Bearer '' @ ''abc''))"
  using gateway_ignores_scheme [of "''Basic''" "''abc''" alice_state 0] by simp

text \<open>
  C31: a token that does not verify is answered 429 \<open>Too Many Requests\<close> (line 20),
  the status of rate limiting, instead of 401 or 403.
\<close>

theorem invalid_token_429:
  "CHR '' '' \<notin> set t \<Longrightarrow> t \<noteq> [] \<Longrightarrow> jwt_verify s now t = None \<Longrightarrow>
   validate_token s now (Some (''Bearer '' @ t)) = GwReject 429 ''Invalid token!''"
  using validate_token_words [of "''Bearer''" t s now] by simp

theorem invalid_token_429_witness:
  "CHR '' '' \<notin> set ''forged'' \<and> ''forged'' \<noteq> [] \<and> jwt_verify alice_state 0 ''forged'' = None \<and>
   validate_token alice_state 0 (Some (''Bearer '' @ ''forged'')) = GwReject 429 ''Invalid token!''"
proof -
  have v: "jwt_verify alice_state 0 ''forged'' = None"
    by (simp add: jwt_verify_def alice_state_def tok_str_def)
  have "CHR '' '' \<notin> set ''forged''" "''forged'' \<noteq> []" by simp_all
  then show ?thesis using v invalid_token_429 [of "''forged''" alice_state 0] by simp
qed

end
