(* ===== verification/Spec2Isabelle.thy ===== *)
theory Spec2Isabelle
  imports Bootstrap PostRoutes AuthApp Gateway
begin

text \<open>
  \<^bold>\<open>A verification development of social-media-microservice-demo.\<close>

  \<^medskip>
  \<^bold>\<open>The program.\<close>  Four Node.js services behind an API gateway.  The auth service
  (\<open>src/auth-service\<close>) registers users and issues JWT access tokens and refresh
  tokens behind two Redis rate limiters; the gateway (\<open>src/api-gateway\<close>) checks the
  access token and forwards the user id.  The post service (\<open>src/post-service\<close>) writes
  posts to MongoDB, caches listings in Redis and announces every write on the RabbitMQ
  topic exchange \<open>facebook_events\<close> (\<open>post.created\<close>, \<open>post.deleted\<close>).  The search
  service (\<open>src/search-service\<close>) consumes both events into its own collection; the
  media service (\<open>src/media-service\<close>) stores uploads in Cloudinary and MongoDB and
  consumes \<open>post.deleted\<close> to reclaim a deleted post's media.  Nothing coordinates
  the stores: the development shows which consistency the code achieves and where it
  loses it.

  \<^medskip>
  \<^bold>\<open>Theories and what they model.\<close>
  \<^item> \<open>Prelude\<close>: identifiers, the collections \<open>js_simps\<close> and \<open>store_simps\<close>, the
    wildcard matcher shared by Redis globs and AMQP topic bindings, the
    \<open>authenticateRequest\<close> middleware of the post and media routes
    (\<open>authenticate_request\<close>), list and association-list lemmas.
  \<^item> \<open>JsRuntime\<close>: \<open>parseInt\<close> and the \<open>|| default\<close> of query parameters, the
    printing of numbers, JSON bodies (\<open>jval\<close>), \<open>String.split\<close> (\<open>js_split\<close>) and
    ObjectIds as 24-digit hexadecimal strings (\<open>oid_str\<close>, \<open>cast_oid\<close>).
  \<^item> \<open>Redis\<close>: the store as an association list and the commands \<open>GET\<close>, \<open>SETEX\<close>,
    \<open>DEL\<close>, \<open>KEYS\<close> with their errors; eviction at any moment (\<open>redis_evict\<close>).
  \<^item> \<open>Amqp\<close>: \<open>post-service/src/utils/rabbitmq.js\<close> (\<open>connect_to_rabbitmq\<close>,
    \<open>publish_event\<close>) and the broker from the spec (topic routing \<open>route\<close>, FIFO queues).
  \<^item> \<open>PostService\<close>: \<open>post-controller.js\<close> and \<open>validation.js\<close>: \<open>create_post\<close>,
    \<open>get_all_posts\<close>, \<open>get_post\<close>, \<open>delete_post\<close> with every branch of their
    \<open>try\<close>/\<open>catch\<close>, \<open>invalidate_post_cache\<close>, Joi validation, MongoDB queries.
  \<^item> \<open>SearchService\<close>: \<open>search-event-handler.js\<close> (\<open>handle_post_created\<close>,
    \<open>handle_post_deleted\<close>), the schema, the subscriptions (\<open>search_dispatch\<close>) and
    \<open>search-post-controller.js\<close> (\<open>search_posts\<close>).
  \<^item> \<open>System\<close>: post service, broker and search collection as a state machine
    (\<open>sys\<close>, \<open>sys_op\<close>, \<open>exec\<close>, the search consumer \<open>consume\<close>) and the inductive set
    \<open>reach\<close> of states reachable by operations that keep their effect.
  \<^item> \<open>Media\<close>: \<open>media-routes.js\<close> and \<open>media-controller.js\<close>: \<open>upload_route\<close> (the
    401, \<open>multer_single\<close> with the 3 MiB limit, \<open>upload_media_ctl\<close>), \<open>get_all_media\<close>,
    and the media projector from spec 4.6 (\<open>handle_media_deleted\<close>,
    \<open>delete_one_media\<close>; the handler file is not in the repository); the service as a
    state machine (\<open>media_exec\<close>, \<open>media_reach\<close>).
  \<^item> \<open>Deployment\<close>: \<open>System\<close> and the media service together, the broker holding the
    search queue and the media queue bound to \<open>post.deleted\<close>
    (\<open>media-service/src/index.js\<close>, line 40); \<open>dep_exec\<close>, \<open>media_consume\<close>.
  \<^item> \<open>Auth\<close>: \<open>auth-controller.js\<close> (register, login, refresh in two phases so
    that concurrent requests interleave, logout) and the route table as \<open>auth_exec\<close>.
  \<^item> \<open>Gateway\<close>: \<open>auth-middleware.js\<close> of the gateway (\<open>validate_token\<close>); JWT
    signatures are the set of tokens the auth service signed.
  \<^item> \<open>RateLimit\<close>: the two fixed-window limiters of \<open>auth-service/src/index.js\<close>.
  \<^item> \<open>PostRoutes\<close>: the post service's Express router (\<open>post-routes.js\<close>): requests,
    \<open>authenticateRequest\<close> on every route, the four routes in order (\<open>post_router\<close>),
    and a request as a step of \<open>System\<close> (\<open>route_exec\<close>).
  \<^item> \<open>Bootstrap\<close>: the \<open>startServer\<close> functions of the post, search and media
    services and the start of the deployment (\<open>dep_boot\<close>).
  \<^item> \<open>AuthApp\<close>: the auth service behind its two limiters (\<open>auth_app\<close>), and one
    client's requests (\<open>auth_run\<close>).
  \<^item> This theory: the property spanning the identity service and the gateway.
  The search route (\<open>search_route\<close>, \<open>search-post-routes.js\<close>) is in
  \<open>SearchService\<close>.

  \<^medskip>
  \<^bold>\<open>What is proved.\<close>  Every claim is stated for any state, or any reachable state, of
  its component; each one with hypotheses has a witness that applies it to a concrete
  state.
  \<^item> Consistency of the search index (\<open>System\<close>): the invariant \<open>sys_inv\<close> of reachable
    states by rule induction; eventual consistency after draining (C1), cache
    transparency and read-your-writes (C2), unique index documents (C4); the projector's
    idempotence (C3) and its no-op on absent posts (C20); the search answer is the top ten
    of the matches (C8).
  \<^item> Where it is lost: a failed publish leaves every cached listing stale (C5), a search
    database outage drops the creation event for good (C6), a Redis outage during a write
    leaves every cached listing stale (C7), a closed channel is never replaced (C25),
    reordered events leave a ghost entry (C21).
  \<^item> The model against the code's wiring: the system's operations are the post router's
    requests (C11), and every state reached through the HTTP interface, malformed and
    unauthenticated requests included, is a reachable state of the model (C12).
  \<^item> The media lifecycle: a post's deletion reclaims its media across the services (C9);
    the projector deletes exactly the referenced media (C10); reachable media states have
    no dangling document (C16); what a 201 upload means (C18); an asset orphaned by a
    failed save stays orphaned under every later operation (C19); the listing is not per
    user (C33).
  \<^item> The post controllers: invalidation equals the spec's \<open>invalidate\<close> (C17); what a
    201 means (C22); deletion without an owner check (C23); the single-post cache
    written under \<open>null\<close> (C24); a negative \<open>limit\<close> gives a negative
    \<open>totalPages\<close> and is cached (C15).
  \<^item> Identity: at most ten requests per client and second are answered by the auth
    controllers (C13), and none while Redis is down (C14); refresh tokens are single-use
    (C26) but \<open>{"$ne": null}\<close> takes over a session (C27) and concurrent refreshes
    fork one (C28); unique accounts (C29); login tokens pass the gateway (C30); an
    invalid token is answered 429 (C31); login tells registered addresses (C32); logout
    leaves every access token valid (C34).
  \<^item> Further lemmas, not claims: the limiter's exact window bound, the 3 MiB upload
    boundary, invalidation never failing while Redis is up, the ObjectId round trip, the
    401 of the post router, and the start of the deployment (all three services with the
    broker up, only the post service with it down).

  \<^medskip>
  \<^bold>\<open>Choices.\<close>  No fuel is needed: every model function is total and structurally
  recursive; a consumer's drain runs exactly as many deliveries as there are pending
  messages (\<open>drain\<close>), which is how \<open>channel.consume\<close> hands over a finite queue.
  Time stamps and ObjectIds are natural numbers (ObjectIds from a counter, printed as
  24 hex digits; Cloudinary public ids from a counter).  JavaScript numbers are
  integers.  Requests are interleaved one operation at a time, except the refresh
  controller, whose lookup and rotation are separate steps.

  \<^medskip>
  \<^bold>\<open>Not modelled.\<close>  What the map leaves uncovered is plumbing without state:
  the \<open>require\<close>s and \<open>module.exports\<close>, \<open>dotenv\<close>, the creation of the Express
  apps and of the Redis and MongoDB clients, CORS, helmet, JSON parsing, logging, the
  error-handler middleware and the \<open>unhandledRejection\<close> handlers.  Beyond the
  code: password hashing and JWT cryptography (abstracted as sets of issued values);
  MongoDB's text-search scoring beyond word matching; the connection code of the search
  and media services (their \<open>rabbitmq.js\<close> is not in the repository; their start is
  modelled from the spec); Express's case-insensitive and percent-decoded path
  matching; concurrent interleaving of the awaits inside one request other than the
  refresh rotation.
\<close>

section \<open>Properties spanning the services\<close>

text \<open>
  C34: logout does not revoke access tokens.  In any well-formed state, after a
  successful \<open>POST /logout\<close> with refresh token \<open>rt\<close>, \<open>rt\<close> is no longer
  stored, but the gateway's \<open>validateToken\<close> answers every request exactly as before
  the logout: every access token issued before it, the logged-out session's included,
  keeps passing the gateway until it expires.
\<close>

theorem logout_keeps_access_tokens:
  assumes wf: "auth_wf s" and ok: "logout_user e body s = (s', (200, bd))"
    and old: "jlookup body ''refreshToken'' = Some (JStr rt)"
  shows "rt \<notin> rt_token ` set (tokens s') \<and> validate_token s' t h = validate_token s t h"
proof -
  obtain st f where f: "token_filter (JStr rt) = Some f" and st: "find (\<lambda>t. f (rt_token t)) (tokens s) = Some st"
    and s': "s' = s\<lparr>tokens := remove1 st (tokens s)\<rparr>"
    using logout_user_ok [OF ok] old by auto
  have "st \<in> set (tokens s)" "rt_token st = rt"
    using f st by (auto dest!: find_Some_mem simp: find_Some_iff)
  moreover have "distinct (map rt_token (tokens s))" using wf by (simp add: auth_wf_def)
  ultimately have "rt \<notin> rt_token ` set (tokens s')"
    using distinct_map_remove1_notin [of rt_token "tokens s" st] s' by simp
  moreover have "signed s' = signed s" by (simp add: s')
  then have "validate_token s' t h = validate_token s t h"
    unfolding validate_token_def jwt_verify_def by (simp only:)
  ultimately show ?thesis by blast
qed

theorem logout_keeps_access_tokens_witness:
  "tok_str ''rt'' 0 \<notin> rt_token ` set (tokens (fst (logout_user auth_env0 alice_body alice_state))) \<and>
   validate_token (fst (logout_user auth_env0 alice_body alice_state)) 0 (Some (''Bearer '' @ tok_str ''jwt'' 0)) =
   validate_token alice_state 0 (Some (''Bearer '' @ tok_str ''jwt'' 0))"
proof -
  have l: "logout_user auth_env0 alice_body alice_state =
             (fst (logout_user auth_env0 alice_body alice_state), (200, AuthMsg True ''Logged out successfully!''))"
    by (simp add: logout_user_def alice_body_def jlookup_def js_truthy_def auth_env0_def alice_state_def
        alice_rt_def tok_str_def)
  have j: "jlookup alice_body ''refreshToken'' = Some (JStr (tok_str ''rt'' 0))"
    by (simp add: alice_body_def jlookup_def)
  show ?thesis using logout_keeps_access_tokens [OF auth_wf_alice l j] by blast
qed

end
